(* ===== verification/Prelude.thy ===== *)
theory Prelude
  imports
    Main
    "HOL-Library.Word"
    "HOL-Library.Signed_Division"
    "HOL-Library.Char_ord"
    "HOL-Library.List_Lexorder"
    "HOL-Library.Multiset"
begin

text \<open>
  Shared vocabulary of the development: the machine integers of Go, the binary search of the
  Go package \<open>sort\<close>, and lists that are strictly sorted by a key.

  Conventions.  An \<open>int64\<close> is an \<^typ>\<open>int\<close> and a \<open>uint32\<close> or \<open>uint64\<close> is a \<^typ>\<open>nat\<close>; where the
  code's arithmetic can leave the range of the Go type the wrap-around is written out with
  \<open>i64\<close>, \<open>u32\<close> or \<open>u64\<close>.  A Go string is a \<^typ>\<open>string\<close> (a list of bytes) and is compared
  lexicographically by byte, which is the order of \<open>Char_ord\<close> and \<open>List_Lexorder\<close>.
  Go's integer division truncates towards zero: it is \<open>sdiv\<close> of \<open>Signed_Division\<close>.
\<close>

named_theorems go_arith \<open>facts that remove a wrap-around whose operand is in range\<close>
named_theorems search_simps \<open>facts that replace the binary search by a list function\<close>

section \<open>Machine integers\<close>

definition maxInt64 :: int where "maxInt64 = 2 ^ 63 - 1"
definition maxUint32 :: nat where "maxUint32 = 2 ^ 32 - 1"
definition maxUint64 :: nat where "maxUint64 = 2 ^ 64 - 1"

definition i64 :: "int \<Rightarrow> int" where
  "i64 x = (x + 2 ^ 63) mod 2 ^ 64 - 2 ^ 63"

definition u32 :: "nat \<Rightarrow> nat" where
  "u32 n = n mod 2 ^ 32"

definition u64 :: "nat \<Rightarrow> nat" where
  "u64 n = n mod 2 ^ 64"

text \<open>Unsigned 32-bit subtraction, which wraps below zero.\<close>

definition u32_sub :: "nat \<Rightarrow> nat \<Rightarrow> nat" where
  "u32_sub a b = (a + 2 ^ 32 - b) mod 2 ^ 32"

text \<open>For evaluation in the kernel: natural numbers are unary there, integers are binary.\<close>

lemma u32_binary [code]: "u32 n = nat (int n mod 4294967296)"
  by (simp add: u32_def nat_mod_distrib)

lemma u64_binary [code]: "u64 n = nat (int n mod 18446744073709551616)"
  by (simp add: u64_def nat_mod_distrib)

lemma i64_id [go_arith]: "- (2 ^ 63) \<le> x \<Longrightarrow> x \<le> maxInt64 \<Longrightarrow> i64 x = x"
  by (simp add: i64_def maxInt64_def)

lemma i64_range: "- (2 ^ 63) \<le> i64 x" "i64 x \<le> maxInt64"
proof -
  have "0 \<le> (x + 2 ^ 63) mod 2 ^ 64" "(x + 2 ^ 63) mod 2 ^ 64 < (2 ^ 64 :: int)" by simp_all
  then show "- (2 ^ 63) \<le> i64 x" "i64 x \<le> maxInt64"
    unfolding i64_def maxInt64_def by simp_all
qed

lemma u32_id [go_arith]: "n \<le> maxUint32 \<Longrightarrow> u32 n = n"
  by (simp add: u32_def maxUint32_def)

lemma u32_le: "u32 n \<le> n"
  by (simp add: u32_def)

lemma u32_sub_id [go_arith]:
  assumes "b \<le> a" "a \<le> maxUint32"
  shows "u32_sub a b = a - b"
proof -
  have "a + 2 ^ 32 - b = (a - b) + 2 ^ 32" using assms(1) by simp
  then have "u32_sub a b = ((a - b) + 2 ^ 32) mod 2 ^ 32" by (simp only: u32_sub_def)
  also have "\<dots> = (a - b) mod 2 ^ 32" by (rule mod_add_self2)
  also have "\<dots> = a - b" using assms(2) by (intro mod_less) (simp add: maxUint32_def)
  finally show ?thesis .
qed

lemma sdiv_pos [go_arith]: "0 \<le> (a::int) \<Longrightarrow> 0 < b \<Longrightarrow> a sdiv b = a div b"
  by (simp add: sgn_if signed_divide_int_def)

section \<open>The binary search of package sort\<close>

text \<open>
  \<open>sort.Search(n, f)\<close>: the loop of the Go standard library, with the half-open interval
  \<open>[i, j)\<close>.
\<close>

function search_loop :: "(nat \<Rightarrow> bool) \<Rightarrow> nat \<Rightarrow> nat \<Rightarrow> nat" where
  "search_loop f i j =
     (if i < j
      then (let h = (i + j) div 2 in if \<not> f h then search_loop f (h + 1) j else search_loop f i h)
      else i)"
  by pat_completeness auto
termination
  by (relation "measure (\<lambda>(f, i, j). j - i)") auto

declare search_loop.simps [simp del]

definition go_search :: "nat \<Rightarrow> (nat \<Rightarrow> bool) \<Rightarrow> nat" where
  "go_search n f = search_loop f 0 n"

text \<open>
  On a predicate that stays true once it is true, the loop returns the unique border between
  the indices where it fails and the ones where it holds.
\<close>

lemma search_loop_border:
  assumes "i \<le> m" and "m \<le> j"
    and "\<And>k. k < m \<Longrightarrow> \<not> f k" and "\<And>k. m \<le> k \<Longrightarrow> k < j \<Longrightarrow> f k"
  shows "search_loop f i j = m"
  using assms
proof (induction f i j rule: search_loop.induct)
  case (1 f i j)
  show ?case
  proof (cases "i < j")
    case False
    with "1.prems" show ?thesis by (simp add: search_loop.simps [of f i j])
  next
    case True
    let ?h = "(i + j) div 2"
    have h: "i \<le> ?h" "?h < j" using True by auto
    show ?thesis
    proof (cases "f ?h")
      case True
      then have "m \<le> ?h" using "1.prems"(3) by (meson leI)
      then have "search_loop f i ?h = m"
        using "1.IH"(2) [OF \<open>i < j\<close> refl] True "1.prems" h by auto
      with \<open>i < j\<close> True show ?thesis by (simp add: search_loop.simps [of f i j])
    next
      case False
      then have "?h + 1 \<le> m" using "1.prems"(4) h by (metis Suc_eq_plus1 leI not_less_eq_eq)
      then have "search_loop f (?h + 1) j = m"
        using "1.IH"(1) [OF \<open>i < j\<close> refl] False "1.prems" by auto
      with \<open>i < j\<close> False show ?thesis by (simp add: search_loop.simps [of f i j] Let_def)
    qed
  qed
qed

lemma go_search_border:
  assumes "m \<le> n" and "\<And>k. k < m \<Longrightarrow> \<not> f k" and "\<And>k. m \<le> k \<Longrightarrow> k < n \<Longrightarrow> f k"
  shows "go_search n f = m"
  unfolding go_search_def using assms by (intro search_loop_border) auto

section \<open>Lists sorted by a key\<close>

text \<open>The search the code makes on every sorted slice: the first element with key at least \<open>k\<close>.\<close>

definition search_key :: "('a \<Rightarrow> 'k::linorder) \<Rightarrow> 'a list \<Rightarrow> 'k \<Rightarrow> nat" where
  "search_key key xs k = go_search (length xs) (\<lambda>i. k \<le> key (xs ! i))"

abbreviation sorted_by :: "('a \<Rightarrow> 'k::linorder) \<Rightarrow> 'a list \<Rightarrow> bool" where
  "sorted_by key xs \<equiv> sorted (map key xs)"

abbreviation ssorted_by :: "('a \<Rightarrow> 'k::linorder) \<Rightarrow> 'a list \<Rightarrow> bool" where
  "ssorted_by key xs \<equiv> sorted_wrt (<) (map key xs)"

lemma sorted_key_mono:
  assumes "sorted_by key xs" "i \<le> j" "j < length xs"
  shows "key (xs ! i) \<le> key (xs ! j)"
  using assms by (metis (mono_tags, lifting) length_map nth_map order.strict_trans1 sorted_iff_nth_mono)

lemma search_key_takeWhile [search_simps]:
  assumes "sorted_by key xs"
  shows "search_key key xs k = length (takeWhile (\<lambda>x. key x < k) xs)"
  unfolding search_key_def
proof (rule go_search_border)
  let ?m = "length (takeWhile (\<lambda>x. key x < k) xs)"
  show "?m \<le> length xs" by (rule length_takeWhile_le)
  show "\<not> k \<le> key (xs ! i)" if "i < ?m" for i
    using that by (metis (mono_tags, lifting) leD nth_mem set_takeWhileD takeWhile_nth)
  show "k \<le> key (xs ! i)" if "?m \<le> i" "i < length xs" for i
  proof -
    have "?m < length xs" using that by simp
    then have "\<not> key (xs ! ?m) < k" by (rule nth_length_takeWhile)
    with sorted_key_mono [OF assms that] show ?thesis by simp
  qed
qed

lemma ssorted_imp_sorted: "ssorted_by key xs \<Longrightarrow> sorted_by key xs"
  by (rule strict_sorted_imp_sorted)

lemma ssorted_distinct: "ssorted_by key xs \<Longrightarrow> distinct (map key xs)"
  by (simp add: strict_sorted_iff)

lemma ssorted_inj:
  "ssorted_by key xs \<Longrightarrow> x \<in> set xs \<Longrightarrow> y \<in> set xs \<Longrightarrow> key x = key y \<Longrightarrow> x = y"
  by (metis distinct_map inj_onD ssorted_distinct)

lemma ssorted_filter: "ssorted_by key xs \<Longrightarrow> ssorted_by key (filter P xs)"
  by (induction xs) auto

lemma takeWhile_eq_filter_sorted:
  "sorted_by key xs \<Longrightarrow> takeWhile (\<lambda>x. key x < k) xs = filter (\<lambda>x. key x < k) xs"
  by (induction xs) (fastforce intro: filter_False [symmetric])+

lemma dropWhile_eq_filter_sorted:
  "sorted_by key xs \<Longrightarrow> dropWhile (\<lambda>x. key x < k) xs = filter (\<lambda>x. k \<le> key x) xs"
  by (induction xs) (fastforce intro: filter_True [symmetric])+

lemma takeWhile_until_sorted:
  "sorted_by key xs \<Longrightarrow> takeWhile (\<lambda>x. key x \<le> k) xs = filter (\<lambda>x. key x \<le> k) xs"
  by (induction xs) (fastforce intro: filter_False [symmetric])+

text \<open>
  The element the search points at: the one with key \<open>k\<close> when there is one.
\<close>

lemma search_key_hit:
  assumes s: "ssorted_by key xs" and i: "i < length xs" and k: "key (xs ! i) = k"
  shows "search_key key xs k = i"
proof -
  have "length (takeWhile (\<lambda>x. key x < k) xs) = i"
  proof (rule takeWhile_eq_take_P_nth [THEN arg_cong [where f = length], simplified length_take, THEN trans])
    show "key (xs ! j) < k" if "j < i" "j < length xs" for j
      using that sorted_wrt_nth_less [OF s, of j i] i k by simp
    show "\<not> key (xs ! i) < k" using k by simp
  qed (use i in auto)
  with search_key_takeWhile [OF ssorted_imp_sorted [OF s]] show ?thesis by simp
qed

lemma search_key_found_iff:
  assumes s: "ssorted_by key xs"
  shows "search_key key xs k < length xs \<and> key (xs ! search_key key xs k) = k
           \<longleftrightarrow> k \<in> key ` set xs"
    (is "?l \<longleftrightarrow> ?r")
proof
  assume ?l then show ?r by (metis imageI nth_mem)
next
  assume ?r
  then obtain i where "i < length xs" "key (xs ! i) = k" by (auto simp: in_set_conv_nth)
  with search_key_hit [OF s] show ?l by auto
qed

section \<open>A sorted slice as a map\<close>

text \<open>
  The map a strictly sorted slice stands for, and what the code's three writes do to it:
  overwrite in place, insert at the searched position, and filter.
\<close>

definition key_map :: "('a \<Rightarrow> 'k) \<Rightarrow> 'a list \<Rightarrow> 'k \<rightharpoonup> 'a" where
  "key_map key xs = map_of (map (\<lambda>x. (key x, x)) xs)"

lemma key_map_Some_iff:
  assumes "ssorted_by key xs"
  shows "key_map key xs k = Some x \<longleftrightarrow> x \<in> set xs \<and> key x = k"
proof -
  have "distinct (map fst (map (\<lambda>x. (key x, x)) xs))"
    using ssorted_distinct [OF assms] by (simp add: comp_def)
  then show ?thesis unfolding key_map_def by (subst map_of_eq_Some_iff) auto
qed

lemma key_map_None_iff: "key_map key xs k = None \<longleftrightarrow> k \<notin> key ` set xs"
  by (simp add: key_map_def map_of_eq_None_iff image_image)

lemma key_map_eqI:
  assumes s: "ssorted_by key ys"
    and some: "\<And>k x. f k = Some x \<longleftrightarrow> x \<in> set ys \<and> key x = k"
  shows "key_map key ys = f"
proof
  fix k
  show "key_map key ys k = f k"
    using some [of k] key_map_Some_iff [OF s, of k] by (metis not_Some_eq)
qed

lemma search_key_nth:
  assumes "ssorted_by key xs" and "key_map key xs k = Some x"
  shows "search_key key xs k < length xs" and "xs ! search_key key xs k = x"
proof -
  have "x \<in> set xs" "key x = k" using assms by (auto simp: key_map_Some_iff)
  then obtain i where i: "i < length xs" "xs ! i = x" by (auto simp: in_set_conv_nth)
  with search_key_hit [OF assms(1), of i k] \<open>key x = k\<close>
  show "search_key key xs k < length xs" "xs ! search_key key xs k = x" by auto
qed

lemma search_key_miss:
  assumes "ssorted_by key xs" and "key_map key xs k = None"
  shows "\<not> (search_key key xs k < length xs \<and> key (xs ! search_key key xs k) = k)"
  using assms by (simp add: search_key_found_iff key_map_None_iff)

lemma ssorted_list_update:
  "ssorted_by key xs \<Longrightarrow> i < length xs \<Longrightarrow> key y = key (xs ! i) \<Longrightarrow> ssorted_by key (xs[i := y])"
  by (metis list_update_id map_update)

lemma key_map_list_update:
  assumes s: "ssorted_by key xs" and i: "i < length xs" and k: "key y = key (xs ! i)"
  shows "key_map key (xs[i := y]) = (key_map key xs)(key y \<mapsto> y)"
proof (rule key_map_eqI)
  show "ssorted_by key (xs[i := y])" using assms by (rule ssorted_list_update)
  have inj: "key (xs ! j) = key y \<Longrightarrow> j = i" if "j < length xs" for j
    using ssorted_distinct [OF s] i k that by (simp add: distinct_conv_nth) metis
  show "((key_map key xs)(key y \<mapsto> y)) k' = Some x \<longleftrightarrow> x \<in> set (xs[i := y]) \<and> key x = k'" for k' x
    using inj i k by (auto simp: key_map_Some_iff [OF s] in_set_conv_nth nth_list_update
        split: if_splits) metis+
qed

lemma insert_at_search:
  assumes s: "ssorted_by key xs" and k: "key y = k" and none: "key_map key xs k = None"
  defines "i \<equiv> search_key key xs k"
  shows "ssorted_by key (take i xs @ [y] @ drop i xs)"
    and "key_map key (take i xs @ [y] @ drop i xs) = (key_map key xs)(k \<mapsto> y)"
proof -
  have ss: "sorted_by key xs" using s by (rule ssorted_imp_sorted)
  have i: "i = length (takeWhile (\<lambda>x. key x < k) xs)"
    unfolding i_def using ss by (rule search_key_takeWhile)
  have tk: "take i xs = filter (\<lambda>x. key x < k) xs"
    unfolding i takeWhile_eq_take [symmetric] by (rule takeWhile_eq_filter_sorted [OF ss])
  have dp: "drop i xs = filter (\<lambda>x. k \<le> key x) xs"
    unfolding i dropWhile_eq_drop [symmetric] by (rule dropWhile_eq_filter_sorted [OF ss])
  have ne: "x \<in> set xs \<Longrightarrow> key x \<noteq> k" for x using none by (auto simp: key_map_None_iff)
  have "ssorted_by key (take i xs)" "ssorted_by key (drop i xs)"
    unfolding tk dp using s by (auto intro: ssorted_filter)
  then show sorted: "ssorted_by key (take i xs @ [y] @ drop i xs)"
    unfolding tk dp using k ne by (fastforce simp: sorted_wrt_append)
  show "key_map key (take i xs @ [y] @ drop i xs) = (key_map key xs)(k \<mapsto> y)"
  proof (rule key_map_eqI [OF sorted])
    show "((key_map key xs)(k \<mapsto> y)) k' = Some x
        \<longleftrightarrow> x \<in> set (take i xs @ [y] @ drop i xs) \<and> key x = k'" for k' x
      unfolding tk dp using k ne by (auto simp: key_map_Some_iff [OF s])
  qed
qed

lemma key_map_filter:
  assumes "ssorted_by key xs"
  shows "key_map key (filter P xs) k = (case key_map key xs k of
           Some x \<Rightarrow> if P x then Some x else None | None \<Rightarrow> None)"
proof (rule key_map_eqI [THEN fun_cong])
  show "ssorted_by key (filter P xs)" using assms by (rule ssorted_filter)
  show "(case key_map key xs k of Some x \<Rightarrow> if P x then Some x else None | None \<Rightarrow> None) = Some x
      \<longleftrightarrow> x \<in> set (filter P xs) \<and> key x = k" (is "?l = Some x \<longleftrightarrow> _") for k x
  proof -
    have "?l = Some x \<longleftrightarrow> key_map key xs k = Some x \<and> P x" by (auto split: option.splits)
    then show ?thesis by (auto simp: key_map_Some_iff [OF assms])
  qed
qed

lemma key_map_map:
  assumes "\<And>x. key (f x) = key x"
  shows "key_map key (map f xs) k = map_option f (key_map key xs k)"
  by (induction xs) (auto simp: key_map_def assms)

text \<open>Ordered pairs of positions of a list grown by one element.\<close>

lemma pair_snoc:
  "(\<exists>i j. i < j \<and> j < length (xs @ [x]) \<and> P ((xs @ [x]) ! i) \<and> Q ((xs @ [x]) ! j)) \<longleftrightarrow>
   (\<exists>i j. i < j \<and> j < length xs \<and> P (xs ! i) \<and> Q (xs ! j)) \<or> ((\<exists>t \<in> set xs. P t) \<and> Q x)"
    (is "?l \<longleftrightarrow> ?a \<or> ?b")
proof
  assume ?l
  then obtain i j where ij: "i < j" "j < length (xs @ [x])" "P ((xs @ [x]) ! i)" "Q ((xs @ [x]) ! j)"
    by blast
  show "?a \<or> ?b"
  proof (cases "j = length xs")
    case True
    with ij have "P (xs ! i)" "i < length xs" "Q x" by (auto simp: nth_append)
    then show ?thesis by (meson nth_mem)
  next
    case False
    with ij have "j < length xs" by simp
    with ij show ?thesis by (intro disjI1 exI [of _ i] exI [of _ j]) (simp add: nth_append)
  qed
next
  assume "?a \<or> ?b"
  then show ?l
  proof
    assume ?a
    then obtain i j where "i < j" "j < length xs" "P (xs ! i)" "Q (xs ! j)" by blast
    then show ?l by (intro exI [of _ i] exI [of _ j]) (simp add: nth_append)
  next
    assume ?b
    then obtain i where "i < length xs" "P (xs ! i)" "Q x" by (auto simp: in_set_conv_nth)
    then show ?l by (intro exI [of _ i] exI [of _ "length xs"]) (simp add: nth_append)
  qed
qed

section \<open>Index maps\<close>

text \<open>
  The loop \<open>for i, x := range xs { m[key(x)] = i }\<close>, and what it finds when the keys are distinct.
\<close>

fun indexBy :: "('a \<Rightarrow> 'k) \<Rightarrow> nat \<Rightarrow> 'a list \<Rightarrow> ('k \<rightharpoonup> nat) \<Rightarrow> ('k \<rightharpoonup> nat)" where
  "indexBy key i [] m = m"
| "indexBy key i (x # xs) m = indexBy key (Suc i) xs (m(key x \<mapsto> i))"

lemma indexBy_Some_iff:
  "distinct (map key xs) \<Longrightarrow> indexBy key i xs m k = Some j \<longleftrightarrow>
     (\<exists>p < length xs. key (xs ! p) = k \<and> j = i + p) \<or> (k \<notin> key ` set xs \<and> m k = Some j)"
proof (induction xs arbitrary: i m)
  case (Cons x xs)
  have "(\<exists>p < length (x # xs). key ((x # xs) ! p) = k \<and> j = i + p) \<longleftrightarrow>
      (key x = k \<and> j = i) \<or> (\<exists>p < length xs. key (xs ! p) = k \<and> j = Suc i + p)"
    by (auto simp: less_Suc_eq_0_disj)
  moreover have "key x = k \<Longrightarrow> p < length xs \<Longrightarrow> key (xs ! p) \<noteq> k" for p
    using Cons.prems by (metis distinct.simps(2) image_set list.simps(9) nth_mem image_eqI)
  ultimately show ?case using Cons by auto
qed simp

lemma indexBy_start:
  assumes "distinct (map key xs)"
  shows "indexBy key 0 xs Map.empty k = Some j \<longleftrightarrow> j < length xs \<and> key (xs ! j) = k"
  using indexBy_Some_iff [OF assms, of 0 Map.empty k j] by auto

text \<open>A strictly sorted slice is determined by its elements.\<close>

lemma ssorted_ext:
  assumes "ssorted_by key xs" "ssorted_by key ys" "set xs = set ys"
  shows "xs = ys"
proof -
  have "inj_on key (set xs \<union> set ys)"
    using ssorted_distinct [OF assms(2)] assms(3) by (simp add: distinct_map)
  with assms show ?thesis
    by (intro map_sorted_distinct_set_unique ssorted_imp_sorted ssorted_distinct) auto
qed

end
