(* ===== verification/GapReason.thy ===== *)
theory GapReason
  imports Prelude
begin

text \<open>
  The gap reason fold of \<open>contract/gap_reason_fold.go\<close>: the one reason a gap marker carries for
  a set of incomplete inputs.  The interface \<open>preference\<close> states what a fold needs of its
  comparison; it is interpreted on \<open>gapReasonOutranks\<close>, and the detection component uses the
  fold through \<open>strongerUnknownReason\<close>.
\<close>

section \<open>A fold that prefers by a strict total order\<close>

locale preference =
  fixes outranks :: "'a \<Rightarrow> 'a \<Rightarrow> bool"
  assumes outranks_irrefl: "\<not> outranks x x"
    and outranks_trans: "outranks x y \<Longrightarrow> outranks y z \<Longrightarrow> outranks x z"
    and outranks_total: "x \<noteq> y \<Longrightarrow> outranks x y \<or> outranks y x"
begin

lemma outranks_asym: "outranks x y \<Longrightarrow> \<not> outranks y x"
  using outranks_irrefl outranks_trans by blast

text \<open>\<open>best S x\<close>: \<open>x\<close> is in \<open>S\<close> and nothing in \<open>S\<close> outranks it.\<close>

definition best :: "'a set \<Rightarrow> 'a \<Rightarrow> bool" where
  "best S x \<longleftrightarrow> x \<in> S \<and> (\<forall>y \<in> S. \<not> outranks y x)"

lemma best_unique: "best S x \<Longrightarrow> best S y \<Longrightarrow> x = y"
  unfolding best_def using outranks_total by blast

lemma best_insert:
  assumes "best S x"
  shows "best (insert y S) (if outranks y x then y else x)"
  using assms outranks_irrefl outranks_trans unfolding best_def by auto

lemma best_single: "best {x} x"
  unfolding best_def using outranks_irrefl by simp

end

section \<open>The order and the fold\<close>

definition ReasonReadinessBudgetInvalid :: string where
  "ReasonReadinessBudgetInvalid = ''READINESS_BUDGET_INVALID''"
definition ReasonQueryTargetMissing :: string where
  "ReasonQueryTargetMissing = ''QUERY_TARGET_MISSING''"
definition ReasonDetectIntervalStorageNotSliding :: string where
  "ReasonDetectIntervalStorageNotSliding = ''DETECT_INTERVAL_STORAGE_NOT_SLIDING''"
definition ReasonQueryUnavailable :: string where
  "ReasonQueryUnavailable = ''QUERY_UNAVAILABLE''"
definition ReasonQueryTimeout :: string where
  "ReasonQueryTimeout = ''QUERY_TIMEOUT''"
definition ReasonExecutionBudgetExhausted :: string where
  "ReasonExecutionBudgetExhausted = ''EXECUTION_BUDGET_EXHAUSTED''"
definition ReasonConfigDrift :: string where
  "ReasonConfigDrift = ''CONFIG_DRIFT''"
definition ReasonPlanReactivated :: string where
  "ReasonPlanReactivated = ''PLAN_REACTIVATED''"
definition ReasonQueryPartial :: string where
  "ReasonQueryPartial = ''QUERY_PARTIAL''"
definition ReasonQueryEmpty :: string where
  "ReasonQueryEmpty = ''QUERY_EMPTY''"

lemmas gap_reason_defs =
  ReasonReadinessBudgetInvalid_def ReasonQueryTargetMissing_def
  ReasonDetectIntervalStorageNotSliding_def ReasonQueryUnavailable_def ReasonQueryTimeout_def
  ReasonExecutionBudgetExhausted_def ReasonConfigDrift_def ReasonPlanReactivated_def
  ReasonQueryPartial_def ReasonQueryEmpty_def

definition GapReasonFoldOrder :: "string list" where
  "GapReasonFoldOrder =
     [ReasonReadinessBudgetInvalid, ReasonQueryTargetMissing, ReasonDetectIntervalStorageNotSliding,
      ReasonQueryUnavailable, ReasonQueryTimeout, ReasonExecutionBudgetExhausted,
      ReasonConfigDrift, ReasonPlanReactivated, ReasonQueryPartial, ReasonQueryEmpty]"

text \<open>The loop of \<open>gapReasonRank\<close>, counting from the index of the first listed reason.\<close>

fun gapReasonRankFrom :: "nat \<Rightarrow> string list \<Rightarrow> string \<Rightarrow> nat option" where
  "gapReasonRankFrom rank [] reason = None"
| "gapReasonRankFrom rank (listed # rest) reason =
     (if listed = reason then Some rank else gapReasonRankFrom (Suc rank) rest reason)"

definition gapReasonRank :: "string \<Rightarrow> nat \<times> bool" where
  "gapReasonRank reason =
     (case gapReasonRankFrom 0 GapReasonFoldOrder reason of
        Some rank \<Rightarrow> (rank, True)
      | None \<Rightarrow> (length GapReasonFoldOrder, False))"

definition gapReasonOutranks :: "string \<Rightarrow> string \<Rightarrow> bool" where
  "gapReasonOutranks candidate incumbent =
     (let (candidateRank, candidateListed) = gapReasonRank candidate;
          (incumbentRank, incumbentListed) = gapReasonRank incumbent
      in if candidateListed \<noteq> incumbentListed then \<not> candidateListed
         else if candidateRank \<noteq> incumbentRank then candidateRank < incumbentRank
         else candidate < incumbent)"

fun foldGapReasons :: "string \<Rightarrow> string list \<Rightarrow> string" where
  "foldGapReasons folded [] = folded"
| "foldGapReasons folded (reason # reasons) =
     (if reason = [] then foldGapReasons folded reasons
      else foldGapReasons
             (if folded = [] \<or> gapReasonOutranks reason folded then reason else folded) reasons)"

definition FoldGapReason :: "string list \<Rightarrow> string" where
  "FoldGapReason reasons = foldGapReasons [] reasons"

text \<open>\<open>strongerUnknownReason\<close> of \<open>detect/evaluator.go\<close>, the fold on two reasons.\<close>

definition strongerUnknownReason :: "string \<Rightarrow> string \<Rightarrow> bool" where
  "strongerUnknownReason current candidate \<longleftrightarrow>
     candidate \<noteq> current \<and> FoldGapReason [candidate, current] = candidate"

section \<open>The comparison is a strict total order\<close>

lemma gapReasonRankFrom_Some:
  "gapReasonRankFrom r xs reason = Some n \<Longrightarrow>
     r \<le> n \<and> n - r < length xs \<and> xs ! (n - r) = reason"
proof (induction xs arbitrary: r)
  case (Cons x xs)
  show ?case
  proof (cases "x = reason")
    case False
    with Cons.prems have "gapReasonRankFrom (Suc r) xs reason = Some n" by simp
    from Cons.IH [OF this] show ?thesis by (auto simp: nth_Cons' Suc_diff_Suc)
  qed (use Cons.prems in auto)
qed simp

lemma gapReasonRank_inj:
  "gapReasonRank x = (n, True) \<Longrightarrow> gapReasonRank y = (n, True) \<Longrightarrow> x = y"
  by (auto simp: gapReasonRank_def split: option.splits dest!: gapReasonRankFrom_Some)

lemma gapReasonRank_unlisted:
  "gapReasonRank x = (n, False) \<Longrightarrow> n = length GapReasonFoldOrder"
  by (auto simp: gapReasonRank_def split: option.splits)

lemma gapReasonOutranks_irrefl: "\<not> gapReasonOutranks x x"
  by (simp add: gapReasonOutranks_def split: prod.splits)

lemma gapReasonOutranks_trans:
  "gapReasonOutranks x y \<Longrightarrow> gapReasonOutranks y z \<Longrightarrow> gapReasonOutranks x z"
  by (auto simp: gapReasonOutranks_def split: prod.splits if_splits)

lemma gapReasonOutranks_total:
  assumes "x \<noteq> y"
  shows "gapReasonOutranks x y \<or> gapReasonOutranks y x"
proof -
  obtain a p b q where "gapReasonRank x = (a, p)" "gapReasonRank y = (b, q)" by fastforce
  then show ?thesis using assms by (auto simp: gapReasonOutranks_def)
qed

lemma gapReasonRank_listed: "snd (gapReasonRank x) \<longleftrightarrow> x \<in> set GapReasonFoldOrder"
proof -
  have "gapReasonRankFrom n xs x = None \<longleftrightarrow> x \<notin> set xs" for n xs
    by (induction xs arbitrary: n) auto
  from this [of 0 GapReasonFoldOrder] show ?thesis
    by (cases "gapReasonRankFrom 0 GapReasonFoldOrder x") (auto simp: gapReasonRank_def)
qed

lemma gapReasonOutranks_listed:
  "gapReasonOutranks x y \<Longrightarrow> x \<in> set GapReasonFoldOrder \<Longrightarrow> y \<in> set GapReasonFoldOrder"
  by (auto simp: gapReasonOutranks_def simp flip: gapReasonRank_listed split: prod.splits if_splits)

interpretation gap: preference gapReasonOutranks
  by unfold_locales
    (use gapReasonOutranks_irrefl gapReasonOutranks_trans gapReasonOutranks_total in blast)+

section \<open>What the fold returns\<close>

lemma foldGapReasons_best:
  assumes "gap.best S folded" and "[] \<notin> S"
  shows "gap.best (S \<union> (set reasons - {[]})) (foldGapReasons folded reasons)"
  using assms
proof (induction reasons arbitrary: S folded)
  case (Cons r rs)
  have ne: "folded \<noteq> []" using Cons.prems by (auto simp: gap.best_def)
  show ?case
  proof (cases "r = []")
    case False
    from gap.best_insert [OF Cons.prems(1), of r]
    have "gap.best (insert r S) (if gapReasonOutranks r folded then r else folded)" .
    from Cons.IH [OF this] Cons.prems(2) False ne show ?thesis
      by (simp add: insert_Diff_if)
  qed (use Cons in simp)
qed simp

lemma FoldGapReason_best:
  assumes "set reasons - {[]} \<noteq> {}"
  shows "gap.best (set reasons - {[]}) (FoldGapReason reasons)"
  using assms
proof (induction reasons)
  case (Cons r rs)
  show ?case
  proof (cases "r = []")
    case True
    with Cons show ?thesis by (simp add: FoldGapReason_def)
  next
    case False
    have "gap.best ({r} \<union> (set rs - {[]})) (foldGapReasons r rs)"
      using False by (intro foldGapReasons_best gap.best_single) simp
    with False show ?thesis by (simp add: FoldGapReason_def insert_Diff_if)
  qed
qed simp

lemma FoldGapReason_none: "set reasons - {[]} = {} \<Longrightarrow> FoldGapReason reasons = []"
proof -
  assume "set reasons - {[]} = {}"
  then have "\<forall>r \<in> set reasons. r = []" by auto
  then have "foldGapReasons [] reasons = []" by (induction reasons) auto
  then show ?thesis by (simp add: FoldGapReason_def)
qed

lemma FoldGapReason_cong:
  assumes "set xs - {[]} = set ys - {[]}"
  shows "FoldGapReason xs = FoldGapReason ys"
proof (cases "set xs - {[]} = {}")
  case True
  with assms show ?thesis by (simp add: FoldGapReason_none)
next
  case False
  with assms show ?thesis
    by (metis FoldGapReason_best gap.best_unique)
qed

lemma strongerUnknownReason_iff:
  assumes "candidate \<noteq> []"
  shows "strongerUnknownReason current candidate \<longleftrightarrow>
    current = [] \<or> gapReasonOutranks candidate current"
  using assms gap.outranks_asym [of candidate current] gap.outranks_asym [of current candidate]
    gap.outranks_irrefl [of current] gap.outranks_total [of candidate current]
  by (auto simp: strongerUnknownReason_def FoldGapReason_def)

text \<open>
  Keeping the stronger reason at every step, as the detection loop does, is the fold.
\<close>

lemma stronger_step_fold:
  assumes "r \<noteq> []"
  shows "foldGapReasons cur (r # rs) =
    foldGapReasons (if strongerUnknownReason cur r then r else cur) rs"
  using assms by (simp add: strongerUnknownReason_iff)

section \<open>Properties\<close>

text \<open>
  The fold of a gap scope's reasons depends only on the set of non-empty reasons, not on
  their order or multiplicity, so two derivations that walk the same inputs differently agree.
\<close>

theorem FoldGapReason_set_determined:
  assumes "set xs - {[]} = set ys - {[]}"
  shows "FoldGapReason xs = FoldGapReason ys"
  using assms by (rule FoldGapReason_cong)

theorem FoldGapReason_set_determined_witness:
  "FoldGapReason [ReasonQueryPartial, [], ReasonQueryTimeout]
     = FoldGapReason [ReasonQueryTimeout, ReasonQueryPartial, ReasonQueryTimeout]"
  by (rule FoldGapReason_set_determined) (simp add: gap_reason_defs, blast)



end
