(* ===== verification/Bitmap.thy ===== *)
theory Bitmap
  imports Prelude
begin

unbundle bit_operations_syntax

text \<open>
  The byte bitmaps of \<open>state/window.go\<close> (one bit per Level) and their bit-level laws.  A
  position is an index into a slice, so it is a \<^typ>\<open>nat\<close> and the code's test \<open>position >= 0\<close>
  always holds.  Writing outside the bitmap panics in Go; the laws about \<open>setBit\<close> are stated
  for positions inside it, and the callers' positions are shown to be inside.
\<close>

type_synonym bitmap = "8 word list"

definition bitmapBytes :: "nat \<Rightarrow> nat" where
  "bitmapBytes n = (n + 7) div 8"

definition bitSet :: "bitmap \<Rightarrow> nat \<Rightarrow> bool" where
  "bitSet bm p \<longleftrightarrow> p div 8 < length bm \<and> (bm ! (p div 8)) AND push_bit (p mod 8) 1 \<noteq> 0"

definition setBit :: "bitmap \<Rightarrow> nat \<Rightarrow> bool \<Rightarrow> bitmap" where
  "setBit bm p v =
     (let mask = push_bit (p mod 8) 1
      in if v then bm[p div 8 := (bm ! (p div 8)) OR mask]
         else bm[p div 8 := (bm ! (p div 8)) AND NOT mask])"

definition anyBit :: "bitmap \<Rightarrow> bool" where
  "anyBit bm = list_ex (\<lambda>v. v \<noteq> 0) bm"

section \<open>Bit-level laws\<close>

lemma byte_nonzero_iff: "(w :: 8 word) \<noteq> 0 \<longleftrightarrow> (\<exists>i < 8. bit w i)"
proof
  assume "w \<noteq> 0"
  show "\<exists>i < 8. bit w i"
  proof (rule ccontr)
    assume "\<not> (\<exists>i < 8. bit w i)"
    then have "w = 0" by (intro bit_word_eqI) auto
    with \<open>w \<noteq> 0\<close> show False ..
  qed
qed auto

lemma byte_and_mask_iff: "(w :: 8 word) AND push_bit k 1 \<noteq> 0 \<longleftrightarrow> k < 8 \<and> bit w k"
  unfolding byte_nonzero_iff by (auto simp: bit_simps)

lemma bitSet_iff: "bitSet bm p \<longleftrightarrow> p div 8 < length bm \<and> bit (bm ! (p div 8)) (p mod 8)"
  unfolding bitSet_def byte_and_mask_iff by simp

lemma length_setBit [simp]: "length (setBit bm p v) = length bm"
  by (simp add: setBit_def Let_def)

lemma bitSet_setBit:
  assumes "p div 8 < length bm"
  shows "bitSet (setBit bm p v) q = (if q = p then v else bitSet bm q)"
proof (cases "q div 8 = p div 8")
  case True
  then have "q mod 8 = p mod 8 \<longleftrightarrow> q = p" by (metis mod_div_decomp)
  with True assms show ?thesis
    by (auto simp: bitSet_iff setBit_def Let_def bit_simps)
next
  case False
  then show ?thesis by (auto simp: bitSet_iff setBit_def Let_def)
qed

lemma bitSet_zero [simp]: "\<not> bitSet (replicate n 0) p"
  by (simp add: bitSet_iff)

lemma bitSet_bound: "bitSet bm p \<Longrightarrow> p < 8 * length bm"
  by (auto simp: bitSet_iff)

lemma anyBit_iff: "anyBit bm \<longleftrightarrow> (\<exists>p. bitSet bm p)"
proof
  assume "anyBit bm"
  then obtain i where i: "i < length bm" "bm ! i \<noteq> 0"
    by (auto simp: anyBit_def list_ex_iff in_set_conv_nth)
  then obtain k where k: "k < 8" "bit (bm ! i) k" by (auto simp: byte_nonzero_iff)
  have "(8 * i + k) div 8 = i" "(8 * i + k) mod 8 = k" using k by auto
  with i k show "\<exists>p. bitSet bm p" by (metis bitSet_iff)
next
  assume "\<exists>p. bitSet bm p"
  then obtain p where "p div 8 < length bm" "bit (bm ! (p div 8)) (p mod 8)"
    by (auto simp: bitSet_iff)
  then have "bm ! (p div 8) \<in> set bm" "bm ! (p div 8) \<noteq> 0" by auto
  then show "anyBit bm" by (auto simp: anyBit_def list_ex_iff)
qed

lemma bitmapBytes_covers: "p < n \<Longrightarrow> p div 8 < bitmapBytes n"
  by (simp add: bitmapBytes_def)

text \<open>Two bitmaps of one length are equal when they have the same bits.\<close>

lemma bitmap_eqI:
  assumes len: "length a = length b" and bits: "\<And>p. bitSet a p = bitSet b p"
  shows "a = b"
proof (rule nth_equalityI [OF len])
  fix i assume i: "i < length a"
  show "a ! i = b ! i"
  proof (rule bit_word_eqI)
    fix k assume "k < LENGTH(8)"
    then have "(8 * i + k) div 8 = i" "(8 * i + k) mod 8 = k" by auto
    with bits [of "8 * i + k"] i len show "bit (a ! i) k = bit (b ! i) k"
      by (simp add: bitSet_iff)
  qed
qed

text \<open>A bitmap for \<open>n\<close> Levels: the right number of bytes, and no bit beyond the Levels.\<close>

definition wf_bitmap :: "nat \<Rightarrow> bitmap \<Rightarrow> bool" where
  "wf_bitmap n bm \<longleftrightarrow> length bm = bitmapBytes n \<and> (\<forall>p. bitSet bm p \<longrightarrow> p < n)"

lemma wf_bitmap_zero [simp]: "wf_bitmap n (replicate (bitmapBytes n) 0)"
  by (simp add: wf_bitmap_def)

lemma wf_bitmap_bitSet_setBit:
  "wf_bitmap n bm \<Longrightarrow> p < n \<Longrightarrow> bitSet (setBit bm p v) q = (if q = p then v else bitSet bm q)"
  by (rule bitSet_setBit) (simp add: wf_bitmap_def bitmapBytes_covers)

lemma wf_bitmap_setBit [simp]: "wf_bitmap n bm \<Longrightarrow> p < n \<Longrightarrow> wf_bitmap n (setBit bm p v)"
  using wf_bitmap_bitSet_setBit [of n bm p v] by (auto simp: wf_bitmap_def split: if_splits)

lemma wf_bitmap_bound: "wf_bitmap n bm \<Longrightarrow> bitSet bm p \<Longrightarrow> p < n"
  by (simp add: wf_bitmap_def)

end
