(* ===== verification/Window.thy ===== *)
theory Window
  imports Bitmap
begin

text \<open>
  The runtime state window of \<open>state/window.go\<close> (with its records in \<open>state/codec.go\<close> and the
  digest decoder): the retained detection facts of one series, one point per source time, one
  bit per Level in each of two bitmaps.  Operations are translated function by function; a
  method that mutates the window returns the new one.  An error leaves the window as it was,
  because every error of \<open>Align\<close> and \<open>ApplyContext\<close> is returned before the first write.

  A \<open>HistoryView\<close> holds a pointer to the window in Go; here it holds the window itself, so a
  view is a snapshot.  \<open>sha256\<close> stands for the hash of package \<open>crypto/sha256\<close> and is an argument
  of the definitions that use it; no property depends on it.  The counters of the readers are
  bounded by the number of points in memory and are plain numbers.
\<close>

section \<open>Data\<close>

datatype LevelFactResult =
    LevelFactUnavailable | LevelFactNormal | LevelFactAnomalous | LevelFactError
  | LevelFactOther nat

datatype PointStatus = PointApplied | PointNoop | PointUnavailable | PointTerminal

datatype HistoryCompleteness = HistoryFull | HistoryWarming | HistoryGapped

record LevelRequirement =
  lr_LevelID :: nat
  lr_DetectFingerprint :: string
  lr_RequiredPoints :: nat
  lr_RetentionPoints :: nat
  lr_EvaluationInterval :: int
  lr_LatenessTolerance :: int

record PointLevelFact =
  pf_LevelID :: nat
  pf_DetectFingerprint :: string
  pf_Result :: LevelFactResult

record StatePoint =
  sp_RecordID :: string
  sp_SourceTime :: int
  sp_Levels :: "PointLevelFact list"

record PointResult =
  pr_RecordID :: string
  pr_SourceTime :: int
  pr_Status :: PointStatus
  pr_ReasonCode :: string
  pr_Late :: bool

type_synonym digest = "8 word list"

record levelState =
  ls_levelID :: nat
  ls_detectFingerprint :: digest

record pointState =
  ps_sourceTime :: int
  ps_recordDigest :: digest
  ps_valid :: bitmap
  ps_anomalous :: bitmap

record Window =
  w_levels :: "levelState list"
  w_points :: "pointState list"
  w_requirements :: "nat \<rightharpoonup> LevelRequirement"
  w_changed :: bool

record pointCandidate =
  pc_index :: nat
  pc_recordID :: string
  pc_sourceTime :: int
  pc_recordDigest :: digest
  pc_valid :: bitmap
  pc_anomalous :: bitmap
  pc_hasValid :: bool

record WindowSummary =
  ws_Completeness :: HistoryCompleteness
  ws_WindowStart :: int
  ws_WindowEnd :: int
  ws_ValidPositions :: nat
  ws_RequiredPositions :: nat
  ws_AnomalyCount :: nat
  ws_AnomalyDigest :: digest

record WindowHoles =
  wh_Missing :: "int list"
  wh_MissingTotal :: nat
  wh_Unusable :: "int list"
  wh_UnusableTotal :: nat

record HistoryView =
  hv_window :: Window
  hv_levelIndex :: nat
  hv_requirement :: LevelRequirement

datatype StateError =
    WindowRequired
  | LevelIDsNotPositiveUnique
  | LevelFingerprintInvalid nat
  | InvalidLevelRequirement nat
  | RetentionHorizonBudget nat
  | NilWindow
  | InvalidStatePointIdentity
  | DuplicateLevelFact nat
  | UnknownLevelFact nat
  | LevelFingerprintMismatch nat
  | InvalidFactResult nat

definition ReasonLateOutOfWindow :: string where
  "ReasonLateOutOfWindow = ''LATE_OUT_OF_WINDOW''"
definition ReasonRecordIdentityConflict :: string where
  "ReasonRecordIdentityConflict = ''RECORD_IDENTITY_CONFLICT''"

text \<open>\<open>time.Second\<close>, in nanoseconds; a \<open>time.Duration\<close> is a number of nanoseconds.\<close>

definition second :: int where "second = 1000000000"

definition zeroRequirement :: LevelRequirement where
  "zeroRequirement = \<lparr>lr_LevelID = 0, lr_DetectFingerprint = [], lr_RequiredPoints = 0,
     lr_RetentionPoints = 0, lr_EvaluationInterval = 0, lr_LatenessTolerance = 0\<rparr>"

text \<open>Reading a missing key of a Go map yields the zero value.\<close>

definition requirementOf :: "Window \<Rightarrow> nat \<Rightarrow> LevelRequirement" where
  "requirementOf w lid = (case w_requirements w lid of Some r \<Rightarrow> r | None \<Rightarrow> zeroRequirement)"

section \<open>Digests\<close>

definition isSHA256Hex :: "string \<Rightarrow> bool" where
  "isSHA256Hex value \<longleftrightarrow>
     length value = 64 \<and>
     list_all (\<lambda>c. \<not> ((c < CHR ''0'' \<or> c > CHR ''9'') \<and> (c < CHR ''a'' \<or> c > CHR ''f''))) value"

definition lowerHexNibble :: "char \<Rightarrow> 8 word" where
  "lowerHexNibble c =
     (if c \<le> CHR ''9'' then of_char c - of_char (CHR ''0'')
      else of_char c - of_char (CHR ''a'') + 10)"

definition decodeDigest32 :: "string \<Rightarrow> digest option" where
  "decodeDigest32 value =
     (if \<not> isSHA256Hex value then None
      else Some (map (\<lambda>i. push_bit 4 (lowerHexNibble (value ! (2 * i)))
                           OR lowerHexNibble (value ! (2 * i + 1))) [0..<32]))"

lemma hex_replicate:
  "isSHA256Hex (replicate 64 CHR ''a'')" "isSHA256Hex (replicate 64 CHR ''1'')"
  "isSHA256Hex (replicate 64 CHR ''2'')"
  unfolding isSHA256Hex_def list_all_iff by (simp_all add: less_char_def)

section \<open>Requirements and Align\<close>

definition intervalSeconds :: "LevelRequirement \<Rightarrow> int" where
  "intervalSeconds r = lr_EvaluationInterval r sdiv second"

text \<open>
  One round of the loop of \<open>normalizeRequirements\<close>: \<open>prev\<close> is the requirement before this one.
\<close>

definition checkRequirement :: "LevelRequirement option \<Rightarrow> LevelRequirement \<Rightarrow> StateError option" where
  "checkRequirement prev r =
     (if lr_LevelID r = 0 \<or> (case prev of None \<Rightarrow> False | Some p \<Rightarrow> lr_LevelID r = lr_LevelID p)
      then Some LevelIDsNotPositiveUnique
      else if decodeDigest32 (lr_DetectFingerprint r) = None
      then Some (LevelFingerprintInvalid (lr_LevelID r))
      else if lr_RequiredPoints r = 0 \<or> lr_RetentionPoints r < lr_RequiredPoints r
              \<or> lr_EvaluationInterval r \<le> 0 \<or> lr_EvaluationInterval r smod second \<noteq> 0
              \<or> lr_LatenessTolerance r < 0
      then Some (InvalidLevelRequirement (lr_LevelID r))
      else if int (u32_sub (lr_RetentionPoints r) 1) > maxInt64 sdiv intervalSeconds r
              \<or> i64 (int (u32_sub (lr_RetentionPoints r) 1) * intervalSeconds r)
                  > maxInt64 - lr_LatenessTolerance r sdiv second
      then Some (RetentionHorizonBudget (lr_LevelID r))
      else None)"

fun checkRequirements ::
  "LevelRequirement option \<Rightarrow> LevelRequirement list \<Rightarrow> (nat \<rightharpoonup> LevelRequirement)
     \<Rightarrow> StateError + (nat \<rightharpoonup> LevelRequirement)" where
  "checkRequirements prev [] byLevel = Inr byLevel"
| "checkRequirements prev (r # rs) byLevel =
     (case checkRequirement prev r of
        Some e \<Rightarrow> Inl e
      | None \<Rightarrow> checkRequirements (Some r) rs (byLevel(lr_LevelID r \<mapsto> r)))"

definition normalizeRequirements ::
  "LevelRequirement list \<Rightarrow> StateError + (LevelRequirement list \<times> (nat \<rightharpoonup> LevelRequirement))" where
  "normalizeRequirements requirements =
     (let normalized = sort_key lr_LevelID requirements
      in case checkRequirements None normalized Map.empty of
           Inl e \<Rightarrow> Inl e
         | Inr byLevel \<Rightarrow> Inr (normalized, byLevel))"

fun newLevelStates :: "LevelRequirement list \<Rightarrow> StateError + levelState list" where
  "newLevelStates [] = Inr []"
| "newLevelStates (r # rs) =
     (case decodeDigest32 (lr_DetectFingerprint r) of
        None \<Rightarrow> Inl (LevelFingerprintInvalid (lr_LevelID r))
      | Some fp \<Rightarrow>
          (case newLevelStates rs of
             Inl e \<Rightarrow> Inl e
           | Inr ls \<Rightarrow> Inr (\<lparr>ls_levelID = lr_LevelID r, ls_detectFingerprint = fp\<rparr> # ls)))"

definition indexLevels :: "levelState list \<Rightarrow> (nat \<rightharpoonup> nat)" where
  "indexLevels levels = indexBy ls_levelID 0 levels Map.empty"

definition sameLevelLayout :: "levelState list \<Rightarrow> levelState list \<Rightarrow> bool" where
  "sameLevelLayout left right \<longleftrightarrow>
     length left = length right \<and> list_all (\<lambda>i. left ! i = right ! i) [0..<length left]"

fun alignBits ::
  "levelState list \<Rightarrow> (nat \<rightharpoonup> nat) \<Rightarrow> pointState \<Rightarrow> nat \<Rightarrow> levelState list \<Rightarrow> bitmap \<times> bitmap
     \<Rightarrow> bitmap \<times> bitmap" where
  "alignBits old oldIndex point pos [] acc = acc"
| "alignBits old oldIndex point pos (l # ls) (v, a) =
     (case oldIndex (ls_levelID l) of
        None \<Rightarrow> alignBits old oldIndex point (Suc pos) ls (v, a)
      | Some oldPos \<Rightarrow>
          if ls_detectFingerprint (old ! oldPos) \<noteq> ls_detectFingerprint l
             \<or> \<not> bitSet (ps_valid point) oldPos
          then alignBits old oldIndex point (Suc pos) ls (v, a)
          else alignBits old oldIndex point (Suc pos) ls
                 (setBit v pos True, setBit a pos (bitSet (ps_anomalous point) oldPos)))"

definition alignPoint ::
  "levelState list \<Rightarrow> (nat \<rightharpoonup> nat) \<Rightarrow> levelState list \<Rightarrow> pointState \<Rightarrow> pointState" where
  "alignPoint old oldIndex newLevels point =
     (let zero = replicate (bitmapBytes (length newLevels)) 0;
          (v, a) = alignBits old oldIndex point 0 newLevels (zero, zero)
      in \<lparr>ps_sourceTime = ps_sourceTime point, ps_recordDigest = ps_recordDigest point,
          ps_valid = v, ps_anomalous = a\<rparr>)"

definition alignWindow :: "Window \<Rightarrow> LevelRequirement list \<Rightarrow> StateError + Window" where
  "alignWindow w requirements =
     (case normalizeRequirements requirements of
        Inl e \<Rightarrow> Inl e
      | Inr (normalized, byLevel) \<Rightarrow>
          (case newLevelStates normalized of
             Inl e \<Rightarrow> Inl e
           | Inr newLevels \<Rightarrow>
               if sameLevelLayout (w_levels w) newLevels
               then Inr (w\<lparr>w_requirements := byLevel\<rparr>)
               else
                 (let oldIndex = indexLevels (w_levels w);
                      newPoints = filter (\<lambda>p. anyBit (ps_valid p))
                                    (map (alignPoint (w_levels w) oldIndex newLevels) (w_points w))
                  in Inr \<lparr>w_levels = newLevels, w_points = newPoints,
                          w_requirements = byLevel, w_changed = True\<rparr>)))"

definition Align :: "Window option \<Rightarrow> LevelRequirement list \<Rightarrow> StateError + Window" where
  "Align window requirements =
     (case window of None \<Rightarrow> Inl WindowRequired | Some w \<Rightarrow> alignWindow w requirements)"

definition emptyWindow :: Window where
  "emptyWindow = \<lparr>w_levels = [], w_points = [], w_requirements = Map.empty, w_changed = False\<rparr>"

definition NewWindow :: "LevelRequirement list \<Rightarrow> StateError + Window" where
  "NewWindow requirements =
     (case Align (Some emptyWindow) requirements of
        Inl e \<Rightarrow> Inl e
      | Inr w \<Rightarrow> Inr (w\<lparr>w_changed := False\<rparr>))"

section \<open>Points\<close>

fun prepareFacts ::
  "Window \<Rightarrow> nat list \<Rightarrow> PointLevelFact list \<Rightarrow> bitmap \<times> bitmap \<times> bool
     \<Rightarrow> StateError + (bitmap \<times> bitmap \<times> bool)" where
  "prepareFacts w seen [] acc = Inr acc"
| "prepareFacts w seen (fct # fcts) (v, a, hasValid) =
     (if pf_LevelID fct \<in> set seen then Inl (DuplicateLevelFact (pf_LevelID fct))
      else
        (let position = search_key ls_levelID (w_levels w) (pf_LevelID fct);
             seen' = pf_LevelID fct # seen
         in if position = length (w_levels w)
               \<or> ls_levelID (w_levels w ! position) \<noteq> pf_LevelID fct
            then Inl (UnknownLevelFact (pf_LevelID fct))
            else if decodeDigest32 (pf_DetectFingerprint fct)
                      \<noteq> Some (ls_detectFingerprint (w_levels w ! position))
            then Inl (LevelFingerprintMismatch (pf_LevelID fct))
            else (case pf_Result fct of
                    LevelFactNormal \<Rightarrow> prepareFacts w seen' fcts (setBit v position True, a, True)
                  | LevelFactAnomalous \<Rightarrow>
                      prepareFacts w seen' fcts
                        (setBit v position True, setBit a position True, True)
                  | LevelFactUnavailable \<Rightarrow> prepareFacts w seen' fcts (v, a, hasValid)
                  | LevelFactError \<Rightarrow> prepareFacts w seen' fcts (v, a, hasValid)
                  | LevelFactOther _ \<Rightarrow> Inl (InvalidFactResult (pf_LevelID fct)))))"

definition preparePoint :: "Window \<Rightarrow> nat \<Rightarrow> StatePoint \<Rightarrow> StateError + pointCandidate" where
  "preparePoint w index point =
     (case decodeDigest32 (sp_RecordID point) of
        None \<Rightarrow> Inl InvalidStatePointIdentity
      | Some dg \<Rightarrow>
          if sp_SourceTime point < 0 then Inl InvalidStatePointIdentity
          else
            (let zero = replicate (bitmapBytes (length (w_levels w))) 0
             in case prepareFacts w [] (sp_Levels point) (zero, zero, False) of
                  Inl e \<Rightarrow> Inl e
                | Inr (v, a, hasValid) \<Rightarrow>
                    Inr \<lparr>pc_index = index, pc_recordID = sp_RecordID point,
                         pc_sourceTime = sp_SourceTime point, pc_recordDigest = take 16 dg,
                         pc_valid = v, pc_anomalous = a, pc_hasValid = hasValid\<rparr>))"

fun mergeBits :: "pointCandidate \<Rightarrow> nat list \<Rightarrow> bitmap \<times> bitmap \<times> bool \<Rightarrow> bitmap \<times> bitmap \<times> bool" where
  "mergeBits c [] acc = acc"
| "mergeBits c (bt # bts) (v, a, changed) =
     (if \<not> bitSet (pc_valid c) bt \<or> bitSet v bt then mergeBits c bts (v, a, changed)
      else mergeBits c bts
             (setBit v bt True, setBit a bt (bitSet (pc_anomalous c) bt), True))"

definition factsConflict :: "nat \<Rightarrow> pointCandidate \<Rightarrow> pointState \<Rightarrow> bool" where
  "factsConflict n c p =
     list_ex (\<lambda>bt. bitSet (pc_valid c) bt \<and> bitSet (ps_valid p) bt
                    \<and> bitSet (pc_anomalous c) bt \<noteq> bitSet (ps_anomalous p) bt) [0..<n]"

definition applyCandidate :: "Window \<Rightarrow> pointCandidate \<Rightarrow> PointStatus \<times> string \<times> Window" where
  "applyCandidate w c =
     (let position = search_key ps_sourceTime (w_points w) (pc_sourceTime c);
          n = length (w_levels w)
      in if position < length (w_points w)
            \<and> ps_sourceTime (w_points w ! position) = pc_sourceTime c
         then
           (let point = w_points w ! position
            in if ps_recordDigest point \<noteq> pc_recordDigest c
               then (PointTerminal, ReasonRecordIdentityConflict, w)
               else if factsConflict n c point
               then (PointTerminal, ReasonRecordIdentityConflict, w)
               else
                 (let (v, a, changed) =
                        mergeBits c [0..<n] (ps_valid point, ps_anomalous point, False)
                  in if \<not> changed then (PointNoop, [], w)
                     else (PointApplied, [],
                           w\<lparr>w_points := (w_points w)[position :=
                                point\<lparr>ps_valid := v, ps_anomalous := a\<rparr>],
                             w_changed := True\<rparr>)))
         else
           (PointApplied, [],
            w\<lparr>w_points := take position (w_points w)
                 @ [\<lparr>ps_sourceTime = pc_sourceTime c, ps_recordDigest = pc_recordDigest c,
                     ps_valid = pc_valid c, ps_anomalous = pc_anomalous c\<rparr>]
                 @ drop position (w_points w),
              w_changed := True\<rparr>))"

definition retentionCutoff :: "int \<Rightarrow> LevelRequirement \<Rightarrow> int" where
  "retentionCutoff latest r =
     (let horizon = i64 (i64 (int (u32_sub (lr_RetentionPoints r) 1) * intervalSeconds r)
                         + lr_LatenessTolerance r sdiv second)
      in if horizon \<ge> latest then 0 else i64 (latest - horizon))"

definition outOfRetention :: "Window \<Rightarrow> pointCandidate \<Rightarrow> int \<Rightarrow> bool" where
  "outOfRetention w c latest =
     (if pc_sourceTime c \<ge> latest then False
      else list_all (\<lambda>bt. \<not> (bitSet (pc_valid c) bt
              \<and> pc_sourceTime c \<ge> retentionCutoff latest (requirementOf w (ls_levelID (w_levels w ! bt)))))
             [0..<length (w_levels w)])"

fun pruneBits :: "Window \<Rightarrow> int \<Rightarrow> int \<Rightarrow> nat list \<Rightarrow> bitmap \<times> bitmap \<times> bool \<Rightarrow> bitmap \<times> bitmap \<times> bool" where
  "pruneBits w latest t [] acc = acc"
| "pruneBits w latest t (bt # bts) (v, a, changed) =
     (if \<not> bitSet v bt \<or> t \<ge> retentionCutoff latest (requirementOf w (ls_levelID (w_levels w ! bt)))
      then pruneBits w latest t bts (v, a, changed)
      else pruneBits w latest t bts (setBit v bt False, setBit a bt False, True))"

fun prunePoints :: "Window \<Rightarrow> int \<Rightarrow> pointState list \<Rightarrow> pointState list \<times> bool" where
  "prunePoints w latest [] = ([], False)"
| "prunePoints w latest (p # ps) =
     (let (v, a, changed) = pruneBits w latest (ps_sourceTime p) [0..<length (w_levels w)]
                              (ps_valid p, ps_anomalous p, False);
          (kept, changedRest) = prunePoints w latest ps
      in if anyBit v
         then (p\<lparr>ps_valid := v, ps_anomalous := a\<rparr> # kept, changed \<or> changedRest)
         else (kept, True))"

definition prune :: "Window \<Rightarrow> int \<Rightarrow> Window" where
  "prune w latest =
     (let (kept, changed) = prunePoints w latest (w_points w)
      in w\<lparr>w_points := kept, w_changed := w_changed w \<or> changed\<rparr>)"

definition latestSourceTime :: "Window \<Rightarrow> int option" where
  "latestSourceTime w =
     (if w_points w = [] then None else Some (ps_sourceTime (last (w_points w))))"

section \<open>ApplyContext\<close>

text \<open>
  The first loop of \<open>ApplyContext\<close>: one candidate and one provisional result per point, and
  the latest source time the window will hold.
\<close>

fun prepareAll ::
  "Window \<Rightarrow> int option \<Rightarrow> nat \<Rightarrow> StatePoint list \<Rightarrow> int option
     \<Rightarrow> StateError + (pointCandidate list \<times> PointResult list \<times> int option)" where
  "prepareAll w loaded index [] final = Inr ([], [], final)"
| "prepareAll w loaded index (point # points) final =
     (case preparePoint w index point of
        Inl e \<Rightarrow> Inl e
      | Inr c \<Rightarrow>
          (let result = \<lparr>pr_RecordID = sp_RecordID point, pr_SourceTime = sp_SourceTime point,
                         pr_Status = PointUnavailable, pr_ReasonCode = [],
                         pr_Late = (case loaded of None \<Rightarrow> False
                                    | Some latest \<Rightarrow> sp_SourceTime point < latest)\<rparr>;
               final' = (if pc_hasValid c
                            \<and> (case final of None \<Rightarrow> True | Some f \<Rightarrow> pc_sourceTime c > f)
                         then Some (pc_sourceTime c) else final)
           in case prepareAll w loaded (Suc index) points final' of
                Inl e \<Rightarrow> Inl e
              | Inr (cs, rs, f) \<Rightarrow> Inr (c # cs, result # rs, f)))"

fun applyOrdered ::
  "int \<Rightarrow> pointCandidate list \<Rightarrow> Window \<times> PointResult list \<Rightarrow> Window \<times> PointResult list" where
  "applyOrdered finalLatest [] (w, results) = (w, results)"
| "applyOrdered finalLatest (c # cs) (w, results) =
     (if outOfRetention w c finalLatest
      then applyOrdered finalLatest cs
             (w, results[pc_index c := (results ! pc_index c)
                   \<lparr>pr_Status := PointTerminal, pr_ReasonCode := ReasonLateOutOfWindow\<rparr>])
      else
        (let (status, reason, w') = applyCandidate w c
         in applyOrdered finalLatest cs
              (w', results[pc_index c := (results ! pc_index c)
                     \<lparr>pr_Status := status, pr_ReasonCode := reason\<rparr>])))"

definition applyWindow :: "Window \<Rightarrow> StatePoint list \<Rightarrow> StateError + (PointResult list \<times> Window)" where
  "applyWindow w points =
     (let loaded = latestSourceTime w
      in case prepareAll w loaded 0 points loaded of
           Inl e \<Rightarrow> Inl e
         | Inr (candidates, results, final) \<Rightarrow>
             (let order = sort_key pc_sourceTime (filter pc_hasValid candidates);
                  finalLatest = (case final of None \<Rightarrow> 0 | Some f \<Rightarrow> f);
                  (w', results') = applyOrdered finalLatest order (w, results)
              in case final of
                   None \<Rightarrow> Inr (results', w')
                 | Some f \<Rightarrow> Inr (results', prune w' f)))"

definition ApplyContext ::
  "Window option \<Rightarrow> StatePoint list \<Rightarrow> StateError + (PointResult list \<times> Window)" where
  "ApplyContext window points =
     (case window of None \<Rightarrow> Inl NilWindow | Some w \<Rightarrow> applyWindow w points)"

text \<open>\<open>Changed\<close> and \<open>MarkPersisted\<close>: the dirty flag around a save.\<close>

definition Changed :: "Window option \<Rightarrow> bool" where
  "Changed window = (case window of None \<Rightarrow> False | Some w \<Rightarrow> w_changed w)"

definition MarkPersisted :: "Window option \<Rightarrow> Window option" where
  "MarkPersisted window = (case window of None \<Rightarrow> None | Some w \<Rightarrow> Some (w\<lparr>w_changed := False\<rparr>))"

section \<open>Views\<close>

definition History :: "Window option \<Rightarrow> nat \<Rightarrow> HistoryView option" where
  "History window lid =
     (case window of
        None \<Rightarrow> None
      | Some w \<Rightarrow>
          (let position = search_key ls_levelID (w_levels w) lid
           in if position = length (w_levels w) \<or> ls_levelID (w_levels w ! position) \<noteq> lid
              then None
              else (case w_requirements w lid of
                      None \<Rightarrow> None
                    | Some r \<Rightarrow> Some \<lparr>hv_window = w, hv_levelIndex = position, hv_requirement = r\<rparr>)))"

definition pointAt :: "HistoryView \<Rightarrow> int \<Rightarrow> pointState option" where
  "pointAt view t =
     (let pts = w_points (hv_window view);
          position = search_key ps_sourceTime pts t
      in if position = length pts \<or> ps_sourceTime (pts ! position) \<noteq> t then None
         else Some (pts ! position))"

text \<open>
  \<open>ForEachAnomaly\<close> with the state its visitor closure captures made explicit: the visitor maps
  a source time and the state to the new state and whether to continue.
\<close>

fun forEachLoop ::
  "nat \<Rightarrow> int \<Rightarrow> pointState list \<Rightarrow> (int \<Rightarrow> 's \<Rightarrow> 's \<times> bool) \<Rightarrow> 's \<Rightarrow> 's" where
  "forEachLoop levelIndex untilTime [] visit s = s"
| "forEachLoop levelIndex untilTime (p # ps) visit s =
     (if ps_sourceTime p > untilTime then s
      else if bitSet (ps_valid p) levelIndex \<and> bitSet (ps_anomalous p) levelIndex
      then (let (s', continue) = visit (ps_sourceTime p) s
            in if continue then forEachLoop levelIndex untilTime ps visit s' else s')
      else forEachLoop levelIndex untilTime ps visit s)"

definition ForEachAnomaly ::
  "HistoryView \<Rightarrow> int \<Rightarrow> int \<Rightarrow> (int \<Rightarrow> 's \<Rightarrow> 's \<times> bool) \<Rightarrow> 's \<Rightarrow> 's" where
  "ForEachAnomaly view fromTime untilTime visit s =
     (if fromTime > untilTime then s
      else (let pts = w_points (hv_window view);
                start = search_key ps_sourceTime pts fromTime
            in forEachLoop (hv_levelIndex view) untilTime (drop start pts) visit s))"

definition CountAnomalies :: "HistoryView \<Rightarrow> int \<Rightarrow> int \<Rightarrow> nat" where
  "CountAnomalies view fromTime untilTime =
     ForEachAnomaly view fromTime untilTime (\<lambda>_ cnt. (cnt + 1, True)) 0"

definition FirstAnomaly :: "HistoryView \<Rightarrow> int \<Rightarrow> int \<Rightarrow> int \<times> bool" where
  "FirstAnomaly view fromTime untilTime =
     ForEachAnomaly view fromTime untilTime (\<lambda>t _. ((t, True), False)) (0, False)"

fun countObservedLoop :: "nat \<Rightarrow> int \<Rightarrow> pointState list \<Rightarrow> nat \<Rightarrow> nat" where
  "countObservedLoop levelIndex untilTime [] cnt = cnt"
| "countObservedLoop levelIndex untilTime (p # ps) cnt =
     (if ps_sourceTime p > untilTime then cnt
      else countObservedLoop levelIndex untilTime ps
             (if bitSet (ps_valid p) levelIndex then cnt + 1 else cnt))"

definition CountObserved :: "HistoryView \<Rightarrow> int \<Rightarrow> int \<Rightarrow> nat" where
  "CountObserved view fromTime untilTime =
     (if fromTime > untilTime then 0
      else (let pts = w_points (hv_window view);
                start = search_key ps_sourceTime pts fromTime
            in countObservedLoop (hv_levelIndex view) untilTime (drop start pts) 0))"

section \<open>Summaries\<close>

text \<open>\<open>binary.BigEndian.PutUint64\<close> of the source time.\<close>

definition bigEndian64 :: "int \<Rightarrow> 8 word list" where
  "bigEndian64 t = map (\<lambda>k. ucast (drop_bit (56 - 8 * k) (word_of_int t :: 64 word))) [0..<8]"

record walkState =
  wk_seenValid :: bool
  wk_missingBeforeFirst :: bool
  wk_gapAfterFirst :: bool
  wk_valid :: nat
  wk_anomalies :: nat
  wk_hashed :: "8 word list"
  wk_holes :: WindowHoles

definition noHoles :: WindowHoles where
  "noHoles = \<lparr>wh_Missing = [], wh_MissingTotal = 0, wh_Unusable = [], wh_UnusableTotal = 0\<rparr>"

definition walkInit :: walkState where
  "walkInit = \<lparr>wk_seenValid = False, wk_missingBeforeFirst = False, wk_gapAfterFirst = False,
     wk_valid = 0, wk_anomalies = 0, wk_hashed = [], wk_holes = noHoles\<rparr>"

text \<open>The body of the walk of \<open>SummarizeHolesContext\<close> at one expected position.\<close>

definition visitPosition :: "HistoryView \<Rightarrow> nat \<Rightarrow> int \<Rightarrow> walkState \<Rightarrow> walkState" where
  "visitPosition view limit expected s =
     (case pointAt view expected of
        Some p \<Rightarrow>
          (if bitSet (ps_valid p) (hv_levelIndex view)
           then (let s' = s\<lparr>wk_seenValid := True, wk_valid := wk_valid s + 1\<rparr>
                 in if bitSet (ps_anomalous p) (hv_levelIndex view)
                    then s'\<lparr>wk_anomalies := wk_anomalies s + 1,
                            wk_hashed := wk_hashed s @ bigEndian64 expected\<rparr>
                    else s')
           else
             (let h = wk_holes s;
                  s' = (if wk_seenValid s then s\<lparr>wk_gapAfterFirst := True\<rparr>
                        else s\<lparr>wk_missingBeforeFirst := True\<rparr>)
              in s'\<lparr>wk_holes := h\<lparr>wh_UnusableTotal := wh_UnusableTotal h + 1,
                       wh_Unusable := (if length (wh_Unusable h) < limit
                                       then wh_Unusable h @ [expected] else wh_Unusable h)\<rparr>\<rparr>))
      | None \<Rightarrow>
          (let h = wk_holes s;
               s' = (if wk_seenValid s then s\<lparr>wk_gapAfterFirst := True\<rparr>
                     else s\<lparr>wk_missingBeforeFirst := True\<rparr>)
           in s'\<lparr>wk_holes := h\<lparr>wh_MissingTotal := wh_MissingTotal h + 1,
                    wh_Missing := (if length (wh_Missing h) < limit
                                   then wh_Missing h @ [expected] else wh_Missing h)\<rparr>\<rparr>))"

text \<open>
  The loop \<open>for expected := start; ; expected += interval\<close> with its one exit
  \<open>expected == endTime\<close>.  Nothing in the loop bounds it, so it is given fuel, and \<open>None\<close> is
  running out of it; \<open>walkPositions_positions\<close> shows that the number of required positions is
  enough.
\<close>

fun walkPositions :: "nat \<Rightarrow> HistoryView \<Rightarrow> nat \<Rightarrow> int \<Rightarrow> int \<Rightarrow> int \<Rightarrow> walkState \<Rightarrow> walkState option" where
  "walkPositions 0 view limit interval endTime expected s = None"
| "walkPositions (Suc fuel) view limit interval endTime expected s =
     (let s' = visitPosition view limit expected s
      in if expected = endTime then Some s'
         else walkPositions fuel view limit interval endTime (i64 (expected + interval)) s')"

definition walkCompleteness :: "nat \<Rightarrow> walkState \<Rightarrow> HistoryCompleteness" where
  "walkCompleteness requiredPositions s =
     (if wk_gapAfterFirst s then HistoryGapped
      else if wk_missingBeforeFirst s \<or> wk_valid s < requiredPositions then HistoryWarming
      else HistoryFull)"

text \<open>
  \<open>SummarizeHolesContext\<close>: \<open>None\<close> is a walk that does not end.  The two refusals return the
  WARMING summary and no holes.
\<close>

definition SummarizeHoles ::
  "(8 word list \<Rightarrow> digest) \<Rightarrow> HistoryView \<Rightarrow> int \<Rightarrow> nat \<Rightarrow> nat \<Rightarrow> (WindowSummary \<times> WindowHoles) option" where
  "SummarizeHoles sha256 view endTime requested limit =
     (let requiredPositions = (if requested = 0 then lr_RequiredPoints (hv_requirement view)
                               else requested);
          interval = intervalSeconds (hv_requirement view);
          summary = \<lparr>ws_Completeness = HistoryWarming, ws_WindowStart = 0, ws_WindowEnd = endTime,
                     ws_ValidPositions = 0, ws_RequiredPositions = requiredPositions,
                     ws_AnomalyCount = 0, ws_AnomalyDigest = replicate 32 0\<rparr>
      in if requiredPositions = 0 \<or> requiredPositions > lr_RetentionPoints (hv_requirement view)
            \<or> interval \<le> 0 \<or> endTime < 0
            \<or> int (u32_sub requiredPositions 1) > maxInt64 sdiv interval
         then Some (summary, noHoles)
         else
           (let offset = i64 (int (u32_sub requiredPositions 1) * interval)
            in if offset > endTime then Some (summary, noHoles)
               else
                 (case walkPositions requiredPositions view limit interval endTime
                         (i64 (endTime - offset)) walkInit of
                    None \<Rightarrow> None
                  | Some s \<Rightarrow>
                      Some (\<lparr>ws_Completeness = walkCompleteness requiredPositions s,
                             ws_WindowStart = i64 (endTime - offset), ws_WindowEnd = endTime,
                             ws_ValidPositions = wk_valid s,
                             ws_RequiredPositions = requiredPositions,
                             ws_AnomalyCount = wk_anomalies s,
                             ws_AnomalyDigest = sha256 (wk_hashed s)\<rparr>, wk_holes s))))"

definition Summarize :: "(8 word list \<Rightarrow> digest) \<Rightarrow> HistoryView \<Rightarrow> int \<Rightarrow> nat \<Rightarrow> WindowSummary option" where
  "Summarize sha256 view endTime requested =
     map_option fst (SummarizeHoles sha256 view endTime requested 0)"

end
