(* ===== verification/Window_Correct.thy ===== *)
theory Window_Correct
  imports Window
begin

text \<open>
  Correctness of the runtime state window.  The invariant \<open>wf_window\<close> (strictly sorted Levels
  and points, bitmaps of the right shape, an anomalous bit only where there is a valid one, a
  valid requirement for every Level) is kept by \<open>Align\<close> and \<open>ApplyContext\<close>.  The abstract
  state of a window is \<open>windowFact\<close>: for a Level and a source time, whether a fact is held and
  whether it is anomalous; the operations are shown to implement the obvious operations on it.
\<close>

section \<open>Invariant and abstraction\<close>

definition wf_bits :: "nat \<Rightarrow> bitmap \<Rightarrow> bitmap \<Rightarrow> bool" where
  "wf_bits n v a \<longleftrightarrow> wf_bitmap n v \<and> wf_bitmap n a \<and> (\<forall>b. bitSet a b \<longrightarrow> bitSet v b)"

definition wf_point :: "nat \<Rightarrow> pointState \<Rightarrow> bool" where
  "wf_point n p \<longleftrightarrow> wf_bits n (ps_valid p) (ps_anomalous p) \<and> anyBit (ps_valid p)"

definition wf_layout :: "Window \<Rightarrow> bool" where
  "wf_layout w \<longleftrightarrow> ssorted_by ls_levelID (w_levels w) \<and> ssorted_by ps_sourceTime (w_points w)
     \<and> (\<forall>p \<in> set (w_points w). wf_point (length (w_levels w)) p)"

definition valid_requirement :: "LevelRequirement \<Rightarrow> bool" where
  "valid_requirement r \<longleftrightarrow> checkRequirement None r = None"

definition wf_window :: "Window \<Rightarrow> bool" where
  "wf_window w \<longleftrightarrow> wf_layout w
     \<and> (\<forall>l \<in> set (w_levels w). \<exists>r. w_requirements w (ls_levelID l) = Some r
           \<and> lr_LevelID r = ls_levelID l \<and> valid_requirement r)"

text \<open>The facts two bitmaps stand for.\<close>

definition bit_fact :: "bitmap \<Rightarrow> bitmap \<Rightarrow> nat \<Rightarrow> bool option" where
  "bit_fact v a b = (if bitSet v b then Some (bitSet a b) else None)"

definition levelPos :: "levelState list \<Rightarrow> nat \<Rightarrow> nat option" where
  "levelPos levels lid = map_of (zip (map ls_levelID levels) [0..<length levels]) lid"

definition pointFact :: "Window \<Rightarrow> nat \<Rightarrow> int \<Rightarrow> bool option" where
  "pointFact w b t = (case key_map ps_sourceTime (w_points w) t of
     None \<Rightarrow> None | Some p \<Rightarrow> bit_fact (ps_valid p) (ps_anomalous p) b)"

definition windowFact :: "Window \<Rightarrow> nat \<Rightarrow> int \<Rightarrow> bool option" where
  "windowFact w lid t = (case levelPos (w_levels w) lid of
     None \<Rightarrow> None | Some b \<Rightarrow> pointFact w b t)"

definition wf_candidate :: "nat \<Rightarrow> pointCandidate \<Rightarrow> bool" where
  "wf_candidate n c \<longleftrightarrow> wf_bits n (pc_valid c) (pc_anomalous c)
     \<and> (pc_hasValid c \<longleftrightarrow> anyBit (pc_valid c))"

abbreviation candFact :: "pointCandidate \<Rightarrow> nat \<Rightarrow> bool option" where
  "candFact c b \<equiv> bit_fact (pc_valid c) (pc_anomalous c) b"

lemma wf_layoutD:
  assumes "wf_layout w"
  shows "ssorted_by ls_levelID (w_levels w)" "ssorted_by ps_sourceTime (w_points w)"
    "p \<in> set (w_points w) \<Longrightarrow> wf_point (length (w_levels w)) p"
  using assms by (auto simp: wf_layout_def)

lemma wf_window_layout: "wf_window w \<Longrightarrow> wf_layout w"
  by (simp add: wf_window_def)

lemma wf_bits_bound: "wf_bits n v a \<Longrightarrow> bit_fact v a b \<noteq> None \<Longrightarrow> b < n"
  by (auto simp: wf_bits_def bit_fact_def wf_bitmap_bound split: if_splits)

lemma bit_fact_ext:
  assumes "wf_bits n v a" "wf_bits n v' a'" "\<And>b. bit_fact v a b = bit_fact v' a' b"
  shows "v = v' \<and> a = a'"
proof -
  have eqs: "bitSet v b = bitSet v' b" "bitSet a b = bitSet a' b" for b
    using assms(1,2) assms(3) [of b] by (auto simp: bit_fact_def wf_bits_def split: if_splits)
  with assms(1,2) show ?thesis
    by (auto simp: wf_bits_def wf_bitmap_def intro!: bitmap_eqI)
qed

lemma levelPos_Some_iff:
  assumes "ssorted_by ls_levelID levels"
  shows "levelPos levels lid = Some b \<longleftrightarrow> b < length levels \<and> ls_levelID (levels ! b) = lid"
proof -
  have "distinct (map ls_levelID levels)" using assms by (rule ssorted_distinct)
  then have "distinct (map fst (zip (map ls_levelID levels) [0..<length levels]))" by simp
  then show ?thesis
    unfolding levelPos_def by (subst map_of_eq_Some_iff) (auto simp: in_set_zip intro!: exI [of _ b])
qed

section \<open>The bit loops\<close>

lemma mergeBits_spec:
  assumes "mergeBits c bts (v, a, ch) = (v', a', ch')"
    and "wf_bits n v a" and "wf_bits n (pc_valid c) (pc_anomalous c)" and "set bts \<subseteq> {..<n}"
  shows "wf_bits n v' a'
    \<and> (\<forall>b. bit_fact v' a' b = (if bitSet v b then bit_fact v a b
             else if b \<in> set bts then candFact c b else None))
    \<and> (ch' \<longleftrightarrow> ch \<or> (\<exists>b \<in> set bts. bitSet (pc_valid c) b \<and> \<not> bitSet v b))"
  using assms
proof (induction bts arbitrary: v a ch)
  case Nil
  then show ?case by (auto simp: bit_fact_def)
next
  case (Cons bt bts)
  show ?case
  proof (cases "\<not> bitSet (pc_valid c) bt \<or> bitSet v bt")
    case True
    with Cons.prems have "mergeBits c bts (v, a, ch) = (v', a', ch')" by simp
    from Cons.IH [OF this] Cons.prems True show ?thesis by (auto simp: bit_fact_def)
  next
    case False
    let ?v = "setBit v bt True" and ?a = "setBit a bt (bitSet (pc_anomalous c) bt)"
    have bt: "bt < n" using Cons.prems by auto
    have bm: "wf_bitmap n v" "wf_bitmap n a" using Cons.prems(2) by (auto simp: wf_bits_def)
    have sb: "bitSet ?v q = (q = bt \<or> bitSet v q)"
      "bitSet ?a q = (if q = bt then bitSet (pc_anomalous c) bt else bitSet a q)" for q
      by (simp_all add: wf_bitmap_bitSet_setBit [OF bm(1) bt] wf_bitmap_bitSet_setBit [OF bm(2) bt])
    have wf: "wf_bits n ?v ?a" using Cons.prems bt sb by (auto simp: wf_bits_def)
    from Cons.prems False have "mergeBits c bts (?v, ?a, True) = (v', a', ch')" by simp
    from Cons.IH [OF this wf] Cons.prems False show ?thesis
      by (auto simp: bit_fact_def sb)
  qed
qed

lemma pruneBits_spec:
  assumes "pruneBits w latest t bts (v, a, ch) = (v', a', ch')"
    and "wf_bits n v a" and "set bts \<subseteq> {..<n}"
  defines "keep \<equiv> \<lambda>b. t \<ge> retentionCutoff latest (requirementOf w (ls_levelID (w_levels w ! b)))"
  shows "wf_bits n v' a'
    \<and> (\<forall>b. bit_fact v' a' b = (if b \<in> set bts \<and> \<not> keep b then None else bit_fact v a b))
    \<and> (ch' \<longleftrightarrow> ch \<or> (\<exists>b \<in> set bts. bitSet v b \<and> \<not> keep b))"
  using assms(1-3)
proof (induction bts arbitrary: v a ch)
  case Nil
  then show ?case by simp
next
  case (Cons bt bts)
  show ?case
  proof (cases "\<not> bitSet v bt \<or> keep bt")
    case True
    with Cons.prems have "pruneBits w latest t bts (v, a, ch) = (v', a', ch')"
      by (auto simp: keep_def)
    from Cons.IH [OF this] Cons.prems True show ?thesis by (auto simp: bit_fact_def)
  next
    case False
    let ?v = "setBit v bt False" and ?a = "setBit a bt False"
    have bt: "bt < n" using Cons.prems by auto
    have bm: "wf_bitmap n v" "wf_bitmap n a" using Cons.prems(2) by (auto simp: wf_bits_def)
    have sb: "bitSet ?v q = (q \<noteq> bt \<and> bitSet v q)" "bitSet ?a q = (q \<noteq> bt \<and> bitSet a q)" for q
      by (simp_all add: wf_bitmap_bitSet_setBit [OF bm(1) bt] wf_bitmap_bitSet_setBit [OF bm(2) bt])
    have wf: "wf_bits n ?v ?a" using Cons.prems bt sb by (auto simp: wf_bits_def)
    from Cons.prems False have "pruneBits w latest t bts (?v, ?a, True) = (v', a', ch')"
      by (auto simp: keep_def)
    from Cons.IH [OF this wf] Cons.prems False show ?thesis
      by (auto simp: bit_fact_def sb)
  qed
qed

section \<open>Applying one candidate\<close>

text \<open>
  The specification of one candidate against the facts held at its source time: a different
  record, or a Level where both have a fact and they differ, is a conflict; otherwise the facts
  are united.
\<close>

definition conflicts :: "Window \<Rightarrow> pointCandidate \<Rightarrow> bool" where
  "conflicts w c \<longleftrightarrow> (\<exists>p. key_map ps_sourceTime (w_points w) (pc_sourceTime c) = Some p
     \<and> (ps_recordDigest p \<noteq> pc_recordDigest c
        \<or> (\<exists>b x y. candFact c b = Some x \<and> pointFact w b (pc_sourceTime c) = Some y \<and> x \<noteq> y)))"

definition mergeFact :: "bool option \<Rightarrow> bool option \<Rightarrow> bool option" where
  "mergeFact old new = (case old of None \<Rightarrow> new | Some x \<Rightarrow> Some x)"

lemma factsConflict_iff:
  assumes "wf_bits n (pc_valid c) (pc_anomalous c)"
  shows "factsConflict n c p \<longleftrightarrow>
    (\<exists>b x y. candFact c b = Some x \<and> bit_fact (ps_valid p) (ps_anomalous p) b = Some y \<and> x \<noteq> y)"
proof -
  have "bitSet (pc_valid c) b \<Longrightarrow> b < n" for b
    using assms by (auto simp: wf_bits_def wf_bitmap_bound)
  then show ?thesis by (auto simp: factsConflict_def list_ex_iff bit_fact_def split: if_splits)
qed

text \<open>The three shapes an application takes.\<close>

lemma applyCandidate_cases:
  assumes wf: "wf_layout w" and c: "wf_candidate (length (w_levels w)) c"
  obtains (conflict) "conflicts w c"
      "applyCandidate w c = (PointTerminal, ReasonRecordIdentityConflict, w)"
  | (noop) p where "\<not> conflicts w c"
      "key_map ps_sourceTime (w_points w) (pc_sourceTime c) = Some p"
      "\<forall>b. candFact c b \<noteq> None \<longrightarrow> bitSet (ps_valid p) b"
      "applyCandidate w c = (PointNoop, [], w)"
  | (merge) p i v a where "\<not> conflicts w c"
      "key_map ps_sourceTime (w_points w) (pc_sourceTime c) = Some p"
      "i < length (w_points w)" "w_points w ! i = p" "ps_sourceTime p = pc_sourceTime c"
      "wf_bits (length (w_levels w)) v a"
      "\<forall>b. bit_fact v a b = mergeFact (bit_fact (ps_valid p) (ps_anomalous p) b) (candFact c b)"
      "\<exists>b. candFact c b \<noteq> None \<and> \<not> bitSet (ps_valid p) b"
      "applyCandidate w c = (PointApplied, [], w\<lparr>w_points :=
          (w_points w)[i := p\<lparr>ps_valid := v, ps_anomalous := a\<rparr>], w_changed := True\<rparr>)"
  | (insert) q i where "\<not> conflicts w c"
      "key_map ps_sourceTime (w_points w) (pc_sourceTime c) = None"
      "i = search_key ps_sourceTime (w_points w) (pc_sourceTime c)"
      "q = \<lparr>ps_sourceTime = pc_sourceTime c, ps_recordDigest = pc_recordDigest c,
            ps_valid = pc_valid c, ps_anomalous = pc_anomalous c\<rparr>"
      "applyCandidate w c = (PointApplied, [], w\<lparr>w_points :=
          take i (w_points w) @ [q] @ drop i (w_points w), w_changed := True\<rparr>)"
proof (cases "key_map ps_sourceTime (w_points w) (pc_sourceTime c)")
  case None
  from search_key_miss [OF wf_layoutD(2) [OF wf] None] None show ?thesis
    by (intro insert) (auto simp: applyCandidate_def conflicts_def Let_def)
next
  case (Some p)
  let ?n = "length (w_levels w)"
  let ?i = "search_key ps_sourceTime (w_points w) (pc_sourceTime c)"
  note srt = wf_layoutD(2) [OF wf]
  note at = search_key_nth [OF srt Some]
  have p: "p \<in> set (w_points w)" "ps_sourceTime p = pc_sourceTime c"
    using Some by (auto simp: key_map_Some_iff [OF srt])
  have bits: "wf_bits ?n (ps_valid p) (ps_anomalous p)"
    using wf_layoutD(3) [OF wf p(1)] by (simp add: wf_point_def)
  have cbits: "wf_bits ?n (pc_valid c) (pc_anomalous c)" using c by (simp add: wf_candidate_def)
  have conf: "conflicts w c \<longleftrightarrow> ps_recordDigest p \<noteq> pc_recordDigest c \<or> factsConflict ?n c p"
    using Some by (auto simp: conflicts_def pointFact_def factsConflict_iff [OF cbits])
  show ?thesis
  proof (cases "conflicts w c")
    case True
    with at p conf show ?thesis
      by (intro conflict) (auto simp: applyCandidate_def Let_def)
  next
    case False
    obtain v a ch where m: "mergeBits c [0..<?n] (ps_valid p, ps_anomalous p, False) = (v, a, ch)"
      by (metis prod_cases3)
    have cb: "bitSet (pc_valid c) b \<Longrightarrow> b < ?n" for b
      using cbits by (auto simp: wf_bits_def wf_bitmap_bound)
    have "set [0..<?n] \<subseteq> {..<?n}" by auto
    note ms = mergeBits_spec [OF m bits cbits this]
    from ms have wfva: "wf_bits ?n v a"
 by blast
    have facts: "\<forall>b. bit_fact v a b = mergeFact (bit_fact (ps_valid p) (ps_anomalous p) b) (candFact c b)"
    proof
      fix b
      have "bit_fact v a b = (if bitSet (ps_valid p) b then bit_fact (ps_valid p) (ps_anomalous p) b
          else if b \<in> set [0..<?n] then candFact c b else None)" using ms by blast
      with cb [of b]
      show "bit_fact v a b = mergeFact (bit_fact (ps_valid p) (ps_anomalous p) b) (candFact c b)"
        by (simp add: mergeFact_def bit_fact_def)
    qed
    have chg: "ch \<longleftrightarrow> (\<exists>b. candFact c b \<noteq> None \<and> \<not> bitSet (ps_valid p) b)"
      using conjunct2 [OF conjunct2 [OF ms]] cb by (auto simp: bit_fact_def split: if_splits)
    have app: "applyCandidate w c =
        (if \<not> ch then (PointNoop, [], w)
         else (PointApplied, [], w\<lparr>w_points :=
             (w_points w)[?i := p\<lparr>ps_valid := v, ps_anomalous := a\<rparr>], w_changed := True\<rparr>))"
      using False at p conf m by (simp add: applyCandidate_def Let_def)
    show ?thesis
    proof (cases ch)
      case True
      with app have "applyCandidate w c = (PointApplied, [], w\<lparr>w_points :=
          (w_points w)[?i := p\<lparr>ps_valid := v, ps_anomalous := a\<rparr>], w_changed := True\<rparr>)" by simp
      with False Some at p wfva facts chg True show ?thesis by (intro merge [of p ?i v a]) blast+
    next
      case nch: False
      with app have ap: "applyCandidate w c = (PointNoop, [], w)" by simp
      from nch chg have "\<forall>b. candFact c b \<noteq> None \<longrightarrow> bitSet (ps_valid p) b" by blast
      from noop [OF False Some this ap] show ?thesis .
    qed
  qed
qed

lemma applyCandidate_levels:
  "applyCandidate w c = (st, r, w') \<Longrightarrow> w_levels w' = w_levels w \<and> w_requirements w' = w_requirements w"
  by (auto simp: applyCandidate_def Let_def split: if_splits prod.splits)

lemma wf_layout_points:
  "wf_layout w \<Longrightarrow> ssorted_by ps_sourceTime ps \<Longrightarrow> (\<And>p. p \<in> set ps \<Longrightarrow> wf_point (length (w_levels w)) p)
     \<Longrightarrow> wf_layout (w\<lparr>w_points := ps, w_changed := ch\<rparr>)"
  by (simp add: wf_layout_def)

lemma applyCandidate_wf:
  assumes wf: "wf_layout w" and c: "wf_candidate (length (w_levels w)) c" and hv: "pc_hasValid c"
    and ap: "applyCandidate w c = (st, r, w')"
  shows "wf_layout w'"
  using wf c
proof (cases rule: applyCandidate_cases)
  case (merge p i v a)
  let ?q = "p\<lparr>ps_valid := v, ps_anomalous := a\<rparr>"
  have "p \<in> set (w_points w)" using merge(3,4) by auto
  then obtain b where "bitSet (ps_valid p) b"
    using wf_layoutD(3) [OF wf] by (auto simp: wf_point_def anyBit_iff)
  then have "bit_fact v a b \<noteq> None" using merge(7) by (auto simp: mergeFact_def bit_fact_def)
  then have "anyBit v" by (auto simp: anyBit_iff bit_fact_def split: if_splits)
  then have q: "wf_point (length (w_levels w)) ?q" using merge(6) by (simp add: wf_point_def)
  have w': "w' = w\<lparr>w_points := (w_points w)[i := ?q], w_changed := True\<rparr>"
    using ap merge(9) by simp
  show ?thesis unfolding w'
  proof (rule wf_layout_points [OF wf])
    show "ssorted_by ps_sourceTime ((w_points w)[i := ?q])"
      using merge(3,4) by (intro ssorted_list_update [OF wf_layoutD(2) [OF wf]]) simp_all
    fix x assume "x \<in> set ((w_points w)[i := ?q])"
    then have "x = ?q \<or> x \<in> set (w_points w)" by (meson insert_iff set_update_subset_insert subsetD)
    with q wf_layoutD(3) [OF wf] show "wf_point (length (w_levels w)) x" by blast
  qed
next
  case (insert q i)
  have q: "wf_point (length (w_levels w)) q"
    using insert(4) c hv by (simp add: wf_point_def wf_candidate_def)
  have w': "w' = w\<lparr>w_points := take i (w_points w) @ [q] @ drop i (w_points w), w_changed := True\<rparr>"
    using ap insert(5) by simp
  show ?thesis unfolding w'
  proof (rule wf_layout_points [OF wf])
    show "ssorted_by ps_sourceTime (take i (w_points w) @ [q] @ drop i (w_points w))"
      unfolding insert(3)
      by (intro insert_at_search(1) [OF wf_layoutD(2) [OF wf] _ insert(2)]) (simp add: insert(4))
    fix x assume "x \<in> set (take i (w_points w) @ [q] @ drop i (w_points w))"
    then have "x = q \<or> x \<in> set (w_points w)" by (auto dest: in_set_takeD in_set_dropD)
    with q wf_layoutD(3) [OF wf] show "wf_point (length (w_levels w)) x" by blast
  qed
qed (use ap wf in simp_all)

text \<open>
  What an application does to the facts: nothing on a conflict, and otherwise the union at the
  candidate's source time and nothing elsewhere.
\<close>

lemma applyCandidate_facts:
  assumes wf: "wf_layout w" and c: "wf_candidate (length (w_levels w)) c"
    and ap: "applyCandidate w c = (st, r, w')"
  shows "pointFact w' b t =
    (if \<not> conflicts w c \<and> t = pc_sourceTime c then mergeFact (pointFact w b t) (candFact c b)
     else pointFact w b t)"
  using wf c
proof (cases rule: applyCandidate_cases)
  case (noop p)
  have "mergeFact (pointFact w b (pc_sourceTime c)) (candFact c b) = pointFact w b (pc_sourceTime c)"
    using noop(2,3) by (auto simp: pointFact_def mergeFact_def bit_fact_def)
  with noop(4) ap show ?thesis by simp
next
  case (merge p i v a)
  let ?q = "p\<lparr>ps_valid := v, ps_anomalous := a\<rparr>"
  have "key_map ps_sourceTime ((w_points w)[i := ?q])
      = (key_map ps_sourceTime (w_points w))(pc_sourceTime c \<mapsto> ?q)"
    using merge(3-5) key_map_list_update [OF wf_layoutD(2) [OF wf], of i ?q] by simp
  moreover have "w_points w' = (w_points w)[i := ?q]" using ap merge(9) by auto
  ultimately show ?thesis using merge(1,2,7) by (simp add: pointFact_def)
next
  case (insert q i)
  have "key_map ps_sourceTime (take i (w_points w) @ [q] @ drop i (w_points w))
      = (key_map ps_sourceTime (w_points w))(pc_sourceTime c \<mapsto> q)"
    unfolding insert(3)
    by (intro insert_at_search(2) [OF wf_layoutD(2) [OF wf] _ insert(2)]) (simp add: insert(4))
  moreover have "w_points w' = take i (w_points w) @ [q] @ drop i (w_points w)"
    using ap insert(5) by auto
  ultimately show ?thesis using insert(1,2,4) by (simp add: pointFact_def mergeFact_def)
qed (use ap in simp_all)

text \<open>An application never changes a fact that is held, and records the candidate unless it conflicts.\<close>

lemma applyCandidate_keeps:
  assumes "wf_layout w" "wf_candidate (length (w_levels w)) c" "applyCandidate w c = (st, r, w')"
    and "pointFact w b t = Some x"
  shows "pointFact w' b t = Some x"
  unfolding applyCandidate_facts [OF assms(1-3)] using assms(4) by (auto simp: mergeFact_def)

lemma applyCandidate_sound:
  assumes "wf_layout w" "wf_candidate (length (w_levels w)) c" "applyCandidate w c = (st, r, w')"
    and "pointFact w' b t = Some x"
  shows "pointFact w b t = Some x \<or> (t = pc_sourceTime c \<and> candFact c b = Some x)"
  using applyCandidate_facts [OF assms(1-3), of b t] assms(4)
  by (auto simp: mergeFact_def split: if_splits option.splits)

lemma conflicts_statusD:
  assumes "wf_layout w" "wf_candidate (length (w_levels w)) c" "applyCandidate w c = (st, r, w')"
  shows "conflicts w c \<longleftrightarrow> st = PointTerminal"
  using assms(1,2) by (cases rule: applyCandidate_cases) (use assms(3) in auto)

lemma applyCandidate_records:
  assumes wf: "wf_layout w" "wf_candidate (length (w_levels w)) c"
    and ap: "applyCandidate w c = (st, r, w')" and st: "st \<noteq> PointTerminal"
    and cf: "candFact c b = Some x"
  shows "pointFact w' b (pc_sourceTime c) = Some x"
proof -
  have nc: "\<not> conflicts w c" using conflicts_statusD [OF wf ap] st by simp
  show ?thesis
  proof (cases "pointFact w b (pc_sourceTime c)")
    case None
    with nc cf show ?thesis by (simp add: applyCandidate_facts [OF wf ap] mergeFact_def)
  next
    case (Some y)
    then obtain p where "key_map ps_sourceTime (w_points w) (pc_sourceTime c) = Some p"
      by (auto simp: pointFact_def split: option.splits)
    with nc cf Some have "x = y" by (auto simp: conflicts_def)
    with nc Some show ?thesis by (simp add: applyCandidate_facts [OF wf ap] mergeFact_def)
  qed
qed

lemma applyCandidate_status: "applyCandidate w c = (st, r, w') \<Longrightarrow> st \<noteq> PointUnavailable"
  by (auto simp: applyCandidate_def Let_def split: if_splits prod.splits)

section \<open>Applying a batch\<close>

lemma applyOrdered_results_length:
  "applyOrdered f cs (w, res) = (w', res') \<Longrightarrow> length res' = length res"
  by (induction f cs "(w, res)" arbitrary: w res rule: applyOrdered.induct)
    (auto simp: Let_def split: if_splits prod.splits)

lemma applyOrdered_frame:
  assumes "applyOrdered f cs (w, res) = (w', res')" and "i \<notin> pc_index ` set cs"
  shows "res' ! i = res ! i"
  using assms
proof (induction cs arbitrary: w res)
  case (Cons c cs)
  obtain st r w1 where ap: "applyCandidate w c = (st, r, w1)" by (metis prod_cases3)
  from Cons.prems ap Cons.IH show ?case by (auto split: if_splits)
qed simp

lemma applyOrdered_spec:
  assumes "applyOrdered f cs (w, res) = (w', res')" and "wf_layout w"
    and "\<forall>c \<in> set cs. wf_candidate (length (w_levels w)) c \<and> pc_hasValid c"
  shows "wf_layout w' \<and> w_levels w' = w_levels w \<and> w_requirements w' = w_requirements w
    \<and> (\<forall>b t x. pointFact w b t = Some x \<longrightarrow> pointFact w' b t = Some x)
    \<and> (\<forall>b t x. pointFact w' b t = Some x \<longrightarrow> pointFact w b t = Some x
          \<or> (\<exists>c \<in> set cs. pc_sourceTime c = t \<and> candFact c b = Some x))"
  using assms
proof (induction cs arbitrary: w res)
  case (Cons c cs)
  show ?case
  proof (cases "outOfRetention w c f")
    case True
    with Cons.prems(1) obtain res1 where "applyOrdered f cs (w, res1) = (w', res')" by auto
    from Cons.IH [OF this Cons.prems(2)] Cons.prems(3) show ?thesis by fastforce
  next
    case False
    obtain st r w1 where ap: "applyCandidate w c = (st, r, w1)" by (metis prod_cases3)
    have c: "wf_candidate (length (w_levels w)) c" "pc_hasValid c" using Cons.prems by auto
    note w1 = applyCandidate_wf [OF Cons.prems(2) c ap] applyCandidate_levels [OF ap]
    from False ap Cons.prems(1) obtain res1 where
      rest: "applyOrdered f cs (w1, res1) = (w', res')" by auto
    from Cons.IH [OF rest w1(1)] w1 Cons.prems(3)
    have ih: "wf_layout w'" "w_levels w' = w_levels w" "w_requirements w' = w_requirements w"
      "\<forall>b t x. pointFact w1 b t = Some x \<longrightarrow> pointFact w' b t = Some x"
      "\<forall>b t x. pointFact w' b t = Some x \<longrightarrow> pointFact w1 b t = Some x
          \<or> (\<exists>c \<in> set cs. pc_sourceTime c = t \<and> candFact c b = Some x)"
      by auto
    show ?thesis
      using ih applyCandidate_keeps [OF Cons.prems(2) c(1) ap]
        applyCandidate_sound [OF Cons.prems(2) c(1) ap]
      by (intro conjI) (simp_all, blast+)
  qed
qed simp

text \<open>
  A candidate reported APPLIED or NOOP has its facts in the window afterwards, and a candidate
  in the order is never reported UNAVAILABLE.
\<close>

lemma applyOrdered_status:
  assumes "applyOrdered f cs (w, res) = (w', res')" and "wf_layout w"
    and "\<forall>c \<in> set cs. wf_candidate (length (w_levels w)) c \<and> pc_hasValid c \<and> pc_index c < length res"
    and "distinct (map pc_index cs)" and "c \<in> set cs"
  shows "pr_Status (res' ! pc_index c) \<noteq> PointUnavailable
    \<and> (pr_Status (res' ! pc_index c) \<noteq> PointTerminal \<longrightarrow>
         (\<forall>b x. candFact c b = Some x \<longrightarrow> pointFact w' b (pc_sourceTime c) = Some x))"
  using assms
proof (induction cs arbitrary: w res)
  case (Cons d cs)
  obtain st r w1 where ap: "applyCandidate w d = (st, r, w1)" by (metis prod_cases3)
  have d: "wf_candidate (length (w_levels w)) d" "pc_hasValid d" "pc_index d < length res"
    using Cons.prems by auto
  define w2 where "w2 = (if outOfRetention w d f then w else w1)"
  define st' where "st' = (if outOfRetention w d f then PointTerminal else st)"
  obtain res2 where rest: "applyOrdered f cs (w2, res2) = (w', res')"
    and res2: "length res2 = length res" "pr_Status (res2 ! pc_index d) = st'"
    using Cons.prems(1) ap d(3) by (auto simp: w2_def st'_def split: if_splits)
  have w2: "wf_layout w2" "w_levels w2 = w_levels w"
    using Cons.prems(2) applyCandidate_wf [OF Cons.prems(2) d(1,2) ap] applyCandidate_levels [OF ap]
    by (auto simp: w2_def)
  show ?case
  proof (cases "c = d")
    case True
    have "pc_index d \<notin> pc_index ` set cs" using Cons.prems(4) by auto
    from applyOrdered_frame [OF rest this] res2 have stat: "pr_Status (res' ! pc_index d) = st'" by simp
    have "\<forall>b t x. pointFact w2 b t = Some x \<longrightarrow> pointFact w' b t = Some x"
      using applyOrdered_spec [OF rest w2(1)] Cons.prems(3) w2(2) by auto
    moreover have "st' \<noteq> PointTerminal \<Longrightarrow> candFact d b = Some x \<Longrightarrow>
        pointFact w2 b (pc_sourceTime d) = Some x" for b x
      using applyCandidate_records [OF Cons.prems(2) d(1) ap] by (auto simp: st'_def w2_def split: if_splits)
    moreover have "st' \<noteq> PointUnavailable" using applyCandidate_status [OF ap] by (simp add: st'_def)
    ultimately show ?thesis using True stat by auto
  next
    case False
    with Cons.prems have "c \<in> set cs" "distinct (map pc_index cs)" by auto
    from Cons.IH [OF rest w2(1) _ this(2,1)] Cons.prems(3) w2(2) res2(1) show ?thesis by auto
  qed
qed simp

section \<open>Retention\<close>

definition horizonSeconds :: "LevelRequirement \<Rightarrow> int" where
  "horizonSeconds r = int (lr_RetentionPoints r - 1) * intervalSeconds r
     + lr_LatenessTolerance r div second"

lemma valid_requirementD:
  assumes "valid_requirement r"
  shows "0 < lr_LevelID r" "0 < lr_RequiredPoints r" "lr_RequiredPoints r \<le> lr_RetentionPoints r"
    "0 < intervalSeconds r" "0 \<le> lr_LatenessTolerance r"
    "decodeDigest32 (lr_DetectFingerprint r) \<noteq> None"
    "int (u32_sub (lr_RetentionPoints r) 1) \<le> maxInt64 sdiv intervalSeconds r"
    "i64 (int (u32_sub (lr_RetentionPoints r) 1) * intervalSeconds r)
       \<le> maxInt64 - lr_LatenessTolerance r sdiv second"
proof -
  have pos: "0 < lr_EvaluationInterval r" and md: "lr_EvaluationInterval r smod second = 0"
    using assms by (auto simp: valid_requirement_def checkRequirement_def split: if_splits)
  from md have "lr_EvaluationInterval r = (lr_EvaluationInterval r sdiv second) * second"
    by (metis add.right_neutral sdiv_mult_smod_eq)
  with pos have "0 < (lr_EvaluationInterval r sdiv second) * second" by simp
  then show "0 < intervalSeconds r" by (simp add: intervalSeconds_def second_def zero_less_mult_iff)
qed (use assms in \<open>auto simp: valid_requirement_def checkRequirement_def split: if_splits\<close>)

text \<open>
  The check of \<open>normalizeRequirements\<close> is what keeps the arithmetic of \<open>retentionCutoff\<close> inside
  \<open>int64\<close>: for an admitted requirement no step wraps.
\<close>

lemma retentionCutoff_exact:
  assumes r: "valid_requirement r" and ret: "lr_RetentionPoints r \<le> maxUint32"
    and latest: "latest \<le> maxInt64"
  shows "retentionCutoff latest r = max 0 (latest - horizonSeconds r)"
proof -
  note d = valid_requirementD [OF r]
  let ?k = "int (lr_RetentionPoints r - 1)" and ?i = "intervalSeconds r"
  have k: "u32_sub (lr_RetentionPoints r) 1 = lr_RetentionPoints r - 1"
    using d(2,3) ret by (intro u32_sub_id) auto
  have "maxInt64 sdiv ?i = maxInt64 div ?i"
    using d(4) by (intro sdiv_pos) (simp_all add: maxInt64_def)
  with d(7) k have "?k \<le> maxInt64 div ?i" by simp
  then have "?k * ?i \<le> maxInt64 div ?i * ?i" using d(4) by (intro mult_right_mono) auto
  also have "\<dots> \<le> maxInt64"
    using minus_mod_eq_div_mult [of maxInt64 ?i] pos_mod_sign [OF d(4), of maxInt64] by linarith
  finally have prod: "?k * ?i \<le> maxInt64" .
  have nn: "0 \<le> ?k * ?i" using d(4) by simp
  have lt: "lr_LatenessTolerance r sdiv second = lr_LatenessTolerance r div second"
    using d(5) by (intro sdiv_pos) (simp_all add: second_def)
  have ltn: "0 \<le> lr_LatenessTolerance r div second" using d(5) by (simp add: second_def div_int_pos_iff)
  have wrap1: "i64 (?k * ?i) = ?k * ?i" using nn prod by (intro i64_id) (auto simp: maxInt64_def)
  have hor: "horizonSeconds r \<le> maxInt64" "0 \<le> horizonSeconds r"
    using d(8) wrap1 k lt nn ltn by (simp_all add: horizonSeconds_def)
  have wrap2: "i64 (i64 (?k * ?i) + lr_LatenessTolerance r sdiv second) = horizonSeconds r"
  proof -
    have "i64 (?k * ?i) + lr_LatenessTolerance r sdiv second = horizonSeconds r"
      by (simp only: wrap1 lt horizonSeconds_def)
    then show ?thesis using hor by (simp only:) (rule i64_id, auto simp: maxInt64_def)
  qed
  have "i64 (latest - horizonSeconds r) = latest - horizonSeconds r" if "horizonSeconds r < latest"
    using that hor latest by (intro i64_id) (auto simp: maxInt64_def)
  with wrap2 k show ?thesis by (auto simp: retentionCutoff_def Let_def)
qed

section \<open>Pruning\<close>

definition keepBit :: "Window \<Rightarrow> int \<Rightarrow> nat \<Rightarrow> int \<Rightarrow> bool" where
  "keepBit w latest b t \<longleftrightarrow> t \<ge> retentionCutoff latest (requirementOf w (ls_levelID (w_levels w ! b)))"

definition prunePoint :: "Window \<Rightarrow> int \<Rightarrow> pointState \<Rightarrow> pointState" where
  "prunePoint w latest p =
     (let (v, a, ch) = pruneBits w latest (ps_sourceTime p) [0..<length (w_levels w)]
                         (ps_valid p, ps_anomalous p, False)
      in p\<lparr>ps_valid := v, ps_anomalous := a\<rparr>)"

lemma prunePoints_eq:
  "fst (prunePoints w latest ps) = filter (\<lambda>p. anyBit (ps_valid p)) (map (prunePoint w latest) ps)"
  by (induction ps) (auto simp: prunePoint_def Let_def split: prod.splits)

lemma prunePoint_time [simp]: "ps_sourceTime (prunePoint w latest p) = ps_sourceTime p"
  by (simp add: prunePoint_def Let_def split: prod.splits)

lemma prunePoint_spec:
  assumes "wf_bits (length (w_levels w)) (ps_valid p) (ps_anomalous p)"
  shows "wf_bits (length (w_levels w)) (ps_valid (prunePoint w latest p)) (ps_anomalous (prunePoint w latest p))"
    and "bit_fact (ps_valid (prunePoint w latest p)) (ps_anomalous (prunePoint w latest p)) b
      = (if keepBit w latest b (ps_sourceTime p)
         then bit_fact (ps_valid p) (ps_anomalous p) b else None)"
proof -
  obtain v a ch where pr: "pruneBits w latest (ps_sourceTime p) [0..<length (w_levels w)]
      (ps_valid p, ps_anomalous p, False) = (v, a, ch)" by (metis prod_cases3)
  have "set [0..<length (w_levels w)] \<subseteq> {..<length (w_levels w)}" by auto
  note sp = pruneBits_spec [OF pr assms this]
  have sel: "ps_valid (prunePoint w latest p) = v" "ps_anomalous (prunePoint w latest p) = a"
    by (simp_all add: prunePoint_def pr)
  show "wf_bits (length (w_levels w)) (ps_valid (prunePoint w latest p)) (ps_anomalous (prunePoint w latest p))"
    unfolding sel using sp by blast
  have "bit_fact v a b = (if b \<in> set [0..<length (w_levels w)] \<and> \<not> keepBit w latest b (ps_sourceTime p)
      then None else bit_fact (ps_valid p) (ps_anomalous p) b)"
    using sp unfolding keepBit_def by blast
  with wf_bits_bound [OF assms, of b]
  show "bit_fact (ps_valid (prunePoint w latest p)) (ps_anomalous (prunePoint w latest p)) b
      = (if keepBit w latest b (ps_sourceTime p)
         then bit_fact (ps_valid p) (ps_anomalous p) b else None)"
    unfolding sel by (cases "bit_fact (ps_valid p) (ps_anomalous p) b") auto
qed

lemma prune_fields [simp]:
  "w_levels (prune w latest) = w_levels w" "w_requirements (prune w latest) = w_requirements w"
  by (simp_all add: prune_def split: prod.splits)

lemma prune_points:
  "w_points (prune w latest) =
     filter (\<lambda>p. anyBit (ps_valid p)) (map (prunePoint w latest) (w_points w))"
  unfolding prunePoints_eq [symmetric] by (simp add: prune_def split: prod.splits)

lemma ssorted_map_same: "(\<And>x. key (f x) = key x) \<Longrightarrow> ssorted_by key (map f xs) = ssorted_by key xs"
  by (simp add: comp_def)

lemma prune_wf: "wf_layout w \<Longrightarrow> wf_layout (prune w latest)"
  unfolding wf_layout_def prune_points prune_fields
  by (auto simp: comp_def wf_point_def intro!: ssorted_filter prunePoint_spec(1))

lemma prune_facts:
  assumes wf: "wf_layout w"
  shows "pointFact (prune w latest) b t = (if keepBit w latest b t then pointFact w b t else None)"
proof -
  have s: "ssorted_by ps_sourceTime (map (prunePoint w latest) (w_points w))"
    using wf_layoutD(2) [OF wf] by (simp add: comp_def)
  have km: "key_map ps_sourceTime (w_points (prune w latest)) t =
      (case map_option (prunePoint w latest) (key_map ps_sourceTime (w_points w) t) of
         Some q \<Rightarrow> if anyBit (ps_valid q) then Some q else None | None \<Rightarrow> None)"
    unfolding prune_points key_map_filter [OF s] by (subst key_map_map) simp_all
  show ?thesis
  proof (cases "key_map ps_sourceTime (w_points w) t")
    case None
    with km show ?thesis by (simp add: pointFact_def)
  next
    case (Some p)
    then have p: "p \<in> set (w_points w)" "ps_sourceTime p = t"
      by (auto simp: key_map_Some_iff [OF wf_layoutD(2) [OF wf]])
    note sp = prunePoint_spec [of w p latest]
    have "wf_bits (length (w_levels w)) (ps_valid p) (ps_anomalous p)"
      using wf_layoutD(3) [OF wf p(1)] by (simp add: wf_point_def)
    note f = sp(2) [OF this, of b]
    have none: "\<not> anyBit (ps_valid q) \<Longrightarrow> bit_fact (ps_valid q) (ps_anomalous q) b = None" for q
      by (auto simp: anyBit_iff bit_fact_def)
    show ?thesis
    proof (cases "anyBit (ps_valid (prunePoint w latest p))")
      case False
      with km Some f p(2) none [OF False] show ?thesis by (auto simp: pointFact_def)
    qed (use km Some f p(2) in \<open>simp add: pointFact_def\<close>)
  qed
qed

section \<open>Preparing a batch\<close>

text \<open>What a Level fact says, when it says anything.\<close>

definition factValue :: "LevelFactResult \<Rightarrow> bool option" where
  "factValue r = (case r of LevelFactNormal \<Rightarrow> Some False | LevelFactAnomalous \<Rightarrow> Some True | _ \<Rightarrow> None)"

definition recordFact :: "bitmap \<Rightarrow> bitmap \<Rightarrow> nat \<Rightarrow> bool option \<Rightarrow> bitmap \<times> bitmap" where
  "recordFact v a p x = (case x of None \<Rightarrow> (v, a)
     | Some anom \<Rightarrow> (setBit v p True, if anom then setBit a p True else a))"

lemma prepareFacts_Cons:
  assumes "prepareFacts w seen (fct # fcts) (v, a, hv) = Inr out"
  obtains p where "pf_LevelID fct \<notin> set seen"
    "p = search_key ls_levelID (w_levels w) (pf_LevelID fct)" "p \<noteq> length (w_levels w)"
    "ls_levelID (w_levels w ! p) = pf_LevelID fct"
    "prepareFacts w (pf_LevelID fct # seen) fcts
       (fst (recordFact v a p (factValue (pf_Result fct))),
        snd (recordFact v a p (factValue (pf_Result fct))),
        case factValue (pf_Result fct) of None \<Rightarrow> hv | Some _ \<Rightarrow> True) = Inr out"
proof (rule that)
  show "pf_LevelID fct \<notin> set seen" using assms by (auto split: if_splits)
qed (use assms in \<open>auto simp: Let_def factValue_def recordFact_def
       split: if_splits LevelFactResult.splits\<close>)

lemma recordFact_spec:
  assumes wf: "wf_bits n v a" and p: "p < n" and fresh: "\<not> bitSet v p"
    and rec: "recordFact v a p x = (v', a')"
  shows "wf_bits n v' a'" "bit_fact v' a' b = (if b = p \<and> x \<noteq> None then x else bit_fact v a b)"
proof -
  have bm: "wf_bitmap n v" "wf_bitmap n a" "\<And>b. bitSet a b \<Longrightarrow> bitSet v b"
    using wf by (auto simp: wf_bits_def)
  note sb = wf_bitmap_bitSet_setBit [OF bm(1) p] wf_bitmap_bitSet_setBit [OF bm(2) p]
  show "wf_bits n v' a'" using rec bm p
    by (auto simp: recordFact_def wf_bits_def sb split: option.splits if_splits)
  show "bit_fact v' a' b = (if b = p \<and> x \<noteq> None then x else bit_fact v a b)"
    using rec fresh bm(3) by (auto simp: recordFact_def bit_fact_def sb split: option.splits if_splits)
qed

lemma bit_fact_anyBit: "anyBit v \<longleftrightarrow> (\<exists>b. bit_fact v a b \<noteq> None)"
  by (auto simp: anyBit_iff bit_fact_def)

lemma prepareFacts_spec:
  assumes "prepareFacts w seen fcts (v, a, hv) = Inr (v', a', hv')" and "wf_layout w"
    and "wf_bits (length (w_levels w)) v a" and "hv \<longleftrightarrow> anyBit v"
    and "\<forall>b. bitSet v b \<longrightarrow> ls_levelID (w_levels w ! b) \<in> set seen"
  shows "wf_bits (length (w_levels w)) v' a' \<and> (hv' \<longleftrightarrow> anyBit v')
    \<and> (\<forall>b x. bit_fact v a b = Some x \<longrightarrow> bit_fact v' a' b = Some x)
    \<and> (\<forall>fct \<in> set fcts. \<forall>x. factValue (pf_Result fct) = Some x \<longrightarrow>
         (\<exists>b. levelPos (w_levels w) (pf_LevelID fct) = Some b \<and> bit_fact v' a' b = Some x))
    \<and> (\<forall>b x. bit_fact v' a' b = Some x \<longrightarrow> bit_fact v a b = Some x
         \<or> (\<exists>fct \<in> set fcts. levelPos (w_levels w) (pf_LevelID fct) = Some b
              \<and> factValue (pf_Result fct) = Some x))"
  using assms
proof (induction fcts arbitrary: seen v a hv)
  case Nil
  then show ?case by auto
next
  case (Cons fct fcts)
  let ?x = "factValue (pf_Result fct)" and ?lv = "w_levels w"
  note srt = wf_layoutD(1) [OF Cons.prems(2)]
  from Cons.prems(1) obtain p where fresh: "pf_LevelID fct \<notin> set seen"
    and p: "p = search_key ls_levelID ?lv (pf_LevelID fct)" "p \<noteq> length ?lv"
      "ls_levelID (?lv ! p) = pf_LevelID fct"
    and rest: "prepareFacts w (pf_LevelID fct # seen) fcts
       (fst (recordFact v a p ?x), snd (recordFact v a p ?x), case ?x of None \<Rightarrow> hv | Some _ \<Rightarrow> True) = Inr (v', a', hv')"
    by (rule prepareFacts_Cons)
  have pn: "p < length ?lv"
    using p(1,2) search_key_takeWhile [OF ssorted_imp_sorted [OF srt], of "pf_LevelID fct"]
      length_takeWhile_le [of "\<lambda>x. ls_levelID x < pf_LevelID fct" ?lv] by simp
  have lp: "levelPos ?lv (pf_LevelID fct) = Some p"
    using pn p(3) by (simp add: levelPos_Some_iff [OF srt])
  have np: "\<not> bitSet v p" using Cons.prems(5) fresh p(3) by metis
  obtain v1 a1 where rec: "recordFact v a p ?x = (v1, a1)" by fastforce
  note r = recordFact_spec [OF Cons.prems(3) pn np rec]
  have any: "(case ?x of None \<Rightarrow> hv | Some _ \<Rightarrow> True) \<longleftrightarrow> anyBit v1"
    using Cons.prems(4) np unfolding bit_fact_anyBit [of v a] bit_fact_anyBit [of v1 a1] r(2)
    by (auto simp: bit_fact_def split: option.splits)
  have seen1: "\<forall>b. bitSet v1 b \<longrightarrow> ls_levelID (?lv ! b) \<in> set (pf_LevelID fct # seen)"
  proof (intro allI impI)
    fix b assume "bitSet v1 b"
    then have "bit_fact v1 a1 b \<noteq> None" by (simp add: bit_fact_def)
    then have "b = p \<or> bitSet v b" unfolding r(2) by (auto simp: bit_fact_def split: if_splits)
    with Cons.prems(5) p(3) show "ls_levelID (?lv ! b) \<in> set (pf_LevelID fct # seen)" by auto
  qed
  have ih: "wf_bits (length ?lv) v' a'" "hv' \<longleftrightarrow> anyBit v'"
    "\<And>b x. bit_fact v1 a1 b = Some x \<Longrightarrow> bit_fact v' a' b = Some x"
    "\<And>fct x. fct \<in> set fcts \<Longrightarrow> factValue (pf_Result fct) = Some x \<Longrightarrow>
         \<exists>b. levelPos ?lv (pf_LevelID fct) = Some b \<and> bit_fact v' a' b = Some x"
    "\<And>b x. bit_fact v' a' b = Some x \<Longrightarrow> bit_fact v1 a1 b = Some x
         \<or> (\<exists>fct \<in> set fcts. levelPos ?lv (pf_LevelID fct) = Some b \<and> factValue (pf_Result fct) = Some x)"
    using Cons.IH [OF rest [unfolded rec fst_conv snd_conv] Cons.prems(2) r(1) any seen1] by blast+
  have np': "bit_fact v a p = None" using np by (simp add: bit_fact_def)
  have keep: "bit_fact v a b = Some x \<Longrightarrow> bit_fact v1 a1 b = Some x" for b x
    unfolding r(2) using np' by auto
  have here: "?x = Some x \<Longrightarrow> bit_fact v' a' p = Some x" for x
    by (rule ih(3)) (simp add: r(2))
  have origin: "bit_fact v1 a1 b = Some x \<Longrightarrow> bit_fact v a b = Some x \<or> (b = p \<and> ?x = Some x)" for b x
    unfolding r(2) by (auto split: if_splits)
  have "bit_fact v a b = Some x \<longrightarrow> bit_fact v' a' b = Some x" for b x
    using keep ih(3) by blast
  moreover have "\<forall>g \<in> set (fct # fcts). \<forall>x. factValue (pf_Result g) = Some x \<longrightarrow>
      (\<exists>b. levelPos ?lv (pf_LevelID g) = Some b \<and> bit_fact v' a' b = Some x)"
    using here lp ih(4) by simp
  moreover have "bit_fact v' a' b = Some x \<longrightarrow> bit_fact v a b = Some x
      \<or> (\<exists>g \<in> set (fct # fcts). levelPos ?lv (pf_LevelID g) = Some b \<and> factValue (pf_Result g) = Some x)"
    for b x
    using ih(5) [of b x] origin [of b x] lp by auto
  ultimately show ?case using ih(1,2) by blast
qed

lemma preparePoint_spec:
  assumes "preparePoint w i pt = Inr c" and "wf_layout w"
  shows "wf_candidate (length (w_levels w)) c \<and> pc_index c = i \<and> pc_sourceTime c = sp_SourceTime pt
    \<and> 0 \<le> pc_sourceTime c
    \<and> (\<forall>fct \<in> set (sp_Levels pt). \<forall>x. factValue (pf_Result fct) = Some x \<longrightarrow>
         (\<exists>b. levelPos (w_levels w) (pf_LevelID fct) = Some b \<and> candFact c b = Some x))
    \<and> (\<forall>b x. candFact c b = Some x \<longrightarrow>
         (\<exists>fct \<in> set (sp_Levels pt). levelPos (w_levels w) (pf_LevelID fct) = Some b
              \<and> factValue (pf_Result fct) = Some x))"
proof -
  let ?zero = "replicate (bitmapBytes (length (w_levels w))) 0"
  from assms(1) obtain v a hv where pf:
      "prepareFacts w [] (sp_Levels pt) (?zero, ?zero, False) = Inr (v, a, hv)"
    and c: "pc_valid c = v" "pc_anomalous c = a" "pc_hasValid c = hv" "pc_index c = i"
      "pc_sourceTime c = sp_SourceTime pt" "0 \<le> sp_SourceTime pt"
    by (auto simp: preparePoint_def Let_def split: option.splits if_splits sum.splits)
  have "wf_bits (length (w_levels w)) ?zero ?zero" by (simp add: wf_bits_def)
  moreover have "\<not> anyBit ?zero" by (simp add: anyBit_iff)
  moreover have "bit_fact ?zero ?zero b = None" for b by (simp add: bit_fact_def)
  ultimately show ?thesis
    using prepareFacts_spec [OF pf assms(2)] c by (auto simp: wf_candidate_def)
qed

lemma prepareAll_spec:
  assumes "prepareAll w loaded i pts final = Inr (cs, res, f)" and "wf_layout w"
  shows "length cs = length pts \<and> length res = length pts
    \<and> (\<forall>k < length pts. preparePoint w (i + k) (pts ! k) = Inr (cs ! k)
          \<and> pr_Status (res ! k) = PointUnavailable
          \<and> (pr_Late (res ! k) \<longleftrightarrow> (\<exists>l. loaded = Some l \<and> sp_SourceTime (pts ! k) < l)))
    \<and> (\<forall>t. f = Some t \<longleftrightarrow>
          (final = Some t \<or> (\<exists>c \<in> set cs. pc_hasValid c \<and> pc_sourceTime c = t))
          \<and> (\<forall>t'. final = Some t' \<longrightarrow> t' \<le> t)
          \<and> (\<forall>c \<in> set cs. pc_hasValid c \<longrightarrow> pc_sourceTime c \<le> t))"
  using assms
proof (induction pts arbitrary: i final cs res)
  case Nil
  then show ?case by auto
next
  case (Cons pt pts)
  from Cons.prems(1) obtain c cs' res' r final' where
    c: "preparePoint w i pt = Inr c"
    and fin: "final' = (if pc_hasValid c \<and> (case final of None \<Rightarrow> True | Some g \<Rightarrow> pc_sourceTime c > g)
                   then Some (pc_sourceTime c) else final)"
    and rest: "prepareAll w loaded (Suc i) pts final' = Inr (cs', res', f)"
    and out: "cs = c # cs'" "res = r # res'" "pr_Status r = PointUnavailable"
      "pr_Late r \<longleftrightarrow> (\<exists>l. loaded = Some l \<and> sp_SourceTime pt < l)"
    by (auto simp: Let_def split: sum.splits option.splits)
  note ih = Cons.IH [OF rest Cons.prems(2)]
  have "\<forall>k < length (pt # pts). preparePoint w (i + k) ((pt # pts) ! k) = Inr (cs ! k)
      \<and> pr_Status (res ! k) = PointUnavailable
      \<and> (pr_Late (res ! k) \<longleftrightarrow> (\<exists>l. loaded = Some l \<and> sp_SourceTime ((pt # pts) ! k) < l))"
    using ih c out by (auto simp: nth_Cons split: nat.splits)
  moreover have "f = Some t \<longleftrightarrow>
      (final = Some t \<or> (\<exists>c \<in> set cs. pc_hasValid c \<and> pc_sourceTime c = t))
      \<and> (\<forall>t'. final = Some t' \<longrightarrow> t' \<le> t)
      \<and> (\<forall>c \<in> set cs. pc_hasValid c \<longrightarrow> pc_sourceTime c \<le> t)" for t
    using ih unfolding fin out(1)
    by (cases final) (auto split: if_splits)
  ultimately show ?case using ih out by simp
qed

text \<open>Every new fact comes from a candidate that was reported neither TERMINAL nor UNAVAILABLE.\<close>

lemma applyOrdered_origin:
  assumes "applyOrdered f cs (w, res) = (w', res')" and "wf_layout w"
    and "\<forall>c \<in> set cs. wf_candidate (length (w_levels w)) c \<and> pc_hasValid c \<and> pc_index c < length res"
    and "distinct (map pc_index cs)" and "pointFact w' b t = Some x"
  shows "pointFact w b t = Some x \<or> (\<exists>c \<in> set cs. pc_sourceTime c = t \<and> candFact c b = Some x
           \<and> pr_Status (res' ! pc_index c) \<noteq> PointTerminal)"
  using assms
proof (induction cs arbitrary: w res)
  case (Cons d cs)
  obtain st r w1 where ap: "applyCandidate w d = (st, r, w1)" by (metis prod_cases3)
  have d: "wf_candidate (length (w_levels w)) d" "pc_hasValid d" "pc_index d < length res"
    using Cons.prems by auto
  show ?case
  proof (cases "outOfRetention w d f")
    case True
    with Cons.prems(1) obtain res2 where rest: "applyOrdered f cs (w, res2) = (w', res')"
      and "length res2 = length res" by auto
    from Cons.IH [OF rest Cons.prems(2)] Cons.prems(3-5) this(2) show ?thesis by fastforce
  next
    case False
    define res2 where "res2 = res[pc_index d := (res ! pc_index d)\<lparr>pr_Status := st, pr_ReasonCode := r\<rparr>]"
    have rest: "applyOrdered f cs (w1, res2) = (w', res')"
      using Cons.prems(1) ap False by (simp add: res2_def)
    have len: "length res2 = length res" by (simp add: res2_def)
    have w1: "wf_layout w1" "w_levels w1 = w_levels w"
      using applyCandidate_wf [OF Cons.prems(2) d(1,2) ap] applyCandidate_levels [OF ap] by auto
    have hd: "pr_Status (res' ! pc_index d) = st"
    proof -
      have "pc_index d \<notin> pc_index ` set cs" using Cons.prems(4) by auto
      from applyOrdered_frame [OF rest this] d(3) show ?thesis by (simp add: res2_def)
    qed
    have ih: "pointFact w1 b t = Some x \<or> (\<exists>c \<in> set cs. pc_sourceTime c = t \<and> candFact c b = Some x
        \<and> pr_Status (res' ! pc_index c) \<noteq> PointTerminal)"
      using Cons.IH [OF rest w1(1)] Cons.prems(3-5) w1(2) len by simp
    have "pointFact w1 b t = Some x \<Longrightarrow> pointFact w b t = Some x
        \<or> (t = pc_sourceTime d \<and> candFact d b = Some x \<and> st \<noteq> PointTerminal)"
      using applyCandidate_facts [OF Cons.prems(2) d(1) ap, of b t] conflicts_statusD [OF Cons.prems(2) d(1) ap]
      by (auto simp: mergeFact_def split: if_splits option.splits)
    with ih hd show ?thesis by auto
  qed
qed simp

section \<open>The whole batch\<close>

definition statesFact :: "StatePoint \<Rightarrow> nat \<Rightarrow> bool \<Rightarrow> bool" where
  "statesFact pt lid x \<longleftrightarrow> (\<exists>fct \<in> set (sp_Levels pt). pf_LevelID fct = lid \<and> factValue (pf_Result fct) = Some x)"

text \<open>The latest source time a batch leaves: of the window before, and of the points that state a fact.\<close>

definition batchTimes :: "Window \<Rightarrow> StatePoint list \<Rightarrow> int set" where
  "batchTimes w pts = set_option (latestSourceTime w)
     \<union> sp_SourceTime ` {pt \<in> set pts. \<exists>lid x. statesFact pt lid x}"

definition retained :: "Window \<Rightarrow> StatePoint list \<Rightarrow> nat \<Rightarrow> int \<Rightarrow> bool" where
  "retained w pts lid t \<longleftrightarrow> (batchTimes w pts \<noteq> {} \<longrightarrow>
     t \<ge> retentionCutoff (Max (batchTimes w pts)) (requirementOf w lid))"

definition accepted :: "PointResult \<Rightarrow> bool" where
  "accepted r \<longleftrightarrow> pr_Status r = PointApplied \<or> pr_Status r = PointNoop"

lemma accepted_iff: "accepted r \<longleftrightarrow> pr_Status r \<noteq> PointTerminal \<and> pr_Status r \<noteq> PointUnavailable"
  by (cases "pr_Status r") (auto simp: accepted_def)

lemma finite_batchTimes [simp]: "finite (batchTimes w pts)"
  by (simp add: batchTimes_def)

lemma candidate_states:
  assumes wf: "wf_layout w" and c: "preparePoint w i pt = Inr c"
    and b: "b < length (w_levels w)"
  shows "candFact c b = Some x \<longleftrightarrow> statesFact pt (ls_levelID (w_levels w ! b)) x"
proof -
  note sp = preparePoint_spec [OF c wf]
  note srt = wf_layoutD(1) [OF wf]
  have lp: "levelPos (w_levels w) (ls_levelID (w_levels w ! b)) = Some b"
    using b by (simp add: levelPos_Some_iff [OF srt])
  show ?thesis
  proof
    assume "candFact c b = Some x"
    with sp obtain fct where "fct \<in> set (sp_Levels pt)" "levelPos (w_levels w) (pf_LevelID fct) = Some b"
      "factValue (pf_Result fct) = Some x" by blast
    then show "statesFact pt (ls_levelID (w_levels w ! b)) x"
      by (auto simp: statesFact_def levelPos_Some_iff [OF srt])
  next
    assume "statesFact pt (ls_levelID (w_levels w ! b)) x"
    with sp lp show "candFact c b = Some x" by (fastforce simp: statesFact_def)
  qed
qed

lemma candidate_hasValid:
  assumes wf: "wf_layout w" and c: "preparePoint w i pt = Inr c"
  shows "pc_hasValid c \<longleftrightarrow> (\<exists>lid x. statesFact pt lid x)"
proof -
  note sp = preparePoint_spec [OF c wf]
  have "pc_hasValid c \<longleftrightarrow> (\<exists>b x. candFact c b = Some x)"
    using sp by (auto simp: wf_candidate_def bit_fact_anyBit [of _ "pc_anomalous c"])
  also have "\<dots> \<longleftrightarrow> (\<exists>lid x. statesFact pt lid x)"
    using sp unfolding statesFact_def by blast
  finally show ?thesis .
qed

lemma Max_eqI_iff:
  "finite A \<Longrightarrow> A \<noteq> {} \<Longrightarrow> (m = Max A) \<longleftrightarrow> (m \<in> A \<and> (\<forall>a \<in> A. a \<le> (m::int)))"
  by (metis Max_eq_iff)

lemma candidate_times:
  assumes wf: "wf_layout w" and len: "length cs = length pts"
    and prep: "\<forall>k < length pts. preparePoint w k (pts ! k) = Inr (cs ! k)"
  shows "pc_sourceTime ` {c \<in> set cs. pc_hasValid c}
    = sp_SourceTime ` {pt \<in> set pts. \<exists>lid x. statesFact pt lid x}" (is "?A = ?B")
proof (rule set_eqI)
  fix t
  have pw: "k < length pts \<Longrightarrow> pc_sourceTime (cs ! k) = sp_SourceTime (pts ! k)
      \<and> (pc_hasValid (cs ! k) \<longleftrightarrow> (\<exists>lid x. statesFact (pts ! k) lid x))" for k
    using prep preparePoint_spec [OF _ wf] candidate_hasValid [OF wf] by blast
  have "t \<in> ?A \<longleftrightarrow> (\<exists>k < length pts. pc_hasValid (cs ! k) \<and> pc_sourceTime (cs ! k) = t)"
    using len by (auto simp: in_set_conv_nth)
  also have "\<dots> \<longleftrightarrow> (\<exists>k < length pts. (\<exists>lid x. statesFact (pts ! k) lid x) \<and> sp_SourceTime (pts ! k) = t)"
    using pw by (metis (no_types))
  also have "\<dots> \<longleftrightarrow> t \<in> ?B" by (auto simp: in_set_conv_nth)
  finally show "t \<in> ?A \<longleftrightarrow> t \<in> ?B" .
qed

lemma applyWindow_unfold:
  assumes wf: "wf_layout w" and ap: "applyWindow w pts = Inr (results, w')"
  obtains cs res w1 where
    "length cs = length pts" "length res = length pts" "length results = length pts"
    "\<forall>k < length pts. preparePoint w k (pts ! k) = Inr (cs ! k) \<and> pr_Status (res ! k) = PointUnavailable"
    "applyOrdered (if batchTimes w pts = {} then 0 else Max (batchTimes w pts))
       (sort_key pc_sourceTime (filter pc_hasValid cs)) (w, res) = (w1, results)"
    "w' = (if batchTimes w pts = {} then w1 else prune w1 (Max (batchTimes w pts)))"
proof -
  let ?loaded = "latestSourceTime w"
  from ap obtain cs res f w1 where
    pa: "prepareAll w ?loaded 0 pts ?loaded = Inr (cs, res, f)"
    and ao: "applyOrdered (case f of None \<Rightarrow> 0 | Some g \<Rightarrow> g)
       (sort_key pc_sourceTime (filter pc_hasValid cs)) (w, res) = (w1, results)"
    and w': "w' = (case f of None \<Rightarrow> w1 | Some g \<Rightarrow> prune w1 g)"
    by (auto simp: applyWindow_def Let_def split: sum.splits prod.splits option.splits)
  note sp = prepareAll_spec [OF pa wf]
  have prep: "\<forall>k < length pts. preparePoint w k (pts ! k) = Inr (cs ! k)"
    and len: "length cs = length pts" "length res = length pts" using sp by auto
  have bt: "batchTimes w pts = set_option ?loaded \<union> pc_sourceTime ` {c \<in> set cs. pc_hasValid c}"
    by (simp add: batchTimes_def candidate_times [OF wf len(1) prep])
  have f: "f = (if batchTimes w pts = {} then None else Some (Max (batchTimes w pts)))"
  proof -
    have "f = Some t \<longleftrightarrow> t \<in> batchTimes w pts \<and> (\<forall>a \<in> batchTimes w pts. a \<le> t)" for t
      using sp unfolding bt by (cases ?loaded) auto
    note iff = this
    show ?thesis
    proof (cases "batchTimes w pts = {}")
      case True
      with iff show ?thesis by (cases f) auto
    next
      case False
      with iff [of "Max (batchTimes w pts)"] show ?thesis by simp
    qed
  qed
  show thesis
  proof (rule that [of cs res w1])
    show "length results = length pts" using applyOrdered_results_length [OF ao] len by simp
    show "\<forall>k < length pts. preparePoint w k (pts ! k) = Inr (cs ! k) \<and> pr_Status (res ! k) = PointUnavailable"
      using sp by auto
  qed (use len ao w' f in \<open>auto split: if_splits\<close>)
qed

lemma sort_candidates:
  assumes "\<forall>k < length cs. pc_index (cs ! k) = k"
  shows "distinct (map pc_index (sort_key pc_sourceTime (filter pc_hasValid cs)))"
    and "set (sort_key pc_sourceTime (filter pc_hasValid cs)) = {c \<in> set cs. pc_hasValid c}"
proof -
  have "map pc_index cs = [0..<length cs]" using assms by (intro nth_equalityI) auto
  then have "distinct (map pc_index cs)" by simp
  then have "distinct (map pc_index (filter pc_hasValid cs))" by (rule distinct_map_filter)
  then show "distinct (map pc_index (sort_key pc_sourceTime (filter pc_hasValid cs)))"
    by (metis distinct_map distinct_sort set_sort)
qed simp

lemma pointFact_bound:
  assumes "wf_layout w" and "pointFact w b t = Some x"
  shows "b < length (w_levels w)"
proof -
  from assms(2) obtain p where p: "key_map ps_sourceTime (w_points w) t = Some p"
    "bit_fact (ps_valid p) (ps_anomalous p) b = Some x" by (auto simp: pointFact_def split: option.splits)
  then have "wf_point (length (w_levels w)) p"
    using wf_layoutD(3) [OF assms(1)] by (auto simp: key_map_Some_iff [OF wf_layoutD(2) [OF assms(1)]])
  with p(2) show ?thesis using wf_bits_bound by (fastforce simp: wf_point_def)
qed

text \<open>A successful batch as one pass over well-formed candidates, followed by pruning.\<close>

lemma applyWindow_run:
  assumes wf: "wf_layout w" and ap: "applyWindow w pts = Inr (results, w')"
  obtains cs ord res w1 where
    "length cs = length pts"
    "\<forall>k < length pts. pc_index (cs ! k) = k \<and> pc_sourceTime (cs ! k) = sp_SourceTime (pts ! k)
       \<and> (cs ! k \<in> set ord \<longleftrightarrow> pc_hasValid (cs ! k)) \<and> wf_candidate (length (w_levels w)) (cs ! k)"
    "\<forall>k b x. k < length pts \<longrightarrow> b < length (w_levels w) \<longrightarrow>
       (candFact (cs ! k) b = Some x \<longleftrightarrow> statesFact (pts ! k) (ls_levelID (w_levels w ! b)) x)"
    "set ord \<subseteq> set cs" "distinct (map pc_index ord)"
    "\<forall>c \<in> set ord. wf_candidate (length (w_levels w)) c \<and> pc_hasValid c \<and> pc_index c < length res"
    "applyOrdered (if batchTimes w pts = {} then 0 else Max (batchTimes w pts)) ord (w, res) = (w1, results)"
    "w' = (if batchTimes w pts = {} then w1 else prune w1 (Max (batchTimes w pts)))"
proof -
  obtain cs res w1 where
    len: "length cs = length pts" "length res = length pts"
    and prep: "\<forall>k < length pts. preparePoint w k (pts ! k) = Inr (cs ! k) \<and> pr_Status (res ! k) = PointUnavailable"
    and ao: "applyOrdered (if batchTimes w pts = {} then 0 else Max (batchTimes w pts))
       (sort_key pc_sourceTime (filter pc_hasValid cs)) (w, res) = (w1, results)"
    and w': "w' = (if batchTimes w pts = {} then w1 else prune w1 (Max (batchTimes w pts)))"
    by (rule applyWindow_unfold [OF wf ap])
  let ?ord = "sort_key pc_sourceTime (filter pc_hasValid cs)"
  have pp: "k < length pts \<Longrightarrow> wf_candidate (length (w_levels w)) (cs ! k) \<and> pc_index (cs ! k) = k
      \<and> pc_sourceTime (cs ! k) = sp_SourceTime (pts ! k)" for k
    using prep preparePoint_spec [OF _ wf] by blast
  have sc: "distinct (map pc_index ?ord)" "set ?ord = {c \<in> set cs. pc_hasValid c}"
    using sort_candidates [of cs] pp len(1) by auto
  show thesis
  proof (rule that [OF len(1) _ _ _ sc(1) _ ao w'])
    show "\<forall>c \<in> set ?ord. wf_candidate (length (w_levels w)) c \<and> pc_hasValid c \<and> pc_index c < length res"
      unfolding sc(2) using pp len by (auto simp: in_set_conv_nth)
  qed (use pp sc(2) len prep candidate_states [OF wf] in auto)
qed

lemma applyWindow_frame:
  assumes wf: "wf_layout w" and ap: "applyWindow w pts = Inr (results, w')"
  shows "wf_layout w' \<and> w_levels w' = w_levels w \<and> w_requirements w' = w_requirements w"
proof (rule applyWindow_run [OF wf ap])
  fix ord res w1
  assume c: "\<forall>c \<in> set ord. wf_candidate (length (w_levels w)) c \<and> pc_hasValid c \<and> pc_index c < length res"
    and ao: "applyOrdered (if batchTimes w pts = {} then 0 else Max (batchTimes w pts)) ord (w, res) = (w1, results)"
    and w': "w' = (if batchTimes w pts = {} then w1 else prune w1 (Max (batchTimes w pts)))"
  from c have "\<forall>c \<in> set ord. wf_candidate (length (w_levels w)) c \<and> pc_hasValid c" by blast
  from applyOrdered_spec [OF ao wf this] show ?thesis by (auto simp: w' prune_wf)
qed

text \<open>The facts after the pass: those there were, and those of the accepted candidates.\<close>

lemma applyOrdered_new:
  assumes ao: "applyOrdered f ord (w, res) = (w1, results)" and wf: "wf_layout w"
    and wfc: "\<forall>c \<in> set ord. wf_candidate (length (w_levels w)) c \<and> pc_hasValid c \<and> pc_index c < length res"
    and d: "distinct (map pc_index ord)"
  shows "pointFact w1 b t = Some x \<longleftrightarrow> pointFact w b t = Some x
    \<or> (\<exists>c \<in> set ord. accepted (results ! pc_index c) \<and> pc_sourceTime c = t \<and> candFact c b = Some x)"
proof -
  note st = applyOrdered_status [OF ao wf wfc d]
  from wfc have "\<forall>c \<in> set ord. wf_candidate (length (w_levels w)) c \<and> pc_hasValid c" by blast
  note os = applyOrdered_spec [OF ao wf this]
  show ?thesis
    using applyOrdered_origin [OF ao wf wfc d, of b t x] os st by (fastforce simp: accepted_iff)
qed

lemma applyWindow_pointFact:
  assumes wf: "wf_layout w" and ap: "applyWindow w pts = Inr (results, w')"
    and b: "b < length (w_levels w)"
  defines "lid \<equiv> ls_levelID (w_levels w ! b)"
  shows "pointFact w' b t = Some x \<longleftrightarrow> retained w pts lid t \<and>
      (pointFact w b t = Some x \<or> (\<exists>k < length pts. accepted (results ! k)
          \<and> sp_SourceTime (pts ! k) = t \<and> statesFact (pts ! k) lid x))"
proof -
  obtain cs ord res w1 where
    len: "length cs = length pts"
    and pp: "\<forall>k < length pts. pc_index (cs ! k) = k \<and> pc_sourceTime (cs ! k) = sp_SourceTime (pts ! k)
       \<and> (cs ! k \<in> set ord \<longleftrightarrow> pc_hasValid (cs ! k)) \<and> wf_candidate (length (w_levels w)) (cs ! k)"
    and cf: "\<forall>k b x. k < length pts \<longrightarrow> b < length (w_levels w) \<longrightarrow>
       (candFact (cs ! k) b = Some x \<longleftrightarrow> statesFact (pts ! k) (ls_levelID (w_levels w ! b)) x)"
    and sub: "set ord \<subseteq> set cs" and d: "distinct (map pc_index ord)"
    and wfc: "\<forall>c \<in> set ord. wf_candidate (length (w_levels w)) c \<and> pc_hasValid c \<and> pc_index c < length res"
    and ao: "applyOrdered (if batchTimes w pts = {} then 0 else Max (batchTimes w pts)) ord (w, res) = (w1, results)"
    and w': "w' = (if batchTimes w pts = {} then w1 else prune w1 (Max (batchTimes w pts)))"
    by (rule applyWindow_run [OF wf ap])
  have hv: "k < length pts \<Longrightarrow> candFact (cs ! k) b = Some x \<Longrightarrow> cs ! k \<in> set ord" for k
    using pp by (auto simp: wf_candidate_def bit_fact_anyBit [of _ "pc_anomalous (cs ! k)"])
  have "(\<exists>c \<in> set ord. accepted (results ! pc_index c) \<and> pc_sourceTime c = t \<and> candFact c b = Some x)
      \<longleftrightarrow> (\<exists>k < length pts. accepted (results ! k) \<and> sp_SourceTime (pts ! k) = t \<and> candFact (cs ! k) b = Some x)"
    (is "?l = ?r")
  proof
    assume ?l
    then obtain c where c: "c \<in> set ord" "accepted (results ! pc_index c)" "pc_sourceTime c = t"
      "candFact c b = Some x" by blast
    with sub len obtain k where "k < length pts" "c = cs ! k" by (metis in_set_conv_nth subsetD)
    with c pp show ?r by auto
  next
    assume ?r
    then obtain k where k: "k < length pts" "accepted (results ! k)" "sp_SourceTime (pts ! k) = t"
      "candFact (cs ! k) b = Some x" by blast
    with hv pp show ?l by (intro bexI [of _ "cs ! k"]) auto
  qed
  also have "\<dots> \<longleftrightarrow> (\<exists>k < length pts. accepted (results ! k) \<and> sp_SourceTime (pts ! k) = t \<and> statesFact (pts ! k) lid x)"
    using cf b by (simp add: lid_def cong: conj_cong)
  finally have new: "pointFact w1 b t = Some x \<longleftrightarrow> pointFact w b t = Some x
      \<or> (\<exists>k < length pts. accepted (results ! k) \<and> sp_SourceTime (pts ! k) = t \<and> statesFact (pts ! k) lid x)"
    using applyOrdered_new [OF ao wf wfc d, of b t x] by simp
  from wfc have "\<forall>c \<in> set ord. wf_candidate (length (w_levels w)) c \<and> pc_hasValid c" by blast
  note os = applyOrdered_spec [OF ao wf this]
  have "keepBit w1 latest b t \<longleftrightarrow> t \<ge> retentionCutoff latest (requirementOf w lid)" for latest
    using os by (simp add: keepBit_def lid_def requirementOf_def)
  with os show ?thesis
    unfolding new [symmetric] by (auto simp: w' retained_def prune_facts)
qed

end
