(* ===== verification/Window_View.thy ===== *)
theory Window_View
  imports Window_Correct
begin

text \<open>
  Correctness of the readers of the window (\<open>HistoryView\<close>): each is shown to compute the
  obvious function of the facts the window holds, and the summary walk is shown to end and to
  classify the window.
\<close>

section \<open>Facts of a view\<close>

definition viewFact :: "HistoryView \<Rightarrow> int \<Rightarrow> bool option" where
  "viewFact v t = pointFact (hv_window v) (hv_levelIndex v) t"

definition wf_view :: "HistoryView \<Rightarrow> bool" where
  "wf_view v \<longleftrightarrow> wf_layout (hv_window v) \<and> valid_requirement (hv_requirement v)"

lemma wf_viewD:
  assumes "wf_view v"
  shows "ssorted_by ps_sourceTime (w_points (hv_window v))"
    and "sorted_by ps_sourceTime (w_points (hv_window v))"
  using assms wf_layoutD(2) [of "hv_window v"] ssorted_imp_sorted by (auto simp: wf_view_def)

lemma viewFact_Some_iff:
  assumes "wf_view v"
  shows "viewFact v t = Some x \<longleftrightarrow> (\<exists>p \<in> set (w_points (hv_window v)). ps_sourceTime p = t
    \<and> bit_fact (ps_valid p) (ps_anomalous p) (hv_levelIndex v) = Some x)"
proof -
  have "viewFact v t = Some x \<longleftrightarrow> (\<exists>p. key_map ps_sourceTime (w_points (hv_window v)) t = Some p
      \<and> bit_fact (ps_valid p) (ps_anomalous p) (hv_levelIndex v) = Some x)"
    by (auto simp: viewFact_def pointFact_def split: option.splits)
  then show ?thesis by (auto simp: key_map_Some_iff [OF wf_viewD(1) [OF assms]])
qed

lemma History_spec:
  assumes wf: "wf_window w" and h: "History (Some w) lid = Some v"
  shows "wf_view v" "viewFact v t = windowFact w lid t" "w_requirements w lid = Some (hv_requirement v)"
proof -
  note srt = wf_layoutD(1) [OF wf_window_layout [OF wf]]
  from h have v: "hv_window v = w" "hv_levelIndex v = search_key ls_levelID (w_levels w) lid"
    "search_key ls_levelID (w_levels w) lid \<noteq> length (w_levels w)"
    "ls_levelID (w_levels w ! hv_levelIndex v) = lid"
    and rq: "w_requirements w lid = Some (hv_requirement v)"
    by (auto simp: History_def Let_def split: if_splits option.splits)
  have lt: "hv_levelIndex v < length (w_levels w)"
    using v(2,3) search_key_takeWhile [OF ssorted_imp_sorted [OF srt], of lid]
      length_takeWhile_le [of "\<lambda>x. ls_levelID x < lid" "w_levels w"] by simp
  then have "w_levels w ! hv_levelIndex v \<in> set (w_levels w)" by simp
  with wf v(4) rq have "valid_requirement (hv_requirement v)" by (fastforce simp: wf_window_def)
  with wf v(1) show "wf_view v" by (simp add: wf_view_def wf_window_def)
  have "levelPos (w_levels w) lid = Some (hv_levelIndex v)"
    using lt v(4) by (simp add: levelPos_Some_iff [OF srt])
  with v(1) show "viewFact v t = windowFact w lid t" by (simp add: viewFact_def windowFact_def)
qed (use h in \<open>auto simp: History_def Let_def split: if_splits option.splits\<close>)

text \<open>History finds exactly the Levels the window is aligned to.\<close>

lemma History_exists:
  assumes wf: "wf_window w" and l: "l \<in> set (w_levels w)"
  shows "\<exists>v. History (Some w) (ls_levelID l) = Some v"
proof -
  note srt = wf_layoutD(1) [OF wf_window_layout [OF wf]]
  have "ls_levelID l \<in> ls_levelID ` set (w_levels w)" using l by blast
  then have "search_key ls_levelID (w_levels w) (ls_levelID l) < length (w_levels w)"
    "ls_levelID (w_levels w ! search_key ls_levelID (w_levels w) (ls_levelID l)) = ls_levelID l"
    using search_key_found_iff [OF srt] by blast+
  moreover obtain r where "w_requirements w (ls_levelID l) = Some r"
    using wf l by (auto simp: wf_window_def)
  ultimately show ?thesis by (simp add: History_def Let_def)
qed

section \<open>Range readers\<close>

definition anomalousHere :: "HistoryView \<Rightarrow> pointState \<Rightarrow> bool" where
  "anomalousHere v p \<longleftrightarrow> bitSet (ps_valid p) (hv_levelIndex v) \<and> bitSet (ps_anomalous p) (hv_levelIndex v)"

text \<open>The source times the anomaly walk visits, in order.\<close>

definition anomalyTimes :: "HistoryView \<Rightarrow> int \<Rightarrow> int \<Rightarrow> int list" where
  "anomalyTimes v fromTime untilTime = map ps_sourceTime (filter (anomalousHere v)
     (filter (\<lambda>p. ps_sourceTime p \<le> untilTime)
       (filter (\<lambda>p. fromTime \<le> ps_sourceTime p) (w_points (hv_window v)))))"

fun visitAll :: "(int \<Rightarrow> 's \<Rightarrow> 's \<times> bool) \<Rightarrow> int list \<Rightarrow> 's \<Rightarrow> 's" where
  "visitAll visit [] s = s"
| "visitAll visit (t # ts) s = (let (s', continue) = visit t s in if continue then visitAll visit ts s' else s')"

lemma forEachLoop_visitAll:
  "forEachLoop (hv_levelIndex v) untilTime ps visit s =
     visitAll visit (map ps_sourceTime (filter (anomalousHere v)
       (takeWhile (\<lambda>p. ps_sourceTime p \<le> untilTime) ps))) s"
  by (induction ps arbitrary: s) (auto simp: anomalousHere_def Let_def split: prod.splits)

lemma drop_search:
  "sorted_by ps_sourceTime ps \<Longrightarrow>
     drop (search_key ps_sourceTime ps fromTime) ps = filter (\<lambda>p. fromTime \<le> ps_sourceTime p) ps"
  by (simp add: search_key_takeWhile dropWhile_eq_drop [symmetric] dropWhile_eq_filter_sorted)

lemma sorted_by_filter: "sorted_by key xs \<Longrightarrow> sorted_by key (filter P xs)"
  by (induction xs) auto

lemma ForEachAnomaly_visitAll:
  assumes "wf_view v"
  shows "ForEachAnomaly v fromTime untilTime visit s
    = visitAll visit (anomalyTimes v fromTime untilTime) s"
proof (cases "fromTime > untilTime")
  case True
  then have "anomalyTimes v fromTime untilTime = []"
    by (auto simp: anomalyTimes_def filter_empty_conv)
  with True show ?thesis by (simp add: ForEachAnomaly_def)
next
  case False
  let ?ps = "filter (\<lambda>p. fromTime \<le> ps_sourceTime p) (w_points (hv_window v))"
  have "sorted_by ps_sourceTime ?ps" using wf_viewD(2) [OF assms] by (rule sorted_by_filter)
  from takeWhile_until_sorted [OF this]
  have "takeWhile (\<lambda>p. ps_sourceTime p \<le> untilTime) ?ps = filter (\<lambda>p. ps_sourceTime p \<le> untilTime) ?ps" .
  with False show ?thesis
    by (simp only: ForEachAnomaly_def Let_def drop_search [OF wf_viewD(2) [OF assms]]
        forEachLoop_visitAll anomalyTimes_def if_False)
qed

lemma visitAll_count: "visitAll (\<lambda>_ n. (n + 1, True)) ts (n :: nat) = n + length ts"
  by (induction ts arbitrary: n) auto

lemma anomalyTimes_ssorted: "wf_view v \<Longrightarrow> sorted_wrt (<) (anomalyTimes v a b)"
  unfolding anomalyTimes_def by (intro ssorted_filter wf_viewD)

lemma set_anomalyTimes:
  assumes "wf_view v"
  shows "set (anomalyTimes v a b) = {t. a \<le> t \<and> t \<le> b \<and> viewFact v t = Some True}"
proof -
  have "viewFact v t = Some True \<longleftrightarrow> (\<exists>p \<in> set (w_points (hv_window v)). ps_sourceTime p = t \<and> anomalousHere v p)" for t
    unfolding viewFact_Some_iff [OF assms] anomalousHere_def by (auto simp: bit_fact_def split: if_splits)
  then show ?thesis by (auto simp: anomalyTimes_def)
qed

lemma CountAnomalies_card:
  assumes "wf_view v"
  shows "CountAnomalies v a b = card {t. a \<le> t \<and> t \<le> b \<and> viewFact v t = Some True}"
proof -
  have "CountAnomalies v a b = length (anomalyTimes v a b)"
    using visitAll_count by (simp add: CountAnomalies_def ForEachAnomaly_visitAll [OF assms])
  also have "\<dots> = card (set (anomalyTimes v a b))"
    using anomalyTimes_ssorted [OF assms, of a b] by (metis distinct_card strict_sorted_iff)
  finally show ?thesis by (simp only: set_anomalyTimes [OF assms])
qed

lemma FirstAnomaly_hd:
  assumes "wf_view v"
  shows "FirstAnomaly v a b = (case anomalyTimes v a b of [] \<Rightarrow> (0, False) | t # _ \<Rightarrow> (t, True))"
  by (simp add: FirstAnomaly_def ForEachAnomaly_visitAll [OF assms] split: list.split)

lemma FirstAnomaly_spec:
  assumes "wf_view v"
  shows "snd (FirstAnomaly v a b) \<longleftrightarrow> (\<exists>t. a \<le> t \<and> t \<le> b \<and> viewFact v t = Some True)"
    and "snd (FirstAnomaly v a b) \<Longrightarrow> a \<le> fst (FirstAnomaly v a b) \<and> fst (FirstAnomaly v a b) \<le> b
      \<and> viewFact v (fst (FirstAnomaly v a b)) = Some True
      \<and> (\<forall>t. a \<le> t \<and> t \<le> b \<and> viewFact v t = Some True \<longrightarrow> fst (FirstAnomaly v a b) \<le> t)"
proof -
  note st = set_anomalyTimes [OF assms, of a b, symmetric]
  show "snd (FirstAnomaly v a b) \<longleftrightarrow> (\<exists>t. a \<le> t \<and> t \<le> b \<and> viewFact v t = Some True)"
    using st by (cases "anomalyTimes v a b") (auto simp: FirstAnomaly_hd [OF assms])
  assume "snd (FirstAnomaly v a b)"
  then obtain t ts where ts: "anomalyTimes v a b = t # ts" "fst (FirstAnomaly v a b) = t"
    by (auto simp: FirstAnomaly_hd [OF assms] split: list.splits)
  then have "t \<in> {t. a \<le> t \<and> t \<le> b \<and> viewFact v t = Some True}" unfolding st by simp
  moreover have "\<forall>u \<in> set (anomalyTimes v a b). t \<le> u"
    using anomalyTimes_ssorted [OF assms, of a b] ts(1) by auto
  ultimately show "a \<le> fst (FirstAnomaly v a b) \<and> fst (FirstAnomaly v a b) \<le> b
      \<and> viewFact v (fst (FirstAnomaly v a b)) = Some True
      \<and> (\<forall>t. a \<le> t \<and> t \<le> b \<and> viewFact v t = Some True \<longrightarrow> fst (FirstAnomaly v a b) \<le> t)"
    unfolding ts(2) set_anomalyTimes [OF assms] by blast
qed

lemma countObservedLoop_eq:
  "countObservedLoop li untilTime ps n = n + length (filter (\<lambda>p. bitSet (ps_valid p) li)
     (takeWhile (\<lambda>p. ps_sourceTime p \<le> untilTime) ps))"
  by (induction ps arbitrary: n) auto

lemma CountObserved_card:
  assumes "wf_view v"
  shows "CountObserved v a b = card {t. a \<le> t \<and> t \<le> b \<and> viewFact v t \<noteq> None}"
proof -
  let ?ps = "filter (\<lambda>p. bitSet (ps_valid p) (hv_levelIndex v)) (filter (\<lambda>p. ps_sourceTime p \<le> b)
     (filter (\<lambda>p. a \<le> ps_sourceTime p) (w_points (hv_window v))))"
  have srt: "sorted_by ps_sourceTime (filter (\<lambda>p. a \<le> ps_sourceTime p) (w_points (hv_window v)))"
    using wf_viewD(2) [OF assms] by (rule sorted_by_filter)
  have len: "CountObserved v a b = length ?ps"
  proof (cases "a > b")
    case True
    then have "?ps = []" by (auto simp: filter_empty_conv)
    with True show ?thesis by (simp add: CountObserved_def)
  qed (simp add: CountObserved_def Let_def countObservedLoop_eq drop_search [OF wf_viewD(2) [OF assms]]
      takeWhile_until_sorted [OF srt])
  have "distinct (map ps_sourceTime ?ps)"
    by (intro ssorted_distinct ssorted_filter wf_viewD(1) [OF assms])
  then have "length ?ps = card (set (map ps_sourceTime ?ps))" by (metis distinct_card length_map)
  also have "set (map ps_sourceTime ?ps) = {t. a \<le> t \<and> t \<le> b \<and> viewFact v t \<noteq> None}"
  proof -
    have "viewFact v t \<noteq> None \<longleftrightarrow>
        (\<exists>p \<in> set (w_points (hv_window v)). ps_sourceTime p = t \<and> bitSet (ps_valid p) (hv_levelIndex v))" for t
    proof -
      have "viewFact v t \<noteq> None \<longleftrightarrow> (\<exists>x. viewFact v t = Some x)" by simp
      also have "\<dots> \<longleftrightarrow> (\<exists>p \<in> set (w_points (hv_window v)). ps_sourceTime p = t
          \<and> bitSet (ps_valid p) (hv_levelIndex v))"
        unfolding viewFact_Some_iff [OF assms] by (auto simp: bit_fact_def)
      finally show ?thesis .
    qed
    then show ?thesis by auto
  qed
  finally show ?thesis using len by simp
qed

lemma finite_viewFacts: "finite {t. a \<le> t \<and> t \<le> (b::int) \<and> P t}"
  by (rule finite_subset [of _ "{a..b}"]) auto

lemma CountAnomalies_le_CountObserved: "wf_view v \<Longrightarrow> CountAnomalies v a b \<le> CountObserved v a b"
  unfolding CountAnomalies_card CountObserved_card by (intro card_mono finite_viewFacts) auto

section \<open>The summary walk\<close>

lemma pointAt_key_map:
  assumes "wf_view v"
  shows "pointAt v t = key_map ps_sourceTime (w_points (hv_window v)) t"
proof (cases "key_map ps_sourceTime (w_points (hv_window v)) t")
  case None
  from search_key_miss [OF wf_viewD(1) [OF assms] None]
  have "search_key ps_sourceTime (w_points (hv_window v)) t \<ge> length (w_points (hv_window v))
      \<or> ps_sourceTime (w_points (hv_window v) ! search_key ps_sourceTime (w_points (hv_window v)) t) \<noteq> t"
    by auto
  moreover have "search_key ps_sourceTime (w_points (hv_window v)) t \<le> length (w_points (hv_window v))"
    using search_key_takeWhile [OF wf_viewD(2) [OF assms], of t] length_takeWhile_le by metis
  ultimately show ?thesis using None by (auto simp: pointAt_def Let_def)
next
  case (Some p)
  then have "ps_sourceTime p = t" by (simp add: key_map_Some_iff [OF wf_viewD(1) [OF assms]])
  with search_key_nth [OF wf_viewD(1) [OF assms] Some] Some show ?thesis
    by (simp add: pointAt_def Let_def)
qed

text \<open>One visit, by what the view holds at the position.\<close>

lemma visitPosition_spec:
  assumes "wf_view v"
  shows "wk_seenValid (visitPosition v lim t s) \<longleftrightarrow> wk_seenValid s \<or> viewFact v t \<noteq> None"
    and "wk_valid (visitPosition v lim t s) = wk_valid s + (if viewFact v t \<noteq> None then 1 else 0)"
    and "wk_anomalies (visitPosition v lim t s) = wk_anomalies s + (if viewFact v t = Some True then 1 else 0)"
    and "wk_gapAfterFirst (visitPosition v lim t s) \<longleftrightarrow>
           wk_gapAfterFirst s \<or> (wk_seenValid s \<and> viewFact v t = None)"
    and "wk_missingBeforeFirst (visitPosition v lim t s) \<longleftrightarrow>
           wk_missingBeforeFirst s \<or> (\<not> wk_seenValid s \<and> viewFact v t = None)"
    and "wh_MissingTotal (wk_holes (visitPosition v lim t s)) + wh_UnusableTotal (wk_holes (visitPosition v lim t s))
       = wh_MissingTotal (wk_holes s) + wh_UnusableTotal (wk_holes s) + (if viewFact v t = None then 1 else 0)"
  unfolding viewFact_def pointFact_def visitPosition_def pointAt_key_map [OF assms]
  by (auto simp: bit_fact_def Let_def split: option.splits)

lemma fold_visit_spec:
  fixes lim :: nat
  assumes "wf_view v"
  defines "out xs \<equiv> fold (visitPosition v lim) xs walkInit"
  shows "wk_seenValid (out xs) \<longleftrightarrow> (\<exists>t \<in> set xs. viewFact v t \<noteq> None)"
    and "wk_valid (out xs) = length (filter (\<lambda>t. viewFact v t \<noteq> None) xs)"
    and "wk_anomalies (out xs) = length (filter (\<lambda>t. viewFact v t = Some True) xs)"
    and "wh_MissingTotal (wk_holes (out xs)) + wh_UnusableTotal (wk_holes (out xs))
       = length (filter (\<lambda>t. viewFact v t = None) xs)"
    and "wk_missingBeforeFirst (out xs) \<longleftrightarrow> xs \<noteq> [] \<and> viewFact v (hd xs) = None"
    and "wk_gapAfterFirst (out xs) \<longleftrightarrow>
       (\<exists>i j. i < j \<and> j < length xs \<and> viewFact v (xs ! i) \<noteq> None \<and> viewFact v (xs ! j) = None)"
proof (induction xs rule: rev_induct)
  case (snoc x xs)
  note vp = visitPosition_spec [OF assms(1), where lim = lim]
  have out: "out (xs @ [x]) = visitPosition v lim x (out xs)" by (simp add: out_def)
  { case 1 show ?case unfolding out using snoc(1) vp(1) by auto }
  { case 2 show ?case unfolding out using snoc(2) vp(2) by auto }
  { case 3 show ?case unfolding out using snoc(3) vp(3) by auto }
  { case 4 show ?case unfolding out using snoc(4) vp(6) by auto }
  { case 5 show ?case unfolding out using snoc(1,5) vp(5)
      by (cases xs) auto }
  { case 6 show ?case unfolding out vp(4) snoc(6) snoc(1)
      by (rule pair_snoc [where P = "\<lambda>t. viewFact v t \<noteq> None" and Q = "\<lambda>t. viewFact v t = None", symmetric]) }
qed (simp_all add: out_def walkInit_def noHoles_def)

text \<open>The positions of a window: \<open>n\<close> source times ending at \<open>endTime\<close>.\<close>

definition positions :: "int \<Rightarrow> int \<Rightarrow> nat \<Rightarrow> int list" where
  "positions start interval n = map (\<lambda>k. start + int k * interval) [0..<n]"

lemma positions_Suc: "positions e i (Suc n) = e # positions (e + i) i n"
  unfolding positions_def by (simp add: upt_conv_Cons map_Suc_upt [symmetric] algebra_simps del: upt_Suc)

lemma walkPositions_positions:
  assumes "0 < i" "- (2 ^ 63) \<le> e" "e + int m * i \<le> maxInt64"
  shows "walkPositions (Suc m) v lim i (e + int m * i) e s
    = Some (fold (visitPosition v lim) (positions e i (Suc m)) s)"
  using assms
proof (induction m arbitrary: e s)
  case 0
  then show ?case by (simp add: positions_def)
next
  case (Suc m)
  have ne: "e \<noteq> e + int (Suc m) * i" using Suc.prems(1) by simp
  have "0 \<le> int m * i" using Suc.prems(1) by simp
  moreover have "e + int (Suc m) * i = (e + i) + int m * i" by (simp add: algebra_simps)
  ultimately have step: "i64 (e + i) = e + i"
    using Suc.prems by (intro i64_id) linarith+
  have "walkPositions (Suc m) v lim i ((e + i) + int m * i) (e + i) (visitPosition v lim e s)
      = Some (fold (visitPosition v lim) (positions (e + i) i (Suc m)) (visitPosition v lim e s))"
    using Suc.prems by (intro Suc.IH) (auto simp: algebra_simps)
  moreover have "(e + i) + int m * i = e + int (Suc m) * i" by (simp add: algebra_simps)
  ultimately show ?case using ne step
    by (simp add: positions_Suc [of e i "Suc m"] del: of_nat_Suc) 
qed

text \<open>
  A request inside the guards: the walk ends with the number of required positions as fuel, and
  the summary is that of the positions.
\<close>

definition summaryPositions :: "HistoryView \<Rightarrow> int \<Rightarrow> nat \<Rightarrow> int list" where
  "summaryPositions v endTime n =
     positions (endTime - int (n - 1) * intervalSeconds (hv_requirement v)) (intervalSeconds (hv_requirement v)) n"

lemma SummarizeHoles_walk:
  fixes lim :: nat
  assumes wf: "wf_view v" and n: "0 < n" "n \<le> lr_RetentionPoints (hv_requirement v)"
    and ret: "lr_RetentionPoints (hv_requirement v) \<le> maxUint32"
    and e: "endTime \<le> maxInt64" "int (n - 1) * intervalSeconds (hv_requirement v) \<le> endTime"
  defines "s \<equiv> fold (visitPosition v lim) (summaryPositions v endTime n) walkInit"
  shows "SummarizeHoles sha256 v endTime n lim =
    Some (\<lparr>ws_Completeness = walkCompleteness n s,
           ws_WindowStart = endTime - int (n - 1) * intervalSeconds (hv_requirement v),
           ws_WindowEnd = endTime, ws_ValidPositions = wk_valid s, ws_RequiredPositions = n,
           ws_AnomalyCount = wk_anomalies s, ws_AnomalyDigest = sha256 (wk_hashed s)\<rparr>, wk_holes s)"
proof -
  let ?i = "intervalSeconds (hv_requirement v)"
  have i: "0 < ?i" using wf valid_requirementD(4) by (simp add: wf_view_def)
  have u: "u32_sub n 1 = n - 1" using n ret by (intro u32_sub_id) auto
  have nn: "0 \<le> int (n - 1) * ?i" using i by simp
  have "int (n - 1) * ?i div ?i \<le> maxInt64 div ?i" using e i by (intro zdiv_mono1) auto
  then have le: "int (n - 1) \<le> maxInt64 sdiv ?i" using i by (simp add: sdiv_pos maxInt64_def)
  have off: "i64 (int (n - 1) * ?i) = int (n - 1) * ?i"
    using nn e by (intro i64_id) (auto simp: maxInt64_def)
  have st: "i64 (endTime - int (n - 1) * ?i) = endTime - int (n - 1) * ?i"
    using nn e by (intro i64_id) (auto simp: maxInt64_def)
  obtain m where m: "n = Suc m" using n(1) by (cases n) auto
  have "walkPositions (Suc m) v lim ?i ((endTime - int m * ?i) + int m * ?i) (endTime - int m * ?i) walkInit
      = Some (fold (visitPosition v lim) (positions (endTime - int m * ?i) ?i (Suc m)) walkInit)"
    using e m i by (intro walkPositions_positions) auto
  then have walk: "walkPositions n v lim ?i endTime (endTime - int (n - 1) * ?i) walkInit = Some s"
    by (simp add: m s_def summaryPositions_def)
  have "0 \<le> endTime" using nn e by linarith
  then have "\<not> (n = 0 \<or> n > lr_RetentionPoints (hv_requirement v) \<or> ?i \<le> 0 \<or> endTime < 0
      \<or> int (u32_sub n 1) > maxInt64 sdiv ?i)"
    using n i le u by auto
  then have g: "(n = 0 \<or> n > lr_RetentionPoints (hv_requirement v) \<or> ?i \<le> 0 \<or> endTime < 0
      \<or> int (n - 1) > maxInt64 sdiv ?i) = False" unfolding u by blast
  have rq: "(if n = 0 then lr_RequiredPoints (hv_requirement v) else n) = n" using n by simp
  have le': "(int (n - 1) * ?i > endTime) = False" using e by simp
  show ?thesis unfolding SummarizeHoles_def Let_def rq u off st g le' if_False walk by simp
qed

lemma length_summaryPositions [simp]: "length (summaryPositions v e n) = n"
  by (simp add: summaryPositions_def positions_def)

lemma summaryPositions_nth:
  assumes "k < n"
  shows "summaryPositions v e n ! k = e - int (n - 1 - k) * intervalSeconds (hv_requirement v)"
proof -
  have "int (n - 1 - k) = int (n - 1) - int k" using assms by (simp add: of_nat_diff)
  with assms show ?thesis
    by (simp add: summaryPositions_def positions_def algebra_simps)
qed

text \<open>The state of the walk at the end, for a window of \<open>n\<close> positions ending at \<open>e\<close>.\<close>

definition summaryWalk :: "HistoryView \<Rightarrow> int \<Rightarrow> nat \<Rightarrow> nat \<Rightarrow> walkState" where
  "summaryWalk v e n lim = fold (visitPosition v lim) (summaryPositions v e n) walkInit"

lemma walkCompleteness_spec:
  fixes lim :: nat and endTime :: int
  assumes wf: "wf_view v" and n: "0 < n"
  defines "xs \<equiv> summaryPositions v endTime n"
  defines "s \<equiv> fold (visitPosition v lim) xs walkInit"
  shows "walkCompleteness n s = HistoryFull \<longleftrightarrow> (\<forall>t \<in> set xs. viewFact v t \<noteq> None)"
    and "walkCompleteness n s = HistoryGapped \<longleftrightarrow>
      (\<exists>i j. i < j \<and> j < n \<and> viewFact v (xs ! i) \<noteq> None \<and> viewFact v (xs ! j) = None)"
proof -
  note fs = fold_visit_spec [OF wf, of lim xs, folded s_def]
  have len: "length xs = n" by (simp add: xs_def)
  have gap: "wk_gapAfterFirst s \<Longrightarrow> \<exists>t \<in> set xs. viewFact v t = None"
    unfolding fs(6) by (metis nth_mem)
  have full: "wk_valid s < n \<longleftrightarrow> (\<exists>t \<in> set xs. viewFact v t = None)"
  proof -
    have "(\<exists>t \<in> set xs. \<not> viewFact v t \<noteq> None) \<longleftrightarrow> length (filter (\<lambda>t. viewFact v t \<noteq> None) xs) < length xs"
      using length_filter_less [of _ xs "\<lambda>t. viewFact v t \<noteq> None"]
      by (metis (mono_tags, lifting) filter_True less_irrefl)
    with fs(2) len show ?thesis by simp
  qed
  have "wk_missingBeforeFirst s \<Longrightarrow> \<exists>t \<in> set xs. viewFact v t = None"
    unfolding fs(5) using hd_in_set by blast
  with gap full show "walkCompleteness n s = HistoryFull \<longleftrightarrow> (\<forall>t \<in> set xs. viewFact v t \<noteq> None)"
    by (auto simp: walkCompleteness_def)
  show "walkCompleteness n s = HistoryGapped \<longleftrightarrow>
      (\<exists>i j. i < j \<and> j < n \<and> viewFact v (xs ! i) \<noteq> None \<and> viewFact v (xs ! j) = None)"
    using fs(6) len by (simp add: walkCompleteness_def)
qed

text \<open>The summary \<open>SummarizeHoles\<close> returns when no refusal applies.\<close>

definition summaryOf :: "(8 word list \<Rightarrow> digest) \<Rightarrow> HistoryView \<Rightarrow> int \<Rightarrow> nat \<Rightarrow> nat \<Rightarrow> WindowSummary" where
  "summaryOf sha256 v e n lim =
     \<lparr>ws_Completeness = walkCompleteness n (summaryWalk v e n lim),
      ws_WindowStart = e - int (n - 1) * intervalSeconds (hv_requirement v), ws_WindowEnd = e,
      ws_ValidPositions = wk_valid (summaryWalk v e n lim), ws_RequiredPositions = n,
      ws_AnomalyCount = wk_anomalies (summaryWalk v e n lim),
      ws_AnomalyDigest = sha256 (wk_hashed (summaryWalk v e n lim))\<rparr>"

lemmas SummarizeHoles_summaryOf =
  SummarizeHoles_walk [folded summaryWalk_def, folded summaryOf_def]

lemma holes_bounded_step:
  assumes "length (wh_Missing (wk_holes s)) \<le> lim" "length (wh_Unusable (wk_holes s)) \<le> lim"
  shows "length (wh_Missing (wk_holes (visitPosition v lim t s))) \<le> lim"
    "length (wh_Unusable (wk_holes (visitPosition v lim t s))) \<le> lim"
  using assms by (simp_all add: visitPosition_def Let_def split: option.split)

lemma holes_bounded:
  "length (wh_Missing (wk_holes (fold (visitPosition v lim) xs walkInit))) \<le> lim"
  "length (wh_Unusable (wk_holes (fold (visitPosition v lim) xs walkInit))) \<le> lim"
proof -
  have "length (wh_Missing (wk_holes (fold (visitPosition v lim) xs walkInit))) \<le> lim
    \<and> length (wh_Unusable (wk_holes (fold (visitPosition v lim) xs walkInit))) \<le> lim"
    by (induction xs rule: rev_induct) (simp_all add: walkInit_def noHoles_def holes_bounded_step)
  then show "length (wh_Missing (wk_holes (fold (visitPosition v lim) xs walkInit))) \<le> lim"
    "length (wh_Unusable (wk_holes (fold (visitPosition v lim) xs walkInit))) \<le> lim" by auto
qed

end
