(* ===== verification/Window_Align.thy ===== *)
theory Window_Align
  imports Window_Correct
begin

text \<open>
  Correctness of \<open>Align\<close> and \<open>NewWindow\<close>: what the admitted requirements guarantee, and which
  facts survive a change of the Level layout.
\<close>

section \<open>Admitted requirements\<close>

lemma checkRequirement_None:
  "checkRequirement prev r = None \<longleftrightarrow>
     valid_requirement r \<and> (\<forall>p. prev = Some p \<longrightarrow> lr_LevelID r \<noteq> lr_LevelID p)"
  by (auto simp: valid_requirement_def checkRequirement_def split: option.splits)

lemma checkRequirements_spec:
  assumes "checkRequirements prev rs m = Inr m'"
    and "sorted_by lr_LevelID ((case prev of None \<Rightarrow> [] | Some p \<Rightarrow> [p]) @ rs)"
  shows "(\<forall>r \<in> set rs. valid_requirement r)
    \<and> ssorted_by lr_LevelID ((case prev of None \<Rightarrow> [] | Some p \<Rightarrow> [p]) @ rs)
    \<and> (\<forall>r \<in> set rs. m' (lr_LevelID r) = Some r)
    \<and> (\<forall>lid. lid \<notin> lr_LevelID ` set rs \<longrightarrow> m' lid = m lid)"
  using assms
proof (induction rs arbitrary: prev m)
  case Nil
  then show ?case by (auto split: option.splits)
next
  case (Cons r rs)
  from Cons.prems(1) have c: "checkRequirement prev r = None"
    and rest: "checkRequirements (Some r) rs (m(lr_LevelID r \<mapsto> r)) = Inr m'"
    by (auto split: option.splits)
  have srt: "sorted_by lr_LevelID ([r] @ rs)"
    using Cons.prems(2) by (auto split: option.splits)
  from Cons.IH [OF rest] srt have ih: "\<forall>r \<in> set rs. valid_requirement r"
    "ssorted_by lr_LevelID (r # rs)" "\<forall>r \<in> set rs. m' (lr_LevelID r) = Some r"
    "\<forall>lid. lid \<notin> lr_LevelID ` set rs \<longrightarrow> m' lid = (m(lr_LevelID r \<mapsto> r)) lid" by auto
  have "lr_LevelID r \<notin> lr_LevelID ` set rs" using ih(2) by auto
  then have "m' (lr_LevelID r) = Some r" using ih(4) by simp
  moreover have "ssorted_by lr_LevelID ((case prev of None \<Rightarrow> [] | Some p \<Rightarrow> [p]) @ r # rs)"
  proof (cases prev)
    case (Some p)
    with c Cons.prems(2) have "lr_LevelID p < lr_LevelID r"
      by (auto simp: checkRequirement_None less_le)
    with ih(2) Some show ?thesis by (auto intro: less_trans)
  qed (use ih(2) in simp)
  ultimately show ?case using c ih by (auto simp: checkRequirement_None)
qed

lemma normalizeRequirements_spec:
  assumes "normalizeRequirements reqs = Inr (normalized, byLevel)"
  shows "set normalized = set reqs" "ssorted_by lr_LevelID normalized"
    "\<forall>r \<in> set normalized. valid_requirement r \<and> byLevel (lr_LevelID r) = Some r"
proof -
  have n: "normalized = sort_key lr_LevelID reqs"
    and c: "checkRequirements None normalized Map.empty = Inr byLevel"
    using assms by (auto simp: normalizeRequirements_def Let_def split: sum.splits)
  have "sorted_by lr_LevelID ((case None of None \<Rightarrow> [] | Some p \<Rightarrow> [p]) @ normalized)" by (simp add: n)
  from checkRequirements_spec [OF c this]
  show "set normalized = set reqs" "ssorted_by lr_LevelID normalized"
    "\<forall>r \<in> set normalized. valid_requirement r \<and> byLevel (lr_LevelID r) = Some r"
    by (auto simp: n)
qed

definition levelOf :: "LevelRequirement \<Rightarrow> levelState" where
  "levelOf r = \<lparr>ls_levelID = lr_LevelID r,
     ls_detectFingerprint = the (decodeDigest32 (lr_DetectFingerprint r))\<rparr>"

lemma newLevelStates_eq:
  "\<forall>r \<in> set rs. valid_requirement r \<Longrightarrow> newLevelStates rs = Inr (map levelOf rs)"
  by (induction rs) (auto simp: levelOf_def dest: valid_requirementD(6))

section \<open>Moving the bits\<close>

lemma indexLevels_levelPos:
  assumes "ssorted_by ls_levelID ls"
  shows "indexLevels ls = levelPos ls"
proof
  fix lid
  show "indexLevels ls lid = levelPos ls lid"
    unfolding indexLevels_def
    using indexBy_start [OF ssorted_distinct [OF assms], of lid] levelPos_Some_iff [OF assms, of lid]
    by (metis not_Some_eq)
qed

text \<open>The fact a Level of the new layout takes over from an old point.\<close>

definition movedFact :: "levelState list \<Rightarrow> pointState \<Rightarrow> levelState \<Rightarrow> bool option" where
  "movedFact old p l = (case levelPos old (ls_levelID l) of
     None \<Rightarrow> None
   | Some b \<Rightarrow> if ls_detectFingerprint (old ! b) = ls_detectFingerprint l
               then bit_fact (ps_valid p) (ps_anomalous p) b else None)"

lemma alignBits_spec:
  assumes "alignBits old (levelPos old) p pos ls (v, a) = (v', a')"
    and "wf_bits n v a" and "pos + length ls \<le> n" and "\<forall>b \<ge> pos. \<not> bitSet v b"
  shows "wf_bits n v' a' \<and> (\<forall>b. bit_fact v' a' b =
    (if pos \<le> b \<and> b < pos + length ls then movedFact old p (ls ! (b - pos)) else bit_fact v a b))"
  using assms
proof (induction ls arbitrary: pos v a)
  case Nil
  then show ?case by auto
next
  case (Cons l ls)
  let ?x = "movedFact old p l"
  define v1 a1 where "v1 = (case ?x of None \<Rightarrow> v | Some _ \<Rightarrow> setBit v pos True)"
    and "a1 = (case ?x of None \<Rightarrow> a | Some anom \<Rightarrow> setBit a pos anom)"
  have rest: "alignBits old (levelPos old) p (Suc pos) ls (v1, a1) = (v', a')"
    using Cons.prems(1)
    by (auto simp: v1_def a1_def movedFact_def bit_fact_def split: option.splits if_splits)
  have bm: "wf_bitmap n v" "wf_bitmap n a" and pn: "pos < n" and np: "\<not> bitSet v pos"
    using Cons.prems by (auto simp: wf_bits_def)
  note sb = wf_bitmap_bitSet_setBit [OF bm(1) pn] wf_bitmap_bitSet_setBit [OF bm(2) pn]
  have wf1: "wf_bits n v1 a1"
    using Cons.prems(2) pn np by (auto simp: v1_def a1_def wf_bits_def sb split: option.splits)
  have f1: "bit_fact v1 a1 b = (if b = pos then ?x else bit_fact v a b)" for b
    using np by (auto simp: v1_def a1_def bit_fact_def sb split: option.splits)
  have "\<forall>b \<ge> Suc pos. \<not> bitSet v1 b"
    using Cons.prems(4) by (auto simp: v1_def sb split: option.splits)
  from Cons.IH [OF rest wf1 _ this] Cons.prems(3)
  have ih: "wf_bits n v' a'" "\<And>b. bit_fact v' a' b = (if Suc pos \<le> b \<and> b < Suc pos + length ls
      then movedFact old p (ls ! (b - Suc pos)) else bit_fact v1 a1 b)" by auto
  have "bit_fact v' a' b = (if pos \<le> b \<and> b < pos + length (l # ls)
      then movedFact old p ((l # ls) ! (b - pos)) else bit_fact v a b)" for b
    unfolding ih(2) f1 by (auto simp: nth_Cons' Suc_diff_Suc not_less_eq_eq)
  with ih(1) show ?case by blast
qed

lemma alignPoint_spec:
  assumes "ssorted_by ls_levelID old"
  shows "wf_bits (length new) (ps_valid (alignPoint old (levelPos old) new p))
           (ps_anomalous (alignPoint old (levelPos old) new p))"
    and "b < length new \<Longrightarrow> bit_fact (ps_valid (alignPoint old (levelPos old) new p))
           (ps_anomalous (alignPoint old (levelPos old) new p)) b = movedFact old p (new ! b)"
proof -
  let ?zero = "replicate (bitmapBytes (length new)) 0"
  obtain v a where al: "alignBits old (levelPos old) p 0 new (?zero, ?zero) = (v, a)" by fastforce
  have wf: "wf_bits (length new) ?zero ?zero" by (simp add: wf_bits_def)
  note sp = alignBits_spec [OF al wf]
  have sel: "ps_valid (alignPoint old (levelPos old) new p) = v"
    "ps_anomalous (alignPoint old (levelPos old) new p) = a"
    by (simp_all add: alignPoint_def Let_def al)
  show "wf_bits (length new) (ps_valid (alignPoint old (levelPos old) new p))
      (ps_anomalous (alignPoint old (levelPos old) new p))"
    unfolding sel using sp by simp
  show "b < length new \<Longrightarrow> bit_fact (ps_valid (alignPoint old (levelPos old) new p))
      (ps_anomalous (alignPoint old (levelPos old) new p)) b = movedFact old p (new ! b)"
    unfolding sel using sp by simp
qed

lemma alignPoint_time [simp]: "ps_sourceTime (alignPoint old ix new p) = ps_sourceTime p"
  by (simp add: alignPoint_def Let_def split: prod.splits)

section \<open>Align\<close>

text \<open>The fingerprint a layout has for a Level.\<close>

definition levelFingerprint :: "levelState list \<Rightarrow> nat \<Rightarrow> digest option" where
  "levelFingerprint levels lid =
     map_option (\<lambda>b. ls_detectFingerprint (levels ! b)) (levelPos levels lid)"

text \<open>The facts of a window after a change of layout, Level by Level.\<close>

lemma realigned_facts:
  assumes wf: "wf_layout w" and new: "ssorted_by ls_levelID newLevels"
  defines "pts \<equiv> filter (\<lambda>p. anyBit (ps_valid p)) (map (alignPoint (w_levels w) (levelPos (w_levels w)) newLevels) (w_points w))"
  assumes w': "w_levels w' = newLevels" "w_points w' = pts"
  shows "wf_layout w'"
    and "windowFact w' lid t = (if levelFingerprint newLevels lid = levelFingerprint (w_levels w) lid
           then windowFact w lid t else None)"
proof -
  let ?old = "w_levels w" and ?al = "alignPoint (w_levels w) (levelPos (w_levels w)) newLevels"
  note olds = wf_layoutD(1) [OF wf]
  have s: "ssorted_by ps_sourceTime (map ?al (w_points w))"
    using wf_layoutD(2) [OF wf] by (simp add: comp_def)
  show "wf_layout w'"
    unfolding wf_layout_def w' pts_def using new s
    by (auto simp: wf_point_def intro!: ssorted_filter alignPoint_spec(1) [OF olds])
  have km: "key_map ps_sourceTime (w_points w') t =
      (case map_option ?al (key_map ps_sourceTime (w_points w) t) of
         Some q \<Rightarrow> if anyBit (ps_valid q) then Some q else None | None \<Rightarrow> None)"
    unfolding w' pts_def key_map_filter [OF s] by (subst key_map_map) simp_all
  have none: "\<not> anyBit (ps_valid q) \<Longrightarrow> bit_fact (ps_valid q) (ps_anomalous q) b = None" for q b
    by (auto simp: anyBit_iff bit_fact_def)
  have pf: "pointFact w' b t = (case key_map ps_sourceTime (w_points w) t of
      None \<Rightarrow> None | Some p \<Rightarrow> movedFact ?old p (newLevels ! b))" if "b < length newLevels" for b
  proof (cases "key_map ps_sourceTime (w_points w) t")
    case (Some p)
    note f = alignPoint_spec(2) [OF olds that, of p]
    show ?thesis
    proof (cases "anyBit (ps_valid (?al p))")
      case False
      from none [OF False, of b] f km Some False show ?thesis by (auto simp: pointFact_def)
    qed (use km Some f in \<open>simp add: pointFact_def\<close>)
  qed (use km in \<open>simp add: pointFact_def\<close>)
  show "windowFact w' lid t = (if levelFingerprint newLevels lid = levelFingerprint ?old lid
      then windowFact w lid t else None)"
  proof (cases "levelPos newLevels lid")
    case None
    then show ?thesis
      by (auto simp: windowFact_def w' levelFingerprint_def)
  next
    case (Some b)
    then have b: "b < length newLevels" "ls_levelID (newLevels ! b) = lid"
      by (auto simp: levelPos_Some_iff [OF new])
    show ?thesis
      using Some b pf [OF b(1)]
      by (auto simp: windowFact_def pointFact_def w' levelFingerprint_def movedFact_def split: option.splits)
  qed
qed

lemma sameLevelLayout_iff: "sameLevelLayout xs ys \<longleftrightarrow> xs = ys"
  unfolding sameLevelLayout_def list_all_iff list_eq_iff_nth_eq by auto

lemma alignWindow_shape:
  assumes old: "ssorted_by ls_levelID (w_levels w)" and al: "alignWindow w reqs = Inr w'"
    and nr: "normalizeRequirements reqs = Inr (normalized, byLevel)"
    and nl: "newLevelStates normalized = Inr newLevels"
  shows "w_levels w' = newLevels \<and> w_requirements w' = byLevel \<and>
      (if w_levels w = newLevels then w_points w' = w_points w
       else w_points w' = filter (\<lambda>p. anyBit (ps_valid p))
              (map (alignPoint (w_levels w) (levelPos (w_levels w)) newLevels) (w_points w)))"
proof (cases "w_levels w = newLevels")
  case True
  with al nr nl have "w' = w\<lparr>w_requirements := byLevel\<rparr>"
    by (simp add: alignWindow_def sameLevelLayout_iff)
  with True show ?thesis by simp
next
  case False
  with al nr nl have "w' = \<lparr>w_levels = newLevels,
      w_points = filter (\<lambda>p. anyBit (ps_valid p))
        (map (alignPoint (w_levels w) (levelPos (w_levels w)) newLevels) (w_points w)),
      w_requirements = byLevel, w_changed = True\<rparr>"
    by (simp add: alignWindow_def sameLevelLayout_iff Let_def indexLevels_levelPos [OF old])
  with False show ?thesis by simp
qed

lemma alignWindow_spec:
  assumes wf: "wf_layout w" and al: "alignWindow w reqs = Inr w'"
  shows "wf_window w'"
    and "windowFact w' lid t = (if levelFingerprint (w_levels w') lid = levelFingerprint (w_levels w) lid
           then windowFact w lid t else None)"
    and "set (map ls_levelID (w_levels w')) = lr_LevelID ` set reqs"
proof -
  from al obtain normalized byLevel where nr: "normalizeRequirements reqs = Inr (normalized, byLevel)"
    by (auto simp: alignWindow_def split: sum.splits)
  note n = normalizeRequirements_spec [OF nr]
  have nl: "newLevelStates normalized = Inr (map levelOf normalized)"
    using n(3) by (intro newLevelStates_eq) blast
  let ?new = "map levelOf normalized"
  have new: "ssorted_by ls_levelID ?new" using n(2) by (simp add: comp_def levelOf_def)
  note w' = alignWindow_shape [OF wf_layoutD(1) [OF wf] al nr nl]
  have fct: "wf_layout w' \<and> windowFact w' lid t =
      (if levelFingerprint (w_levels w') lid = levelFingerprint (w_levels w) lid
       then windowFact w lid t else None)" for lid t
  proof (cases "w_levels w = ?new")
    case True
    then have "w_levels w' = w_levels w" "w_points w' = w_points w" using w' by auto
    then have "wf_layout w' = wf_layout w" "windowFact w' lid t = windowFact w lid t"
      by (simp_all only: wf_layout_def windowFact_def pointFact_def)
    with wf \<open>w_levels w' = w_levels w\<close> show ?thesis by simp
  next
    case False
    with w' have ww: "w_levels w' = ?new" "w_points w' = filter (\<lambda>p. anyBit (ps_valid p))
        (map (alignPoint (w_levels w) (levelPos (w_levels w)) ?new) (w_points w))" by auto
    from realigned_facts [OF wf new ww] ww(1) show ?thesis by simp
  qed
  then show "windowFact w' lid t = (if levelFingerprint (w_levels w') lid = levelFingerprint (w_levels w) lid
      then windowFact w lid t else None)" by blast
  show "wf_window w'"
    using fct n(3) w' by (auto simp: wf_window_def levelOf_def)
  show "set (map ls_levelID (w_levels w')) = lr_LevelID ` set reqs"
    using w' n(1) by (auto simp: levelOf_def image_image)
qed

lemma wf_layout_empty: "wf_layout emptyWindow"
  by (simp add: wf_layout_def emptyWindow_def)

lemma NewWindow_spec:
  assumes "NewWindow reqs = Inr w"
  shows "wf_window w" "windowFact w lid t = None"
proof -
  from assms obtain w0 where a: "alignWindow emptyWindow reqs = Inr w0" and w: "w = w0\<lparr>w_changed := False\<rparr>"
    by (auto simp: NewWindow_def Align_def split: sum.splits)
  have "windowFact emptyWindow lid t = None" by (simp add: windowFact_def emptyWindow_def levelPos_def)
  then have "windowFact w0 lid t = None" using alignWindow_spec(2) [OF wf_layout_empty a] by simp
  moreover have "w_levels w = w_levels w0" "w_points w = w_points w0"
    "w_requirements w = w_requirements w0" by (simp_all add: w)
  ultimately show "wf_window w" "windowFact w lid t = None"
    using alignWindow_spec(1) [OF wf_layout_empty a]
    unfolding wf_window_def wf_layout_def windowFact_def pointFact_def by metis+
qed

end
