(* ===== verification/Window_Props.thy ===== *)
theory Window_Props
  imports Window_View Window_Align
begin

text \<open>
  What the runtime state window guarantees to its callers: the life cycle of a window as a
  step relation (\<open>NewWindow\<close>, \<open>Align\<close>, \<open>ApplyContext\<close>, \<open>MarkPersisted\<close>), its invariant, and the
  contracts of the operations and of the views taken from it.
\<close>

section \<open>Life cycle\<close>

inductive windowReach :: "Window \<Rightarrow> bool" where
  wr_new: "NewWindow reqs = Inr w \<Longrightarrow> windowReach w"
| wr_align: "windowReach w \<Longrightarrow> Align (Some w) reqs = Inr w' \<Longrightarrow> windowReach w'"
| wr_apply: "windowReach w \<Longrightarrow> ApplyContext (Some w) pts = Inr (results, w') \<Longrightarrow> windowReach w'"
| wr_persisted: "windowReach w \<Longrightarrow> MarkPersisted (Some w) = Some w' \<Longrightarrow> windowReach w'"

lemma wf_window_cong:
  assumes "w_levels w' = w_levels w" "w_points w' = w_points w" "w_requirements w' = w_requirements w"
  shows "wf_window w' = wf_window w"
  unfolding wf_window_def wf_layout_def using assms by simp

lemma applyWindow_wf:
  assumes wf: "wf_window w" and ap: "applyWindow w pts = Inr (results, w')"
  shows "wf_window w'" "w_levels w' = w_levels w" "w_requirements w' = w_requirements w"
proof -
  from applyWindow_frame [OF wf_window_layout [OF wf] ap]
  show "wf_window w'" "w_levels w' = w_levels w" "w_requirements w' = w_requirements w"
    using wf by (auto simp: wf_window_def)
qed

lemma windowReach_wf: "windowReach w \<Longrightarrow> wf_window w"
proof (induction rule: windowReach.induct)
  case (wr_align w reqs w')
  then show ?case by (auto simp: Align_def intro: alignWindow_spec(1) wf_window_layout)
next
  case (wr_apply w pts results w')
  then show ?case by (auto simp: ApplyContext_def intro: applyWindow_wf(1))
next
  case (wr_persisted w w')
  then have "w' = w\<lparr>w_changed := False\<rparr>" by (simp add: MarkPersisted_def)
  with wr_persisted.IH show ?case using wf_window_cong [of w' w] by simp
qed (rule NewWindow_spec(1))

lemma applyWindow_windowFact:
  assumes wf: "wf_window w" and ap: "applyWindow w pts = Inr (results, w')"
    and lid: "lid \<in> ls_levelID ` set (w_levels w)"
  shows "windowFact w' lid t = Some x \<longleftrightarrow> retained w pts lid t \<and>
      (windowFact w lid t = Some x \<or> (\<exists>k < length pts. accepted (results ! k)
          \<and> sp_SourceTime (pts ! k) = t \<and> statesFact (pts ! k) lid x))"
proof -
  note lay = wf_window_layout [OF wf]
  from lid obtain b where b: "b < length (w_levels w)" "lid = ls_levelID (w_levels w ! b)"
    by (auto simp: in_set_conv_nth)
  then have lp: "levelPos (w_levels w) lid = Some b" by (simp add: levelPos_Some_iff [OF wf_layoutD(1) [OF lay]])
  note sp = applyWindow_pointFact [OF lay ap b(1)]
  show ?thesis using sp lp b(2) applyWindow_wf(2) [OF wf ap] by (simp add: windowFact_def)
qed

section \<open>Properties\<close>

text \<open>A Level evaluated every minute over two points, and a batch for it.\<close>

definition exampleFingerprint :: string where
  "exampleFingerprint = replicate 64 (CHR ''a'')"

definition exampleRequirement :: LevelRequirement where
  "exampleRequirement = \<lparr>lr_LevelID = 1, lr_DetectFingerprint = exampleFingerprint,
     lr_RequiredPoints = 2, lr_RetentionPoints = 3, lr_EvaluationInterval = 60 * second,
     lr_LatenessTolerance = 0\<rparr>"

definition examplePoint :: "char \<Rightarrow> int \<Rightarrow> LevelFactResult \<Rightarrow> StatePoint" where
  "examplePoint c t r = \<lparr>sp_RecordID = replicate 64 c, sp_SourceTime = t,
     sp_Levels = [\<lparr>pf_LevelID = 1, pf_DetectFingerprint = exampleFingerprint, pf_Result = r\<rparr>]\<rparr>"

definition exampleBatch :: "StatePoint list" where
  "exampleBatch = [examplePoint CHR ''1'' 120 LevelFactAnomalous, examplePoint CHR ''2'' 60 LevelFactNormal]"

definition exampleEmpty :: Window where
  "exampleEmpty = \<lparr>w_levels = [\<lparr>ls_levelID = 1, ls_detectFingerprint = replicate 32 0xaa\<rparr>],
     w_points = [], w_requirements = [1 \<mapsto> exampleRequirement], w_changed = False\<rparr>"

definition exampleWindow :: Window where
  "exampleWindow = exampleEmpty\<lparr>w_points := [
     \<lparr>ps_sourceTime = 60, ps_recordDigest = replicate 16 0x22, ps_valid = [1], ps_anomalous = [0]\<rparr>,
     \<lparr>ps_sourceTime = 120, ps_recordDigest = replicate 16 0x11, ps_valid = [1], ps_anomalous = [1]\<rparr>],
     w_changed := True\<rparr>"

definition exampleResults :: "PointResult list" where
  "exampleResults = map (\<lambda>p. \<lparr>pr_RecordID = sp_RecordID p, pr_SourceTime = sp_SourceTime p,
     pr_Status = PointApplied, pr_ReasonCode = [], pr_Late = False\<rparr>) exampleBatch"

lemma decode_replicate:
  assumes "isSHA256Hex (replicate 64 c)"
  shows "decodeDigest32 (replicate 64 c)
    = Some (replicate 32 (push_bit 4 (lowerHexNibble c) OR lowerHexNibble c))"
proof -
  have "map (\<lambda>i. push_bit 4 (lowerHexNibble (replicate 64 c ! (2 * i)))
        OR lowerHexNibble (replicate 64 c ! (2 * i + 1))) [0..<32]
    = map (\<lambda>i. push_bit 4 (lowerHexNibble c) OR lowerHexNibble c) [0..<32]"
    by (intro map_cong) auto
  with assms show ?thesis
    unfolding decodeDigest32_def
    by (simp only: if_True not_True_eq_False if_False) (simp add: map_replicate_const)
qed

lemma decode_example:
  "decodeDigest32 (replicate 64 CHR ''a'') = Some (replicate 32 0xaa)"
  "decodeDigest32 (replicate 64 CHR ''1'') = Some (replicate 32 0x11)"
  "decodeDigest32 (replicate 64 CHR ''2'') = Some (replicate 32 0x22)"
  unfolding hex_replicate [THEN decode_replicate]
  by (simp_all add: lowerHexNibble_def less_eq_char_def push_bit_eq_mult)

lemmas example_defs = exampleEmpty_def exampleWindow_def exampleResults_def exampleBatch_def
  examplePoint_def exampleRequirement_def exampleFingerprint_def second_def

lemmas go_eval = Let_def u32_sub_def i64_def maxInt64_def signed_divide_int_def signed_modulo_int_def

lemma exampleEmpty_new: "NewWindow [exampleRequirement] = Inr exampleEmpty"
  by (simp add: example_defs go_eval decode_example NewWindow_def Align_def alignWindow_def
      normalizeRequirements_def emptyWindow_def sameLevelLayout_def checkRequirement_def
      intervalSeconds_def)

lemma exampleWindow_apply:
  "ApplyContext (Some exampleEmpty) exampleBatch = Inr (exampleResults, exampleWindow)"
  by (simp add: example_defs go_eval search_simps decode_example ApplyContext_def applyWindow_def
      latestSourceTime_def preparePoint_def bitmapBytes_def setBit_def bitSet_def anyBit_def
      outOfRetention_def applyCandidate_def factsConflict_def prune_def retentionCutoff_def
      requirementOf_def intervalSeconds_def)

lemma exampleWindow_reach: "windowReach exampleEmpty" "windowReach exampleWindow"
  by (blast intro: windowReach.intros exampleEmpty_new exampleWindow_apply)+

lemma exampleWindow_facts:
  "windowFact exampleWindow 1 60 = Some False" "windowFact exampleWindow 1 120 = Some True"
  "windowFact exampleWindow 1 0 = None" "windowFact exampleEmpty 1 t = None"
  by (simp_all add: windowFact_def pointFact_def levelPos_def key_map_def bit_fact_def bitSet_def
      exampleEmpty_def exampleWindow_def)

definition exampleView :: HistoryView where
  "exampleView = \<lparr>hv_window = exampleWindow, hv_levelIndex = 0, hv_requirement = exampleRequirement\<rparr>"

lemma exampleView_History: "History (Some exampleWindow) 1 = Some exampleView"
  by (simp add: History_def exampleView_def exampleWindow_def exampleEmpty_def Let_def search_simps)

text \<open>
  C1: every window that any sequence of \<open>NewWindow\<close>, \<open>Align\<close>, \<open>ApplyContext\<close> and
  \<open>MarkPersisted\<close> calls produces is well formed: Levels and points strictly sorted, bitmaps of
  the layout's size, anomalous bits only under valid ones, no point without a fact, and an
  admitted requirement for every Level; and \<open>History\<close> finds every one of its Levels.
\<close>

theorem window_invariant:
  assumes "windowReach w"
  shows "wf_window w \<and> (\<forall>l \<in> set (w_levels w). History (Some w) (ls_levelID l) \<noteq> None)"
  using windowReach_wf [OF assms] History_exists [of w] by (auto simp: not_None_eq)

theorem window_invariant_witness:
  "wf_window exampleWindow \<and> length (w_points exampleWindow) = 2"
  using window_invariant [OF exampleWindow_reach(2)] by (simp add: exampleWindow_def)

text \<open>
  C2: the facts after a batch, exactly.  For a Level of the window, \<open>ApplyContext\<close> leaves a fact
  at a source time iff the time is inside the Level's retention horizon behind the latest source
  time, and the fact was there or a point the call reports as APPLIED or NOOP stated it.
\<close>

theorem ApplyContext_facts:
  assumes "windowReach w" and "ApplyContext (Some w) pts = Inr (results, w')"
    and "lid \<in> ls_levelID ` set (w_levels w)"
  shows "windowFact w' lid t = Some x \<longleftrightarrow> retained w pts lid t \<and>
      (windowFact w lid t = Some x \<or> (\<exists>k < length pts. accepted (results ! k)
          \<and> sp_SourceTime (pts ! k) = t \<and> statesFact (pts ! k) lid x))"
  using assms applyWindow_windowFact [OF windowReach_wf [OF assms(1)]]
  by (simp add: ApplyContext_def)

theorem ApplyContext_facts_witness:
  "retained exampleEmpty exampleBatch 1 120
     \<and> (\<exists>k < length exampleBatch. accepted (exampleResults ! k)
          \<and> sp_SourceTime (exampleBatch ! k) = 120 \<and> statesFact (exampleBatch ! k) 1 True)"
  using ApplyContext_facts [OF exampleWindow_reach(1) exampleWindow_apply, of 1 120 True]
  unfolding exampleWindow_facts by (simp add: exampleEmpty_def)

text \<open>
  C3: \<open>Align\<close> to another Level layout keeps a Level's facts exactly when the Level is in both
  layouts with the same detect fingerprint, drops them otherwise, invents none, and leaves a
  well-formed window whose Levels are those of the requirements.
\<close>

theorem Align_facts:
  assumes "windowReach w" and "Align (Some w) reqs = Inr w'"
  shows "windowFact w' lid t = (if levelFingerprint (w_levels w') lid = levelFingerprint (w_levels w) lid
           then windowFact w lid t else None)
    \<and> wf_window w' \<and> ls_levelID ` set (w_levels w') = lr_LevelID ` set reqs"
  using assms alignWindow_spec [OF wf_window_layout [OF windowReach_wf [OF assms(1)]], of reqs w']
  by (simp add: Align_def)

theorem Align_facts_witness:
  "windowFact (exampleWindow\<lparr>w_requirements := [1 \<mapsto> exampleRequirement]\<rparr>) 1 120 = Some True"
proof -
  have "Align (Some exampleWindow) [exampleRequirement]
      = Inr (exampleWindow\<lparr>w_requirements := [1 \<mapsto> exampleRequirement]\<rparr>)"
    by (simp add: example_defs go_eval decode_example Align_def alignWindow_def
        normalizeRequirements_def sameLevelLayout_def checkRequirement_def intervalSeconds_def)
  from Align_facts [OF exampleWindow_reach(2) this, of 1 120]
  show ?thesis unfolding exampleWindow_facts by simp
qed

text \<open>
  For an admitted requirement the retention cutoff is computed without wrap-around: it is
  the latest source time minus the exact horizon, or 0 when the horizon reaches before 0.
\<close>

theorem retentionCutoff_no_wrap:
  assumes "checkRequirement None r = None" and "lr_RetentionPoints r \<le> maxUint32"
    and "latest \<le> maxInt64"
  shows "retentionCutoff latest r
    = max 0 (latest - (int (lr_RetentionPoints r - 1) * intervalSeconds r + lr_LatenessTolerance r div second))"
  using retentionCutoff_exact [of r latest] assms by (simp add: valid_requirement_def horizonSeconds_def)

theorem retentionCutoff_no_wrap_witness: "retentionCutoff 1000 exampleRequirement = 880"
proof -
  have "checkRequirement None exampleRequirement = None"
    by (simp add: example_defs go_eval decode_example checkRequirement_def intervalSeconds_def)
  from retentionCutoff_no_wrap [OF this, of 1000] show ?thesis
    by (simp add: example_defs go_eval maxUint32_def intervalSeconds_def)
qed

text \<open>
  C4: the readers of a view count exactly.  For a view of a Level of a reachable window,
  \<open>CountAnomalies\<close> and \<open>CountObserved\<close> are the numbers of anomalous and of held facts of that Level
  between the two times, and \<open>FirstAnomaly\<close> is the earliest anomalous one, if any.
\<close>

theorem view_counts_exact:
  assumes "windowReach w" and "History (Some w) lid = Some v"
  shows "CountAnomalies v a b = card {t. a \<le> t \<and> t \<le> b \<and> windowFact w lid t = Some True}
    \<and> CountObserved v a b = card {t. a \<le> t \<and> t \<le> b \<and> windowFact w lid t \<noteq> None}
    \<and> (snd (FirstAnomaly v a b) \<longleftrightarrow> 0 < CountAnomalies v a b)
    \<and> (snd (FirstAnomaly v a b) \<longrightarrow>
         is_arg_min id (\<lambda>t. a \<le> t \<and> t \<le> b \<and> windowFact w lid t = Some True) (fst (FirstAnomaly v a b)))"
proof -
  note h = History_spec [OF windowReach_wf [OF assms(1)] assms(2)]
  have "0 < CountAnomalies v a b \<longleftrightarrow> (\<exists>t. a \<le> t \<and> t \<le> b \<and> viewFact v t = Some True)"
    unfolding CountAnomalies_card [OF h(1)] card_gt_0_iff using finite_viewFacts by auto
  with FirstAnomaly_spec [OF h(1), of a b] CountAnomalies_card [OF h(1)] CountObserved_card [OF h(1)]
  show ?thesis unfolding h(2) is_arg_min_linorder by simp
qed

theorem view_counts_exact_witness:
  "CountAnomalies exampleView 0 120 = card {t. 0 \<le> t \<and> t \<le> 120 \<and> windowFact exampleWindow 1 t = Some True}
     \<and> FirstAnomaly exampleView 0 120 = (120, True)"
  using view_counts_exact [OF exampleWindow_reach(2) exampleView_History, of 0 120]
  by (simp add: FirstAnomaly_def ForEachAnomaly_def exampleView_def exampleWindow_def Let_def
      search_simps bitSet_def)

text \<open>
  Summarising a window of \<open>n\<close> required positions that fits the retention and the time line
  returns, and grades it by the facts held at the \<open>n\<close> expected positions: FULL iff every one
  has a fact, GAPPED iff a position without one follows a position with one, WARMING otherwise.
\<close>

theorem Summarize_grades:
  fixes lim :: nat
  assumes "windowReach w" and "History (Some w) lid = Some v"
    and "0 < n" and "n \<le> lr_RetentionPoints (hv_requirement v)"
    and "lr_RetentionPoints (hv_requirement v) \<le> maxUint32" and "endTime \<le> maxInt64"
    and "int (n - 1) * intervalSeconds (hv_requirement v) \<le> endTime"
  defines "position k \<equiv> endTime - int (n - 1 - k) * intervalSeconds (hv_requirement v)"
  shows "\<exists>summary. Summarize sha256 v endTime n = Some summary
    \<and> (ws_Completeness summary = HistoryFull \<longleftrightarrow> (\<forall>k < n. windowFact w lid (position k) \<noteq> None))
    \<and> (ws_Completeness summary = HistoryGapped \<longleftrightarrow> (\<exists>i j. i < j \<and> j < n
         \<and> windowFact w lid (position i) \<noteq> None \<and> windowFact w lid (position j) = None))"
proof -
  note h = History_spec [OF windowReach_wf [OF assms(1)] assms(2)]
  have pos: "k < n \<Longrightarrow> summaryPositions v endTime n ! k = position k" for k
    by (simp add: summaryPositions_nth position_def)
  have "Summarize sha256 v endTime n = Some (summaryOf sha256 v endTime n 0)"
    using SummarizeHoles_summaryOf [OF h(1) assms(3-7), of sha256 0] by (simp add: Summarize_def)
  moreover have "ws_Completeness (summaryOf sha256 v endTime n 0) = HistoryFull \<longleftrightarrow>
      (\<forall>k < n. windowFact w lid (position k) \<noteq> None)"
    using walkCompleteness_spec(1) [OF h(1) assms(3), of 0 endTime]
    by (simp add: summaryOf_def summaryWalk_def h(2) all_set_conv_all_nth pos)
  moreover have "ws_Completeness (summaryOf sha256 v endTime n 0) = HistoryGapped \<longleftrightarrow>
      (\<exists>i j. i < j \<and> j < n \<and> windowFact w lid (position i) \<noteq> None \<and> windowFact w lid (position j) = None)"
    using walkCompleteness_spec(2) [OF h(1) assms(3), of 0 endTime]
    by (simp add: summaryOf_def summaryWalk_def h(2) pos cong: conj_cong)
  ultimately show ?thesis by blast
qed

theorem Summarize_grades_witness:
  "\<exists>summary. Summarize (\<lambda>_. []) exampleView 120 2 = Some summary \<and> ws_Completeness summary = HistoryFull"
proof -
  have "\<forall>k < (2::nat). windowFact exampleWindow 1 (120 - int (2 - 1 - k) * 60) \<noteq> None"
    using exampleWindow_facts by (auto simp: less_2_cases_iff)
  with Summarize_grades [OF exampleWindow_reach(2) exampleView_History, of 2 120 "\<lambda>_. []"]
  show ?thesis
    by (auto simp: exampleView_def example_defs go_eval intervalSeconds_def maxUint32_def)
qed

text \<open>
  The numbers of a summary add up.  The valid positions, the missing ones and the unusable
  ones are together the required positions; the valid and anomalous counts are the numbers of
  expected positions with a fact and with an anomalous fact.
\<close>

theorem SummarizeHoles_counts:
  fixes lim :: nat
  assumes "windowReach w" and "History (Some w) lid = Some v"
    and "0 < n" and "n \<le> lr_RetentionPoints (hv_requirement v)"
    and "lr_RetentionPoints (hv_requirement v) \<le> maxUint32" and "endTime \<le> maxInt64"
    and "int (n - 1) * intervalSeconds (hv_requirement v) \<le> endTime"
  defines "position k \<equiv> endTime - int (n - 1 - k) * intervalSeconds (hv_requirement v)"
  shows "\<exists>summary holes. SummarizeHoles sha256 v endTime n lim = Some (summary, holes)
    \<and> ws_ValidPositions summary + wh_MissingTotal holes + wh_UnusableTotal holes = n
    \<and> ws_ValidPositions summary = card {k. k < n \<and> windowFact w lid (position k) \<noteq> None}
    \<and> ws_AnomalyCount summary = card {k. k < n \<and> windowFact w lid (position k) = Some True}
    \<and> length (wh_Missing holes) \<le> lim \<and> length (wh_Unusable holes) \<le> lim"
proof -
  note h = History_spec [OF windowReach_wf [OF assms(1)] assms(2)]
  let ?xs = "summaryPositions v endTime n"
  have pos: "k < n \<Longrightarrow> ?xs ! k = position k" for k
    by (simp add: summaryPositions_nth position_def)
  have cnt: "length (filter P ?xs) = card {k. k < n \<and> P (position k)}" for P
    unfolding length_filter_conv_card using pos by (intro arg_cong [where f = card]) auto
  note fs = fold_visit_spec [OF h(1), of lim ?xs, folded summaryWalk_def]
  have "length (filter (\<lambda>t. viewFact v t \<noteq> None) ?xs) + length (filter (\<lambda>t. viewFact v t = None) ?xs) = n"
    using sum_length_filter_compl [of "\<lambda>t. viewFact v t \<noteq> None" ?xs] by simp
  moreover have "wk_valid (summaryWalk v endTime n lim) = card {k. k < n \<and> windowFact w lid (position k) \<noteq> None}"
    "wk_anomalies (summaryWalk v endTime n lim) = card {k. k < n \<and> windowFact w lid (position k) = Some True}"
    unfolding fs(2,3) cnt h(2) by simp_all
  moreover note SummarizeHoles_summaryOf [OF h(1) assms(3-7), of sha256 lim] fs(2,4)
    holes_bounded [of v lim ?xs, folded summaryWalk_def]
  ultimately show ?thesis by (simp add: summaryOf_def)
qed

theorem SummarizeHoles_counts_witness:
  "\<exists>summary holes. SummarizeHoles (\<lambda>_. []) exampleView 120 2 5 = Some (summary, holes)
     \<and> ws_ValidPositions summary + wh_MissingTotal holes + wh_UnusableTotal holes = 2"
  using SummarizeHoles_counts [OF exampleWindow_reach(2) exampleView_History, of 2 120 "\<lambda>_. []" 5]
  by (auto simp: exampleView_def example_defs go_eval intervalSeconds_def maxUint32_def)

end
