(* ===== verification/Codec.thy ===== *)
theory Codec
  imports Bitmap
begin

unbundle bit_operations_syntax

text \<open>
  The size bounds and the variable-length integers of \<open>state/codec.go\<close>.  A Go \<open>int\<close> is a 64-bit
  integer; every sum and product the code forms is wrapped with \<open>i64\<close>, and the guards are shown
  to keep them in range.  \<open>binary.PutUvarint\<close> and \<open>binary.Uvarint\<close> of \<open>encoding/binary\<close> are
  translated as the two loops they are.
\<close>

datatype CodecError =
    ShapeNegative | StateBudget | CountAndBudgetNotPositive | TruncatedVarint | OverflowingVarint

section \<open>Decimal text\<close>

text \<open>\<open>strconv.Itoa\<close> and \<open>strconv.FormatInt\<close> in base 10, of a number that is not negative.\<close>

fun formatNat :: "nat \<Rightarrow> string" where
  "formatNat n = (if n < 10 then [char_of (48 + n)] else formatNat (n div 10) @ [char_of (48 + n mod 10)])"

declare formatNat.simps [simp del]

lemma formatNat_nonempty: "0 < length (formatNat n)"
  by (simp add: formatNat.simps [of n])

lemma formatNat_mono: "m \<le> n \<Longrightarrow> length (formatNat m) \<le> length (formatNat n)"
proof (induction n arbitrary: m rule: formatNat.induct)
  case (1 n)
  show ?case
  proof (cases "n < 10")
    case True
    with "1.prems" show ?thesis by (simp add: formatNat.simps [of n] formatNat.simps [of m])
  next
    case False
    have "m div 10 \<le> n div 10" using "1.prems" by (rule div_le_mono)
    with "1.IH" [OF False] False formatNat_nonempty [of "n div 10"] show ?thesis
      by (cases "m < 10") (simp_all add: formatNat.simps [of n] formatNat.simps [of m])
  qed
qed

lemma formatNat_width: "n < 10 ^ k \<Longrightarrow> 0 < k \<Longrightarrow> length (formatNat n) \<le> k"
proof (induction k arbitrary: n)
  case (Suc k)
  show ?case
  proof (cases "n < 10")
    case False
    with Suc.prems have "n div 10 < 10 ^ k" by (simp add: less_mult_imp_div_less mult.commute)
    moreover have "0 < k" using False Suc.prems by (cases k) auto
    ultimately show ?thesis using Suc.IH [of "n div 10"] False by (simp add: formatNat.simps [of n])
  qed (simp add: formatNat.simps [of n])
qed simp

section \<open>Variable-length integers\<close>

text \<open>\<open>binary.PutUvarint\<close>: seven bits a byte, the lowest first, the top bit marking a byte that is not the last.\<close>

function putUvarint :: "64 word \<Rightarrow> 8 word list" where
  "putUvarint x = (if x < 0x80 then [ucast x] else (ucast x OR 0x80) # putUvarint (drop_bit 7 x))"
  by pat_completeness auto
termination
proof (relation "measure unat")
  fix x :: "64 word"
  assume "\<not> x < 0x80"
  then have "0x80 \<le> unat x" by (simp add: word_less_nat_alt)
  then have "unat x div 128 < unat x" by simp
  then show "(drop_bit 7 x, x) \<in> measure unat"
    by (simp only: in_measure unat_drop_bit_eq) (simp only: drop_bit_eq_div, simp)
qed simp

declare putUvarint.simps [simp del]

fun uvarintLoop :: "nat \<Rightarrow> 64 word \<Rightarrow> nat \<Rightarrow> 8 word list \<Rightarrow> 64 word \<times> int" where
  "uvarintLoop i x s [] = (0, 0)"
| "uvarintLoop i x s (b # bs) =
     (if i = 10 then (0, - (int i + 1))
      else if b < 0x80
      then (if i = 9 \<and> b > 1 then (0, - (int i + 1)) else (x OR push_bit s (ucast b), int i + 1))
      else uvarintLoop (i + 1) (x OR push_bit s (ucast (b AND 0x7f))) (s + 7) bs)"

text \<open>\<open>binary.Uvarint\<close>: the value and the number of bytes read; 0 for too few, negative for overflow.\<close>

definition uvarint :: "8 word list \<Rightarrow> 64 word \<times> int" where
  "uvarint buf = uvarintLoop 0 0 0 buf"

definition appendUvarint :: "8 word list \<Rightarrow> 64 word \<Rightarrow> 8 word list" where
  "appendUvarint destination v = destination @ putUvarint v"

definition consumeUvarint :: "8 word list \<Rightarrow> CodecError + (64 word \<times> 8 word list)" where
  "consumeUvarint source =
     (let (v, cnt) = uvarint source
      in if cnt = 0 then Inl TruncatedVarint
         else if cnt < 0 then Inl OverflowingVarint
         else Inr (v, drop (nat cnt) source))"

section \<open>Size bounds\<close>

definition RuntimeEnvelopeUpperBoundV2 :: "int \<Rightarrow> int \<Rightarrow> CodecError + int" where
  "RuntimeEnvelopeUpperBoundV2 levelCount pointCount =
     (if levelCount < 0 \<or> pointCount < 0 then Inl ShapeNegative
      else
        (let envelopeOverhead = 4 * 2 ^ 10; perLevelState = 512; perPointFixed = 126; perPointPerLevel = 123
         in if levelCount > (maxInt64 - envelopeOverhead) sdiv perLevelState then Inl StateBudget
            else
              (let base = i64 (envelopeOverhead + i64 (levelCount * perLevelState))
               in if levelCount > (maxInt64 - perPointFixed) sdiv perPointPerLevel then Inl StateBudget
                  else
                    (let perPoint = i64 (perPointFixed + i64 (levelCount * perPointPerLevel))
                     in if pointCount > i64 (maxInt64 - base) sdiv perPoint then Inl StateBudget
                        else Inr (i64 (base + i64 (pointCount * perPoint)))))))"

definition MaxVarintLen64 :: int where "MaxVarintLen64 = 10"

definition MaxLegacyRecordIDLength :: int where "MaxLegacyRecordIDLength = 64"

definition PackedFrameUpperBoundV2 :: "int \<Rightarrow> int \<Rightarrow> CodecError + int" where
  "PackedFrameUpperBoundV2 levelCount pointCount =
     (if levelCount < 0 \<or> pointCount < 0 then Inl ShapeNegative
      else
        (let frameOverhead = 4 + 2 + MaxVarintLen64; envelopeOverhead = 4 * 2 ^ 10;
             perLevelState = 512 + 80;
             perLegacyRecordID = 1 + 8 + 1 + 13 + 1 + MaxLegacyRecordIDLength + 1 + 1;
             legacyTableOverhead = int (length ''\"legacy_record_ids\":[],'');
             bitmapSize = i64 (levelCount + 7) sdiv 8;
             base0 = frameOverhead + envelopeOverhead + legacyTableOverhead
         in if levelCount > (maxInt64 - base0) sdiv perLevelState then Inl StateBudget
            else
              (let base = i64 (base0 + i64 (levelCount * perLevelState));
                   perPoint0 = MaxVarintLen64
               in if bitmapSize > (maxInt64 - perPoint0) sdiv 3 then Inl StateBudget
                  else
                    (let perPoint1 = i64 (perPoint0 + i64 (3 * bitmapSize));
                         perPoint = i64 (perPoint1 + (perLegacyRecordID
                                          + int (length (formatNat (nat (max pointCount 1))))))
                     in if pointCount > i64 (maxInt64 - base) sdiv perPoint then Inl StateBudget
                        else Inr (i64 (base + i64 (pointCount * perPoint)))))))"

section \<open>The most points a budget admits\<close>

text \<open>
  The binary search both maxima run, over the size bound and the byte budget.  Nothing bounds the
  loop but the interval it halves, and \<open>low + high + 1\<close> can wrap, so not ending is the value
  \<open>None\<close>.
\<close>

partial_function (option) maxPointsLoop ::
  "(int \<Rightarrow> CodecError + int) \<Rightarrow> int \<Rightarrow> int \<Rightarrow> int \<Rightarrow> int option" where
  "maxPointsLoop sizeOf valueBytes low high =
     (if low < high
      then (let mid = i64 (low + high + 1) sdiv 2
            in case sizeOf mid of
                 Inl e \<Rightarrow> maxPointsLoop sizeOf valueBytes low (i64 (mid - 1))
               | Inr s \<Rightarrow> if s > valueBytes then maxPointsLoop sizeOf valueBytes low (i64 (mid - 1))
                          else maxPointsLoop sizeOf valueBytes mid high)
      else Some low)"

definition MaxRuntimeEnvelopePoints :: "int \<Rightarrow> int \<Rightarrow> CodecError + int option" where
  "MaxRuntimeEnvelopePoints levelCount valueBytes =
     (if levelCount \<le> 0 \<or> valueBytes \<le> 0 then Inl CountAndBudgetNotPositive
      else Inr (maxPointsLoop (RuntimeEnvelopeUpperBoundV2 levelCount) valueBytes 0 valueBytes))"

definition MaxPackedFramePoints :: "int \<Rightarrow> int \<Rightarrow> CodecError + int option" where
  "MaxPackedFramePoints levelCount valueBytes =
     (if levelCount \<le> 0 \<or> valueBytes \<le> 0 then Inl CountAndBudgetNotPositive
      else Inr (maxPointsLoop (PackedFrameUpperBoundV2 levelCount) valueBytes 0 valueBytes))"

text \<open>What the search needs of a size bound, and what it then finds.\<close>

locale size_bound =
  fixes sizeOf :: "int \<Rightarrow> int \<Rightarrow> CodecError + int"
  assumes sizeOf_mono: "0 \<le> n \<Longrightarrow> n \<le> m \<Longrightarrow> m \<le> maxInt64 \<Longrightarrow> sizeOf L m = Inr s \<Longrightarrow>
      \<exists>s'. sizeOf L n = Inr s' \<and> s' \<le> s"
    and sizeOf_grows: "0 \<le> m \<Longrightarrow> m \<le> maxInt64 \<Longrightarrow> sizeOf L m = Inr s \<Longrightarrow> m < s"
begin

definition fits :: "int \<Rightarrow> int \<Rightarrow> int \<Rightarrow> bool" where
  "fits L valueBytes m \<longleftrightarrow> (\<exists>s. sizeOf L m = Inr s \<and> s \<le> valueBytes)"

lemma fits_down: "0 \<le> n \<Longrightarrow> n \<le> m \<Longrightarrow> m \<le> maxInt64 \<Longrightarrow> fits L v m \<Longrightarrow> fits L v n"
  unfolding fits_def using sizeOf_mono by (meson order_trans)

lemma fits_bound: "0 \<le> m \<Longrightarrow> m \<le> maxInt64 \<Longrightarrow> fits L v m \<Longrightarrow> m < v"
  unfolding fits_def using sizeOf_grows by fastforce

lemma maxPointsLoop_spec:
  assumes "0 \<le> low" "low \<le> high" "high < 2 ^ 62" "\<forall>m. 0 < m \<and> m \<le> low \<longrightarrow> fits L v m"
    "\<forall>m. high < m \<and> m \<le> maxInt64 \<longrightarrow> \<not> fits L v m"
  shows "\<exists>n. maxPointsLoop (sizeOf L) v low high = Some n \<and> 0 \<le> n
    \<and> (\<forall>m. 0 < m \<and> m \<le> maxInt64 \<longrightarrow> (fits L v m \<longleftrightarrow> m \<le> n))"
  using assms
proof (induction "nat (high - low)" arbitrary: low high rule: less_induct)
  case less
  show ?case
  proof (cases "low < high")
    case False
    with less.prems have "maxPointsLoop (sizeOf L) v low high = Some low" "low = high"
      by (simp_all add: maxPointsLoop.simps)
    with less.prems show ?thesis by (auto simp: not_le)
  next
    case True
    define mid where "mid = (low + high + 1) div 2"
    have wrap: "i64 (low + high + 1) sdiv 2 = mid"
      using less.prems by (simp add: mid_def go_arith maxInt64_def)
    have mid: "low < mid" "mid \<le> high" using True by (auto simp: mid_def)
    have wrap1: "i64 (mid - 1) = mid - 1" using mid less.prems by (simp add: go_arith maxInt64_def)
    show ?thesis
    proof (cases "fits L v mid")
      case fit: True
      then have step: "maxPointsLoop (sizeOf L) v low high = maxPointsLoop (sizeOf L) v mid high"
        using True wrap by (subst maxPointsLoop.simps) (auto simp: fits_def)
      have "mid \<le> maxInt64" using mid less.prems(3) by (simp add: maxInt64_def)
      with fit fits_down have "\<forall>m. 0 < m \<and> m \<le> mid \<longrightarrow> fits L v m" by auto
      with less.hyps [of high mid] less.prems mid True show ?thesis by (simp add: step)
    next
      case unfit: False
      then have step: "maxPointsLoop (sizeOf L) v low high = maxPointsLoop (sizeOf L) v low (mid - 1)"
        using True wrap wrap1 by (subst maxPointsLoop.simps) (auto simp: fits_def split: sum.split)
      have "\<forall>m. mid - 1 < m \<and> m \<le> maxInt64 \<longrightarrow> \<not> fits L v m"
        using unfit fits_down [of mid _ L v] mid less.prems(1) by (metis le_less_trans less_imp_le zle_diff1_eq not_le)
      with less.hyps [of "mid - 1" low] less.prems mid True show ?thesis by (simp add: step)
    qed
  qed
qed

lemma maxPoints_spec:
  assumes "0 < v" "v < 2 ^ 62"
  shows "\<exists>n. maxPointsLoop (sizeOf L) v 0 v = Some n \<and> 0 \<le> n
    \<and> (\<forall>m. 0 < m \<and> m \<le> maxInt64 \<longrightarrow> (fits L v m \<longleftrightarrow> m \<le> n))"
proof (rule maxPointsLoop_spec)
  show "\<forall>m. v < m \<and> m \<le> maxInt64 \<longrightarrow> \<not> fits L v m"
    using fits_bound [of _ L v] assms(1) by (metis less_asym less_imp_le less_trans)
qed (use assms in auto)

end

text \<open>A bound of the shape \<open>base + points * perPoint\<close>, with the guard the code puts before it.\<close>

lemma le_div_iff:
  assumes "0 < (d::int)"
  shows "L \<le> m div d \<longleftrightarrow> L * d \<le> m"
proof
  assume "L \<le> m div d"
  then have "L * d \<le> (m div d) * d" using assms by (simp add: mult_right_mono)
  also have "\<dots> \<le> m" using assms by (metis add_le_same_cancel1 div_mult_mod_eq le_add_same_cancel1 pos_mod_sign)
  finally show "L * d \<le> m" .
next
  assume "L * d \<le> m"
  then have "L * d div d \<le> m div d" using assms by (rule zdiv_mono1)
  then show "L \<le> m div d" using assms by simp
qed

lemma guard_iff:
  fixes c :: int
  assumes "0 < d" "0 \<le> c" "c \<le> maxInt64"
  shows "L > (maxInt64 - c) sdiv d \<longleftrightarrow> c + L * d > maxInt64"
  using le_div_iff [OF assms(1), of L "maxInt64 - c"] assms by (auto simp: sdiv_pos)

lemma i64_sum: "0 \<le> c \<Longrightarrow> 0 \<le> x \<Longrightarrow> c + x \<le> maxInt64 \<Longrightarrow> i64 (c + i64 x) = c + x"
  by (simp add: go_arith)

lemma i64_point:
  "0 \<le> x \<Longrightarrow> 0 \<le> d \<Longrightarrow> 100 + x + d \<le> maxInt64 \<Longrightarrow> i64 (i64 (10 + i64 x) + (90 + d)) = 100 + x + d"
  by (simp add: go_arith)

lemma i64_room: "0 \<le> c \<Longrightarrow> c \<le> maxInt64 \<Longrightarrow> i64 (maxInt64 - c) = maxInt64 - c"
  by (simp add: go_arith)

text \<open>The two bounds with every wrap-around discharged by the code's own guards.\<close>

definition envelopeBase :: "int \<Rightarrow> int" where "envelopeBase L = 4096 + L * 512"
definition envelopePoint :: "int \<Rightarrow> int" where "envelopePoint L = 126 + L * 123"
definition frameBase :: "int \<Rightarrow> int" where "frameBase L = 4135 + L * 592"
definition framePoint :: "int \<Rightarrow> int \<Rightarrow> int" where
  "framePoint L n = 100 + 3 * ((L + 7) div 8) + int (length (formatNat (nat (max n 1))))"

lemma RuntimeEnvelope_exact:
  "RuntimeEnvelopeUpperBoundV2 L n = Inr s \<longleftrightarrow> 0 \<le> L \<and> 0 \<le> n
     \<and> s = envelopeBase L + n * envelopePoint L \<and> s \<le> maxInt64"
proof (cases "0 \<le> L \<and> 0 \<le> n")
  case True
  have pos: "0 < envelopePoint L" "0 \<le> envelopeBase L" using True by (simp_all add: envelopeBase_def envelopePoint_def)
  then have nn: "0 \<le> n * envelopePoint L" using True by simp
  show ?thesis
  proof (cases "envelopeBase L \<le> maxInt64")
    case False
    with True guard_iff [of 512 4096 L] have "RuntimeEnvelopeUpperBoundV2 L n = Inl StateBudget"
      by (auto simp: RuntimeEnvelopeUpperBoundV2_def envelopeBase_def maxInt64_def)
    moreover have "\<not> envelopeBase L + n * envelopePoint L \<le> maxInt64" using False nn by linarith
    ultimately show ?thesis by auto
  next
    case fit: True
    have b: "i64 (4096 + i64 (L * 512)) = envelopeBase L"
      using True fit by (simp add: envelopeBase_def i64_sum)
    have p: "i64 (126 + i64 (L * 123)) = envelopePoint L"
      using True fit by (simp add: envelopeBase_def envelopePoint_def i64_sum)
    have g: "\<not> L > (maxInt64 - 4096) sdiv 512" "\<not> L > (maxInt64 - 126) sdiv 123"
      using True fit guard_iff [of 512 4096 L] guard_iff [of 123 126 L] by (auto simp: envelopeBase_def maxInt64_def)
    have "n > (maxInt64 - envelopeBase L) sdiv envelopePoint L \<longleftrightarrow> envelopeBase L + n * envelopePoint L > maxInt64"
      using guard_iff pos fit by blast
    with True g pos nn show ?thesis
      by (auto simp: RuntimeEnvelopeUpperBoundV2_def Let_def b p i64_room fit i64_sum)
  qed
qed (auto simp: RuntimeEnvelopeUpperBoundV2_def)

lemma framePoint_bounds:
  assumes "0 \<le> L" "frameBase L \<le> maxInt64" "0 \<le> n" "n \<le> maxInt64"
  shows "0 < framePoint L n" "framePoint L n \<le> maxInt64"
proof -
  have "nat (max n 1) < 10 ^ 20" using assms(4) by (simp add: maxInt64_def)
  then have "length (formatNat (nat (max n 1))) \<le> 20" by (rule formatNat_width) simp
  with assms show "0 < framePoint L n" "framePoint L n \<le> maxInt64"
    by (auto simp: framePoint_def frameBase_def maxInt64_def)
qed

lemma PackedFrame_exact:
  assumes "n \<le> maxInt64"
  shows "PackedFrameUpperBoundV2 L n = Inr s \<longleftrightarrow> 0 \<le> L \<and> 0 \<le> n
     \<and> s = frameBase L + n * framePoint L n \<and> s \<le> maxInt64"
proof (cases "0 \<le> L \<and> 0 \<le> n")
  case True
  show ?thesis
  proof (cases "frameBase L \<le> maxInt64")
    case False
    with True guard_iff [of 592 4135 L] have "PackedFrameUpperBoundV2 L n = Inl StateBudget"
      by (auto simp: PackedFrameUpperBoundV2_def frameBase_def maxInt64_def MaxVarintLen64_def Let_def)
    moreover have "0 < framePoint L n" using True by (auto simp: framePoint_def)
    then have "0 \<le> n * framePoint L n" using True by simp
    then have "\<not> frameBase L + n * framePoint L n \<le> maxInt64" using False by linarith
    ultimately show ?thesis by auto
  next
    case fit: True
    note fp = framePoint_bounds [OF _ fit _ assms]
    have b: "i64 (4135 + i64 (L * 592)) = frameBase L"
      using True fit by (simp add: frameBase_def i64_sum)
    have bm: "i64 (L + 7) sdiv 8 = (L + 7) div 8"
      using True fit by (simp add: frameBase_def go_arith)
    have g: "\<not> L > (maxInt64 - 4135) sdiv 592" "\<not> (L + 7) div 8 > (maxInt64 - 10) sdiv 3"
      using True fit guard_iff [of 592 4135 L] by (auto simp: frameBase_def maxInt64_def sdiv_pos)
    have p: "i64 (i64 (10 + i64 (3 * ((L + 7) div 8))) + (90 + int (length (formatNat (nat (max n 1)))))) = framePoint L n"
      using True fp(2) unfolding framePoint_def by (intro i64_point) auto
    have "n > (maxInt64 - frameBase L) sdiv framePoint L n \<longleftrightarrow> frameBase L + n * framePoint L n > maxInt64"
      using guard_iff [of "framePoint L n" "frameBase L" n] True fit fp by (simp add: frameBase_def)
    moreover have "0 \<le> n * framePoint L n" "0 \<le> frameBase L" using True fp by (simp_all add: frameBase_def)
    ultimately show ?thesis using True g
      by (auto simp: PackedFrameUpperBoundV2_def Let_def MaxVarintLen64_def MaxLegacyRecordIDLength_def b bm p i64_room fit i64_sum)
  qed
qed (auto simp: PackedFrameUpperBoundV2_def)

lemma framePoint_mono: "m \<le> n \<Longrightarrow> framePoint L m \<le> framePoint L n"
  unfolding framePoint_def using formatNat_mono [of "nat (max m 1)" "nat (max n 1)"] by auto

interpretation runtime: size_bound RuntimeEnvelopeUpperBoundV2
proof
  fix n m L s :: int
  assume nm: "0 \<le> n" "n \<le> m" "m \<le> maxInt64" and s: "RuntimeEnvelopeUpperBoundV2 L m = Inr s"
  then have "n * envelopePoint L \<le> m * envelopePoint L"
    by (simp add: RuntimeEnvelope_exact envelopePoint_def mult_right_mono)
  with nm s show "\<exists>s'. RuntimeEnvelopeUpperBoundV2 L n = Inr s' \<and> s' \<le> s"
    by (auto simp: RuntimeEnvelope_exact)
next
  fix m L s :: int
  assume "0 \<le> m" "m \<le> maxInt64" "RuntimeEnvelopeUpperBoundV2 L m = Inr s"
  moreover from this have "m * 1 \<le> m * envelopePoint L"
    by (intro mult_left_mono) (auto simp: RuntimeEnvelope_exact envelopePoint_def)
  ultimately show "m < s" by (auto simp: RuntimeEnvelope_exact envelopeBase_def)
qed

lemma RuntimeEnvelope_refusal:
  assumes "0 \<le> L" "0 \<le> n" "RuntimeEnvelopeUpperBoundV2 L n = Inl e"
  shows "e = StateBudget"
proof -
  have "\<not> (L < 0 \<or> n < 0)" using assms by simp
  with assms(3) show ?thesis
    unfolding RuntimeEnvelopeUpperBoundV2_def Let_def by (simp only: if_False split: if_split_asm) simp_all
qed

lemma PackedFrame_refusal:
  assumes "0 \<le> L" "0 \<le> n" "PackedFrameUpperBoundV2 L n = Inl e"
  shows "e = StateBudget"
proof -
  have "\<not> (L < 0 \<or> n < 0)" using assms by simp
  with assms(3) show ?thesis
    unfolding PackedFrameUpperBoundV2_def Let_def by (simp only: if_False split: if_split_asm) simp_all
qed

interpretation packed: size_bound PackedFrameUpperBoundV2
proof
  fix n m L s :: int
  assume nm: "0 \<le> n" "n \<le> m" "m \<le> maxInt64" and s: "PackedFrameUpperBoundV2 L m = Inr s"
  then have ex: "0 \<le> L" "s = frameBase L + m * framePoint L m" "s \<le> maxInt64" by (auto simp: PackedFrame_exact)
  have "0 \<le> m * framePoint L m" using ex nm by (simp add: framePoint_def)
  then have "0 < framePoint L n" using ex nm by (intro framePoint_bounds) auto
  then have "n * framePoint L n \<le> m * framePoint L m"
    using nm framePoint_mono [OF nm(2)] by (intro mult_mono) auto
  with nm ex show "\<exists>s'. PackedFrameUpperBoundV2 L n = Inr s' \<and> s' \<le> s" by (auto simp: PackedFrame_exact)
next
  fix m L s :: int
  assume "0 \<le> m" "m \<le> maxInt64" "PackedFrameUpperBoundV2 L m = Inr s"
  moreover from this have "m * 1 \<le> m * framePoint L m"
    by (intro mult_left_mono) (auto simp: PackedFrame_exact framePoint_def)
  ultimately show "m < s" by (auto simp: PackedFrame_exact frameBase_def)
qed

section \<open>Round trip of the variable-length integers\<close>

lemma split_or: "take_bit s (v::64 word) OR push_bit s (drop_bit s v) = v"
proof (rule bit_eqI)
  fix n
  show "bit (take_bit s v OR push_bit s (drop_bit s v)) n = bit v n"
    by (cases "n < s") (auto simp: bit_simps not_less dest: bit_imp_le_length)
qed

lemma group_or: "take_bit s (v::64 word) OR push_bit s (take_bit 7 (drop_bit s v)) = take_bit (s + 7) v"
  by (rule bit_eqI) (auto simp: bit_simps not_less)

lemma seven_mask: "(0x7f :: 8 word) = mask 7"
  by (simp add: mask_eq_exp_minus_1)

lemma bit_0x80: "bit (0x80 :: 8 word) n \<longleftrightarrow> n = 7"
proof -
  have "(0x80 :: 8 word) = 2 ^ 7" by simp
  then show ?thesis by (simp only: bit_exp_iff) (auto dest: bit_imp_le_length)
qed

lemma word_small_iff:
  fixes w :: "'a::len word"
  assumes "7 < LENGTH('a)"
  shows "w < 0x80 \<longleftrightarrow> take_bit 7 w = w"
proof -
  have "(2::nat) ^ 8 \<le> 2 ^ LENGTH('a)" using assms by (intro power_increasing) auto
  then have "unat (0x80 :: 'a word) = 128" by (simp add: unat_numeral take_bit_nat_eq_self)
  then have "w < 0x80 \<longleftrightarrow> unat w < 128" by (simp add: word_less_nat_alt)
  also have "\<dots> \<longleftrightarrow> take_bit 7 (unat w) = unat w" by (simp add: take_bit_nat_eq_self_iff)
  also have "\<dots> \<longleftrightarrow> unat (take_bit 7 w) = unat w" by (simp add: unsigned_take_bit_eq)
  also have "\<dots> \<longleftrightarrow> take_bit 7 w = w" by (rule unsigned_word_eqI [THEN iffI]) auto
  finally show ?thesis .
qed

lemma byte_small_iff: "(b::8 word) < 0x80 \<longleftrightarrow> \<not> bit b 7"
proof -
  have "take_bit 7 b = b \<longleftrightarrow> \<not> bit b 7"
  proof
    assume "\<not> bit b 7"
    show "take_bit 7 b = b"
    proof (rule bit_word_eqI)
      fix n assume "n < LENGTH(8)"
      then have "n < 7 \<or> n = 7" by auto
      with \<open>\<not> bit b 7\<close> show "bit (take_bit 7 b) n = bit b n" by (auto simp: bit_take_bit_iff)
    qed
  qed (metis bit_take_bit_iff less_irrefl)
  then show ?thesis by (simp add: word_small_iff)
qed

lemma group_small_iff: "(u::64 word) < 0x80 \<longleftrightarrow> take_bit 7 u = u"
  by (simp add: word_small_iff)

lemma byte_last:
  assumes "(u::64 word) < 0x80"
  shows "(ucast u :: 8 word) < 0x80" "ucast (ucast u :: 8 word) = u"
proof -
  have u: "take_bit 7 u = u" using assms by (simp add: group_small_iff)
  have "\<not> bit (take_bit 7 u) 7" by (simp add: bit_simps)
  then show "(ucast u :: 8 word) < 0x80" unfolding u byte_small_iff by (simp add: bit_simps)
  show "ucast (ucast u :: 8 word) = u"
    by (subst (2) u [symmetric], subst u [symmetric], rule bit_eqI) (auto simp: bit_simps)
qed

lemma byte_more: "\<not> (ucast (u::64 word) OR 0x80 :: 8 word) < 0x80"
  unfolding byte_small_iff by (simp add: bit_or_iff bit_0x80 del: bit_numeral_word_iff)

lemma byte_low: "ucast ((ucast (u::64 word) OR 0x80 :: 8 word) AND 0x7f) = take_bit 7 u"
  unfolding seven_mask by (rule bit_eqI) (auto simp: bit_simps bit_0x80 simp del: bit_numeral_word_iff)

lemma last_group: "drop_bit 63 (v::64 word) \<le> 1"
proof -
  have "unat (drop_bit 63 v) \<le> 1"
    using unsigned_less [of v, where ?'a = nat] by (simp add: unat_drop_bit_eq) (simp add: drop_bit_eq_div)
  then show ?thesis by (simp add: word_le_nat_alt)
qed

lemma uvarintLoop_put:
  assumes "u = drop_bit (7 * i) v" "i < 10"
  shows "uvarintLoop i (take_bit (7 * i) v) (7 * i) (putUvarint u @ rest) = (v, int (i + length (putUvarint u)))"
  using assms
proof (induction u arbitrary: i rule: putUvarint.induct)
  case (1 u)
  have nine: "u \<le> 1" if "i = 9" using that "1.prems" last_group by simp
  show ?case
  proof (cases "u < 0x80")
    case True
    have "\<not> (ucast u :: 8 word) > 1" if "i = 9"
    proof -
      have "unat u \<le> 1" using nine [OF that] by (simp add: word_le_nat_alt)
      then have "unat (ucast u :: 8 word) \<le> 1" by (simp add: unsigned_ucast_eq take_bit_nat_eq_self)
      then show ?thesis by (simp add: word_less_nat_alt)
    qed
    moreover have "take_bit (7 * i) v OR push_bit (7 * i) u = v" using split_or [of "7 * i" v] "1.prems" by simp
    moreover have "putUvarint u = [ucast u]" using True by (simp add: putUvarint.simps [of u])
    ultimately show ?thesis using byte_last [OF True] "1.prems"(2) by auto
  next
    case False
    then have "i \<noteq> 9" using nine by (auto simp: word_le_nat_alt word_less_nat_alt)
    with "1.prems" have i: "i + 1 < 10" by simp
    have u': "drop_bit 7 u = drop_bit (7 * (i + 1)) v" using "1.prems" by (simp add: add.commute)
    have x': "take_bit (7 * i) v OR push_bit (7 * i) (take_bit 7 u) = take_bit (7 * (i + 1)) v"
      using group_or [of "7 * i" v] "1.prems" by (simp add: add.commute)
    have put: "putUvarint u = (ucast u OR 0x80) # putUvarint (drop_bit 7 u)"
      using False by (simp add: putUvarint.simps [of u])
    have "uvarintLoop i (take_bit (7 * i) v) (7 * i) (putUvarint u @ rest) =
        uvarintLoop (i + 1) (take_bit (7 * (i + 1)) v) (7 * (i + 1)) (putUvarint (drop_bit 7 u) @ rest)"
      unfolding put x' [symmetric] using i byte_more [of u] by (simp add: byte_low add.commute)
    also have "\<dots> = (v, int (i + 1 + length (putUvarint (drop_bit 7 u))))" by (rule "1.IH" [OF False u' i])
    finally show ?thesis by (simp add: put)
  qed
qed

lemma length_putUvarint_pos: "0 < length (putUvarint v)"
  by (simp add: putUvarint.simps [of v])

lemma uvarint_put: "uvarint (putUvarint v @ rest) = (v, int (length (putUvarint v)))"
  using uvarintLoop_put [of v 0 v rest] by (simp add: uvarint_def)

lemma consume_put: "consumeUvarint (putUvarint v @ rest) = Inr (v, rest)"
  using length_putUvarint_pos [of v] by (simp add: consumeUvarint_def uvarint_put)

section \<open>Properties\<close>

text \<open>
  Reading back a variable-length integer that was appended returns it and exactly the bytes
  that follow, for every 64-bit value and whatever follows.
\<close>

theorem uvarint_roundtrip:
  "appendUvarint destination v = destination @ appendUvarint [] v
     \<and> consumeUvarint (appendUvarint [] v @ rest) = Inr (v, rest)"
  by (simp add: appendUvarint_def consume_put)

text \<open>
  C8: for a positive Level count and a byte budget below \<open>2^62\<close>, both searches end, and the number
  they return is exactly the most points the budget admits: a positive number of points fits the
  size bound iff it is at most that number.
\<close>

theorem max_points_exact:
  assumes "0 < L" and "0 < v" and "v < 2 ^ 62"
  shows "(\<exists>n. MaxRuntimeEnvelopePoints L v = Inr (Some n) \<and> 0 \<le> n
      \<and> (\<forall>m. 0 < m \<and> m \<le> maxInt64 \<longrightarrow>
            ((\<exists>s. RuntimeEnvelopeUpperBoundV2 L m = Inr s \<and> s \<le> v) \<longleftrightarrow> m \<le> n)))
    \<and> (\<exists>n. MaxPackedFramePoints L v = Inr (Some n) \<and> 0 \<le> n
      \<and> (\<forall>m. 0 < m \<and> m \<le> maxInt64 \<longrightarrow>
            ((\<exists>s. PackedFrameUpperBoundV2 L m = Inr s \<and> s \<le> v) \<longleftrightarrow> m \<le> n)))"
  using assms runtime.maxPoints_spec [OF assms(2,3), of L] packed.maxPoints_spec [OF assms(2,3), of L]
  by (simp add: MaxRuntimeEnvelopePoints_def MaxPackedFramePoints_def runtime.fits_def packed.fits_def)

theorem max_points_exact_witness:
  "\<exists>n. MaxPackedFramePoints 9 524288 = Inr (Some n)
     \<and> (\<exists>s. PackedFrameUpperBoundV2 9 4096 = Inr s \<and> s \<le> 524288) = (4096 \<le> n)"
  using max_points_exact [of 9 524288] by (auto simp: maxInt64_def)

text \<open>
  The two size bounds are computed without wrap-around: when they return a number it is the
  exact sum, and they refuse with the budget error exactly when that sum is not a 64-bit integer.
\<close>

theorem upper_bounds_exact:
  assumes "0 \<le> L" and "0 \<le> n" and "n \<le> maxInt64"
  shows "RuntimeEnvelopeUpperBoundV2 L n =
      (if envelopeBase L + n * envelopePoint L \<le> maxInt64
       then Inr (envelopeBase L + n * envelopePoint L) else Inl StateBudget)
    \<and> PackedFrameUpperBoundV2 L n =
      (if frameBase L + n * framePoint L n \<le> maxInt64
       then Inr (frameBase L + n * framePoint L n) else Inl StateBudget)"
  using assms RuntimeEnvelope_exact [of L n] PackedFrame_exact [of n L]
    RuntimeEnvelope_refusal [of L n] PackedFrame_refusal [of L n]
  by (metis sumE)

theorem upper_bounds_exact_witness: "RuntimeEnvelopeUpperBoundV2 2 1480 = Inr 555680"
  using upper_bounds_exact [of 2 1480] by (simp add: envelopeBase_def envelopePoint_def maxInt64_def)

end
