(* ===== verification/RecordID.thy ===== *)
theory RecordID
  imports Window Codec
begin

unbundle bit_operations_syntax

text \<open>
  Record ids of \<open>contract/v2_canonical.go\<close>: the one-call derivation \<open>DeriveRecordIDV2\<close> and the
  per-series deriver that hashes the constant part once.  \<open>sha256\<close> stands for \<open>crypto/sha256\<close>; a
  running \<open>hash.Hash\<close> is the bytes written to it so far, which is what its documentation says
  \<open>Sum\<close> depends on, and a saved state is restored to the same bytes.
\<close>

section \<open>Bytes and text\<close>

definition bytesOf :: "string \<Rightarrow> 8 word list" where
  "bytesOf s = map of_char s"

definition hexDigit :: "8 word \<Rightarrow> char" where
  "hexDigit w = (if w < 10 then char_of (48 + unat w) else char_of (87 + unat w))"

definition hexEncode :: "8 word list \<Rightarrow> string" where
  "hexEncode bs = concat (map (\<lambda>b. [hexDigit (drop_bit 4 b), hexDigit (b AND 0x0f)]) bs)"

text \<open>\<open>binary.BigEndian.PutUint32\<close> of a length.\<close>

definition bigEndian32 :: "nat \<Rightarrow> 8 word list" where
  "bigEndian32 n = map (\<lambda>k. ucast (drop_bit (24 - 8 * k) (of_nat n :: 32 word))) [0..<4]"

text \<open>\<open>utf8.Valid\<close>: the byte sequences of the UTF-8 table, shortest forms only, no surrogates.\<close>

definition isContinuation :: "8 word \<Rightarrow> bool" where
  "isContinuation b \<longleftrightarrow> 0x80 \<le> b \<and> b \<le> 0xBF"

fun utf8Valid :: "8 word list \<Rightarrow> bool" where
  "utf8Valid [] = True"
| "utf8Valid [b] = (b < 0x80)"
| "utf8Valid [b, c] =
     (if b < 0x80 then utf8Valid [c] else 0xC2 \<le> b \<and> b \<le> 0xDF \<and> isContinuation c)"
| "utf8Valid [b, c, d] =
     (if b < 0x80 then utf8Valid [c, d]
      else if 0xC2 \<le> b \<and> b \<le> 0xDF then isContinuation c \<and> utf8Valid [d]
      else 0xE0 \<le> b \<and> b \<le> 0xEF \<and> isContinuation c \<and> isContinuation d
           \<and> (b = 0xE0 \<longrightarrow> 0xA0 \<le> c) \<and> (b = 0xED \<longrightarrow> c \<le> 0x9F))"
| "utf8Valid (b # c # d # e # rest) =
     (if b < 0x80 then utf8Valid (c # d # e # rest)
      else if 0xC2 \<le> b \<and> b \<le> 0xDF then isContinuation c \<and> utf8Valid (d # e # rest)
      else if 0xE0 \<le> b \<and> b \<le> 0xEF
      then isContinuation c \<and> isContinuation d \<and> (b = 0xE0 \<longrightarrow> 0xA0 \<le> c) \<and> (b = 0xED \<longrightarrow> c \<le> 0x9F)
           \<and> utf8Valid (e # rest)
      else 0xF0 \<le> b \<and> b \<le> 0xF4 \<and> isContinuation c \<and> isContinuation d \<and> isContinuation e
           \<and> (b = 0xF0 \<longrightarrow> 0x90 \<le> c) \<and> (b = 0xF4 \<longrightarrow> c \<le> 0x8F) \<and> utf8Valid rest)"

section \<open>Derivation\<close>

datatype ContractError = DimensionDigestInvalid | SourceTimeNegative | FieldNotUTF8 | FieldTooLong

fun hashFields :: "8 word list list \<Rightarrow> 8 word list \<Rightarrow> ContractError + 8 word list" where
  "hashFields [] written = Inr written"
| "hashFields (v # vs) written =
     (if \<not> utf8Valid v then Inl FieldNotUTF8
      else if length v > maxUint32 then Inl FieldTooLong
      else hashFields vs (written @ bigEndian32 (length v) @ v))"

definition deriveLengthPrefixedSHA256 ::
  "(8 word list \<Rightarrow> 8 word list) \<Rightarrow> string \<Rightarrow> 8 word list list \<Rightarrow> ContractError + string" where
  "deriveLengthPrefixedSHA256 sha256 version vs =
     (case hashFields (bytesOf version # vs) [] of
        Inl e \<Rightarrow> Inl e
      | Inr written \<Rightarrow> Inr (hexEncode (sha256 written)))"

definition DeriveRecordIDV2 ::
  "(8 word list \<Rightarrow> 8 word list) \<Rightarrow> string \<Rightarrow> int \<Rightarrow> ContractError + string" where
  "DeriveRecordIDV2 sha256 dimensionIdentityDigest sourceTime =
     (if \<not> isSHA256Hex dimensionIdentityDigest then Inl DimensionDigestInvalid
      else if sourceTime < 0 then Inl SourceTimeNegative
      else deriveLengthPrefixedSHA256 sha256 ''record-id-v2''
             [bytesOf dimensionIdentityDigest, bytesOf (formatNat (nat sourceTime))])"

text \<open>The deriver's saved state: what the hash had been given when it was saved.\<close>

definition NewRecordIDDeriverV2 :: "string \<Rightarrow> ContractError + 8 word list" where
  "NewRecordIDDeriverV2 dimensionIdentityDigest =
     (if \<not> isSHA256Hex dimensionIdentityDigest then Inl DimensionDigestInvalid
      else Inr (concat (map (\<lambda>v. bigEndian32 (length v) @ v)
                  [bytesOf ''record-id-v2'', bytesOf dimensionIdentityDigest])))"

definition deriverDerive ::
  "(8 word list \<Rightarrow> 8 word list) \<Rightarrow> 8 word list \<Rightarrow> int \<Rightarrow> ContractError + string" where
  "deriverDerive sha256 saved sourceTime =
     (if sourceTime < 0 then Inl SourceTimeNegative
      else (let txt = bytesOf (formatNat (nat sourceTime))
            in Inr (hexEncode (sha256 (saved @ bigEndian32 (length txt) @ txt)))))"

text \<open>
  The closure \<open>seriesRecordIDs\<close> returns: it builds the deriver at its first call and keeps it, so
  every call answers as a deriver of the series built afresh.
\<close>

definition seriesRecordIDs ::
  "(8 word list \<Rightarrow> 8 word list) \<Rightarrow> string \<Rightarrow> int \<Rightarrow> ContractError + string" where
  "seriesRecordIDs sha256 series sourceTime =
     (case NewRecordIDDeriverV2 series of
        Inl e \<Rightarrow> Inl e
      | Inr saved \<Rightarrow> deriverDerive sha256 saved sourceTime)"

section \<open>The two derivations agree\<close>

lemma utf8Valid_ascii: "\<forall>b \<in> set bs. b < 0x80 \<Longrightarrow> utf8Valid bs"
  by (induction bs rule: utf8Valid.induct) auto

lemma of_char_small:
  assumes "(of_char c :: nat) < 128"
  shows "(of_char c :: 8 word) < 0x80"
proof -
  have "(of_char c :: 8 word) = of_nat (of_char c)" by (simp add: of_nat_of_char)
  with assms have "unat (of_char c :: 8 word) < 128"
    by (simp only: unsigned_of_nat) (simp add: take_bit_nat_eq_self)
  then show ?thesis by (simp add: word_less_nat_alt)
qed

lemma utf8Valid_bytesOf: "\<forall>c \<in> set s. (of_char c :: nat) < 128 \<Longrightarrow> utf8Valid (bytesOf s)"
  unfolding bytesOf_def by (intro utf8Valid_ascii) (auto intro: of_char_small)

lemma hex_ascii:
  assumes "isSHA256Hex s" "c \<in> set s"
  shows "(of_char c :: nat) < 128"
  using assms by (auto simp: isSHA256Hex_def list_all_iff less_char_def not_less)

lemma formatNat_ascii: "c \<in> set (formatNat n) \<Longrightarrow> (of_char c :: nat) < 128"
proof (induction n rule: formatNat.induct)
  case (1 n)
  have d: "of_char (char_of (48 + k :: nat)) = 48 + k" if "k < 10" for k
    using that by (simp add: of_char_of)
  from 1 show ?case by (auto simp: formatNat.simps [of n] d split: if_splits)
qed

lemma formatNat_short: "t \<le> maxInt64 \<Longrightarrow> length (formatNat (nat t)) \<le> 20"
  by (rule formatNat_width) (simp_all add: maxInt64_def)

lemma seriesRecordIDs_DeriveRecordIDV2:
  assumes "t \<le> maxInt64"
  shows "seriesRecordIDs sha256 series t = DeriveRecordIDV2 sha256 series t"
proof (cases "isSHA256Hex series \<and> 0 \<le> t")
  case True
  have v: "utf8Valid (bytesOf ''record-id-v2'')" "utf8Valid (bytesOf series)"
    "utf8Valid (bytesOf (formatNat (nat t)))"
    using True hex_ascii formatNat_ascii by (auto intro!: utf8Valid_bytesOf)
  have "length (bytesOf series) \<le> maxUint32" "length (bytesOf (formatNat (nat t))) \<le> maxUint32"
    using True formatNat_short [OF assms] by (auto simp: bytesOf_def isSHA256Hex_def maxUint32_def)
  moreover have "length (bytesOf ''record-id-v2'') \<le> maxUint32" by (simp add: bytesOf_def maxUint32_def)
  ultimately show ?thesis
    using True v by (simp add: seriesRecordIDs_def NewRecordIDDeriverV2_def deriverDerive_def
        DeriveRecordIDV2_def deriveLengthPrefixedSHA256_def Let_def not_less [symmetric])
qed (auto simp: seriesRecordIDs_def NewRecordIDDeriverV2_def deriverDerive_def DeriveRecordIDV2_def)

section \<open>Properties\<close>

text \<open>
  C9: deriving a record id through the saved per-series hash state gives the same id, and the same
  refusals, as the one-call derivation, for every series and every 64-bit source time.
\<close>

theorem record_id_deriver_agrees:
  assumes "t \<le> maxInt64"
  shows "seriesRecordIDs sha256 series t = DeriveRecordIDV2 sha256 series t"
  by (rule seriesRecordIDs_DeriveRecordIDV2 [OF assms])

theorem record_id_deriver_agrees_witness:
  "seriesRecordIDs id (replicate 64 CHR ''a'') 1700000000 = DeriveRecordIDV2 id (replicate 64 CHR ''a'') 1700000000"
  by (rule record_id_deriver_agrees) (simp add: maxInt64_def)

end
