(* ===== verification/HistoryMerge.thy ===== *)
theory HistoryMerge
  imports Prelude
begin

text \<open>
  The merge of \<open>execution/state_history_merge.go\<close>: the points a round adds are merged into the
  history it loaded, a point of the round winning at a source time both hold, and the oldest
  evicted to the retention bound.  The two index loops of the source are recursions over the
  remaining slices; the visitor of the walk carries the state its closure captures.
\<close>

section \<open>Data\<close>

datatype ExecFactResult =
    FactNormal | FactAnomalous | FactUnavailable | FactError | FactOther string

record StateLevelFact =
  sf_LevelID :: nat
  sf_DetectFingerprint :: string
  sf_Result :: ExecFactResult

record StateHistoryPoint =
  hp_RecordID :: string
  hp_SourceTime :: int
  hp_Levels :: "StateLevelFact list"

record HistoryRecordIdentityConflict =
  hc_SourceTime :: int
  hc_Stored :: string
  hc_Fresh :: string

datatype 'e WalkError = WalkConflict HistoryRecordIdentityConflict | WalkVisit 'e

section \<open>Operations\<close>

definition StateHistoryOrder :: "StateHistoryPoint \<Rightarrow> StateHistoryPoint \<Rightarrow> int" where
  "StateHistoryOrder l r =
     (if hp_SourceTime l < hp_SourceTime r then - 1
      else if hp_SourceTime l > hp_SourceTime r then 1 else 0)"

fun mergedCountLoop :: "StateHistoryPoint list \<Rightarrow> StateHistoryPoint list \<Rightarrow> nat \<Rightarrow> nat" where
  "mergedCountLoop (l # ls) (r # rs) tot =
     (if StateHistoryOrder l r = - 1 then mergedCountLoop ls (r # rs) (tot + 1)
      else if StateHistoryOrder l r = 1 then mergedCountLoop (l # ls) rs (tot + 1)
      else mergedCountLoop ls rs (tot + 1))"
| "mergedCountLoop ls rs tot = tot + length ls + length rs"

definition MergedHistoryPointCount :: "StateHistoryPoint list \<Rightarrow> StateHistoryPoint list \<Rightarrow> nat" where
  "MergedHistoryPointCount base delta = mergedCountLoop base delta 0"

text \<open>The closure \<open>emit\<close>: it counts every point and passes on those after the first \<open>skip\<close>.\<close>

definition emitPoint ::
  "nat \<Rightarrow> (StateHistoryPoint \<Rightarrow> 's \<Rightarrow> 'e + 's) \<Rightarrow> StateHistoryPoint \<Rightarrow> nat \<times> 's \<Rightarrow> 'e WalkError + (nat \<times> 's)" where
  "emitPoint skip visit p st =
     (case st of (emitted, s) \<Rightarrow>
        if emitted + 1 \<le> skip then Inr (emitted + 1, s)
        else (case visit p s of Inl e \<Rightarrow> Inl (WalkVisit e) | Inr s' \<Rightarrow> Inr (emitted + 1, s')))"

fun emitAll ::
  "nat \<Rightarrow> (StateHistoryPoint \<Rightarrow> 's \<Rightarrow> 'e + 's) \<Rightarrow> StateHistoryPoint list \<Rightarrow> nat \<times> 's \<Rightarrow> 'e WalkError + (nat \<times> 's)" where
  "emitAll skip visit [] st = Inr st"
| "emitAll skip visit (p # ps) st =
     (case emitPoint skip visit p st of Inl e \<Rightarrow> Inl e | Inr st' \<Rightarrow> emitAll skip visit ps st')"

fun walkLoop ::
  "nat \<Rightarrow> (StateHistoryPoint \<Rightarrow> 's \<Rightarrow> 'e + 's) \<Rightarrow> StateHistoryPoint list \<Rightarrow> StateHistoryPoint list
     \<Rightarrow> nat \<times> 's \<Rightarrow> 'e WalkError + (nat \<times> 's)" where
  "walkLoop skip visit (l # ls) (r # rs) st =
     (if StateHistoryOrder l r = - 1
      then (case emitPoint skip visit l st of Inl e \<Rightarrow> Inl e | Inr st' \<Rightarrow> walkLoop skip visit ls (r # rs) st')
      else if StateHistoryOrder l r = 1
      then (case emitPoint skip visit r st of Inl e \<Rightarrow> Inl e | Inr st' \<Rightarrow> walkLoop skip visit (l # ls) rs st')
      else if hp_RecordID l \<noteq> hp_RecordID r
      then Inl (WalkConflict \<lparr>hc_SourceTime = hp_SourceTime l, hc_Stored = hp_RecordID l, hc_Fresh = hp_RecordID r\<rparr>)
      else (case emitPoint skip visit r st of Inl e \<Rightarrow> Inl e | Inr st' \<Rightarrow> walkLoop skip visit ls rs st'))"
| "walkLoop skip visit ls rs st =
     (case emitAll skip visit ls st of Inl e \<Rightarrow> Inl e | Inr st' \<Rightarrow> emitAll skip visit rs st')"

definition WalkMergedHistory ::
  "StateHistoryPoint list \<Rightarrow> StateHistoryPoint list \<Rightarrow> nat \<Rightarrow> (StateHistoryPoint \<Rightarrow> 's \<Rightarrow> 'e + 's) \<Rightarrow> 's
     \<Rightarrow> 'e WalkError + 's" where
  "WalkMergedHistory base delta retention visit s =
     (let skip = (if retention > 0
                  then (let tot = MergedHistoryPointCount base delta
                        in if tot > retention then tot - retention else 0)
                  else 0)
      in map_sum id snd (walkLoop skip visit base delta (0, s)))"

definition MergedHistory ::
  "StateHistoryPoint list \<Rightarrow> StateHistoryPoint list \<Rightarrow> nat
     \<Rightarrow> unit WalkError + StateHistoryPoint list" where
  "MergedHistory base delta retention =
     WalkMergedHistory base delta retention (\<lambda>p merged. Inr (merged @ [p])) []"

section \<open>The merge as a list\<close>

text \<open>
  The reference: the whole merge, before eviction, and whether two records claim one position.
\<close>

fun mergedPoints :: "StateHistoryPoint list \<Rightarrow> StateHistoryPoint list \<Rightarrow> StateHistoryPoint list" where
  "mergedPoints (l # ls) (r # rs) =
     (if hp_SourceTime l < hp_SourceTime r then l # mergedPoints ls (r # rs)
      else if hp_SourceTime l > hp_SourceTime r then r # mergedPoints (l # ls) rs
      else r # mergedPoints ls rs)"
| "mergedPoints ls rs = ls @ rs"

definition agreeing :: "StateHistoryPoint list \<Rightarrow> StateHistoryPoint list \<Rightarrow> bool" where
  "agreeing base delta \<longleftrightarrow> (\<forall>l \<in> set base. \<forall>r \<in> set delta.
     hp_SourceTime l = hp_SourceTime r \<longrightarrow> hp_RecordID l = hp_RecordID r)"

definition newest :: "nat \<Rightarrow> 'a list \<Rightarrow> 'a list" where
  "newest retention xs = (if retention = 0 then xs else drop (length xs - retention) xs)"

abbreviation rising :: "StateHistoryPoint list \<Rightarrow> bool" where
  "rising \<equiv> ssorted_by hp_SourceTime"

abbreviation historyMap :: "StateHistoryPoint list \<Rightarrow> int \<rightharpoonup> StateHistoryPoint" where
  "historyMap \<equiv> key_map hp_SourceTime"

text \<open>Running a visitor over a list.\<close>

fun visitList :: "('a \<Rightarrow> 's \<Rightarrow> 'e + 's) \<Rightarrow> 'a list \<Rightarrow> 's \<Rightarrow> 'e + 's" where
  "visitList visit [] s = Inr s"
| "visitList visit (p # ps) s = (case visit p s of Inl e \<Rightarrow> Inl e | Inr s' \<Rightarrow> visitList visit ps s')"

lemma mergedCount_eq: "mergedCountLoop ls rs tot = tot + length (mergedPoints ls rs)"
  by (induction ls rs tot rule: mergedCountLoop.induct) (auto simp: StateHistoryOrder_def)

lemma emitAll_visitList:
  "emitAll skip visit ps (n, s) =
     (case visitList visit (drop (skip - n) ps) s of
        Inl e \<Rightarrow> Inl (WalkVisit e) | Inr s' \<Rightarrow> Inr (n + length ps, s'))"
proof (induction ps arbitrary: n s)
  case (Cons p ps)
  show ?case
  proof (cases "n + 1 \<le> skip")
    case True
    then have "skip - n = Suc (skip - (n + 1))" by simp
    then have "drop (skip - n) (p # ps) = drop (skip - (n + 1)) ps" by simp
    with True Cons.IH [of "n + 1" s] show ?thesis by (simp add: emitPoint_def split: sum.splits)
  next
    case False
    then show ?thesis using Cons.IH [of "n + 1"] by (simp add: emitPoint_def split: sum.splits)
  qed
qed simp

lemma emitAll_append:
  "emitAll skip visit (xs @ ys) st =
     (case emitAll skip visit xs st of Inl e \<Rightarrow> Inl e | Inr st' \<Rightarrow> emitAll skip visit ys st')"
  by (induction xs arbitrary: st) (auto split: sum.splits)

lemma walkLoop_emitAll:
  assumes "agreeing ls rs"
  shows "walkLoop skip visit ls rs st = emitAll skip visit (mergedPoints ls rs) st"
  using assms
  by (induction skip visit ls rs st rule: walkLoop.induct)
    (auto simp: StateHistoryOrder_def agreeing_def emitAll_append split: sum.splits)

text \<open>The walk visits exactly the newest points of the merge, in order.\<close>

lemma WalkMergedHistory_visitList:
  assumes "agreeing base delta"
  shows "WalkMergedHistory base delta retention visit s =
    (case visitList visit (newest retention (mergedPoints base delta)) s of
       Inl e \<Rightarrow> Inl (WalkVisit e) | Inr s' \<Rightarrow> Inr s')"
  by (simp add: WalkMergedHistory_def MergedHistoryPointCount_def mergedCount_eq
      walkLoop_emitAll [OF assms] emitAll_visitList newest_def Let_def split: sum.split)

lemma visitList_snoc: "visitList (\<lambda>p acc. Inr (acc @ [p])) ps acc = Inr (acc @ ps)"
  by (induction ps arbitrary: acc) auto

lemma MergedHistory_newest:
  "agreeing base delta \<Longrightarrow> MergedHistory base delta r = Inr (newest r (mergedPoints base delta))"
  unfolding MergedHistory_def by (simp add: WalkMergedHistory_visitList visitList_snoc)

section \<open>Laws of the merge\<close>

lemma set_mergedPoints: "set (mergedPoints ls rs) \<subseteq> set ls \<union> set rs"
  by (induction ls rs rule: mergedPoints.induct) auto

lemma mergedPoints_above:
  "\<forall>x \<in> set ls. t < hp_SourceTime x \<Longrightarrow> \<forall>x \<in> set rs. t < hp_SourceTime x \<Longrightarrow>
     \<forall>x \<in> set (mergedPoints ls rs). t < hp_SourceTime x"
  using set_mergedPoints by blast

lemma mergedPoints_rising:
  assumes "rising ls" "rising rs"
  shows "rising (mergedPoints ls rs)"
  using assms
proof (induction ls rs rule: mergedPoints.induct)
  case (1 l ls r rs)
  then have up: "\<forall>x \<in> set ls. hp_SourceTime l < hp_SourceTime x" "\<forall>x \<in> set rs. hp_SourceTime r < hp_SourceTime x"
    by auto
  consider "hp_SourceTime l < hp_SourceTime r" | "hp_SourceTime l > hp_SourceTime r" | "hp_SourceTime l = hp_SourceTime r"
    by linarith
  then show ?case
  proof cases
    case 1
    with up have "\<forall>x \<in> set (mergedPoints ls (r # rs)). hp_SourceTime l < hp_SourceTime x"
      by (intro mergedPoints_above) auto
    with 1 "1.IH"(1) "1.prems" show ?thesis by simp
  next
    case 2
    with up have "\<forall>x \<in> set (mergedPoints (l # ls) rs). hp_SourceTime r < hp_SourceTime x"
      by (intro mergedPoints_above) auto
    with 2 "1.IH"(2) "1.prems" show ?thesis by simp
  next
    case 3
    with up have "\<forall>x \<in> set (mergedPoints ls rs). hp_SourceTime r < hp_SourceTime x"
      by (intro mergedPoints_above) auto
    with 3 "1.IH"(3) "1.prems" show ?thesis by simp
  qed
qed auto

lemma key_map_Cons [simp]: "key_map key (x # xs) k = (if key x = k then Some x else key_map key xs k)"
  by (simp add: key_map_def)

lemma key_map_Nil [simp]: "key_map key [] = Map.empty"
  by (simp add: key_map_def)

lemma key_map_append: "key_map key (xs @ ys) = key_map key ys ++ key_map key xs"
  by (simp add: key_map_def)

lemma key_map_above:
  fixes key :: "'a \<Rightarrow> 'k::linorder"
  assumes "\<forall>x \<in> set xs. k < key x"
  shows "key_map key xs k = None"
  unfolding key_map_None_iff using assms by force

lemma historyMap_merged:
  assumes "rising ls" "rising rs"
  shows "historyMap (mergedPoints ls rs) t = (historyMap ls ++ historyMap rs) t"
  using assms
proof (induction ls rs rule: mergedPoints.induct)
  case (1 l ls r rs)
  then have up: "\<forall>x \<in> set ls. hp_SourceTime l < hp_SourceTime x" "\<forall>x \<in> set rs. hp_SourceTime r < hp_SourceTime x"
    by auto
  consider "hp_SourceTime l < hp_SourceTime r" | "hp_SourceTime l > hp_SourceTime r" | "hp_SourceTime l = hp_SourceTime r"
    by linarith
  then show ?case
  proof cases
    case 1
    with up have "historyMap rs (hp_SourceTime l) = None" by (intro key_map_above) auto
    with 1 "1.IH"(1) "1.prems" show ?thesis by (auto simp: map_add_def split: option.splits)
  next
    case 2
    with "1.IH"(2) "1.prems" show ?thesis by (auto simp: map_add_def split: option.splits)
  next
    case 3
    with "1.IH"(3) "1.prems" show ?thesis by (auto simp: map_add_def split: option.splits)
  qed
qed (auto simp: key_map_append)

text \<open>A rising history is determined by its map.\<close>

lemma rising_ext:
  assumes "rising xs" "rising ys" "historyMap xs = historyMap ys"
  shows "xs = ys"
proof -
  have "x \<in> set xs \<longleftrightarrow> x \<in> set ys" for x
    using key_map_Some_iff [OF assms(1), of "hp_SourceTime x" x] key_map_Some_iff [OF assms(2), of "hp_SourceTime x" x] assms(3)
    by simp
  then have "set xs = set ys" by auto
  with assms(1,2) show ?thesis by (rule ssorted_ext)
qed

lemma newest_rising: "rising xs \<Longrightarrow> rising (newest r xs)"
  by (simp add: newest_def drop_map [symmetric] sorted_wrt_drop)

lemma length_newest: "r \<noteq> 0 \<Longrightarrow> length (newest r xs) = min r (length xs)"
  by (simp add: newest_def)

text \<open>What eviction keeps: the points no older than the first one kept.\<close>

lemma newest_split: "xs = take (length xs - length (newest r xs)) xs @ newest r xs"
  by (simp add: newest_def)

text \<open>
  Merging points into the newest part of a history that already holds them puts back only those
  that are older than that part.
\<close>

lemma merged_suffix:
  assumes rise: "rising (old @ m)" and d: "rising delta" and sub: "set delta \<subseteq> set (old @ m)"
  defines "older \<equiv> filter (\<lambda>p. \<forall>q \<in> set m. hp_SourceTime p < hp_SourceTime q) delta"
  shows "mergedPoints m delta = older @ m"
proof (rule rising_ext)
  have mr: "rising m" using rise by (simp add: sorted_wrt_append)
  have dr: "rising older" unfolding older_def by (rule ssorted_filter [OF d])
  show "rising (mergedPoints m delta)" by (rule mergedPoints_rising [OF mr d])
  show "rising (older @ m)" using dr mr by (auto simp: older_def sorted_wrt_append)
  have dm: "p \<in> set m" if "p \<in> set delta" "p \<notin> set older" for p
    using that sub rise by (fastforce simp: older_def sorted_wrt_append)
  show "historyMap (mergedPoints m delta) = historyMap (older @ m)"
  proof
    fix t
    note km = key_map_Some_iff [OF dr, of t] key_map_Some_iff [OF mr, of t]
    note unfold_merge = historyMap_merged [OF mr d] key_map_append map_add_def
    show "historyMap (mergedPoints m delta) t = historyMap (older @ m) t"
    proof (cases "historyMap delta t")
      case None
      then have "historyMap older t = None" by (auto simp: key_map_None_iff older_def)
      with None show ?thesis by (simp add: unfold_merge)
    next
      case (Some p)
      then have p: "p \<in> set delta" "hp_SourceTime p = t" by (auto simp: key_map_Some_iff [OF d])
      show ?thesis
      proof (cases "p \<in> set older")
        case True
        then have "historyMap older t = Some p" using km(1) p(2) by blast
        with Some show ?thesis by (simp add: unfold_merge)
      next
        case False
        then have "historyMap older t = None"
          using p ssorted_inj [OF d p(1)] by (auto simp: key_map_None_iff older_def)
        moreover have "historyMap m t = Some p" using km(2) False dm [OF p(1)] p(2) by blast
        ultimately show ?thesis using Some by (simp add: unfold_merge)
      qed
    qed
  qed
qed

lemma delta_in_merged:
  assumes "rising base" "rising delta"
  shows "set delta \<subseteq> set (mergedPoints base delta)"
proof
  fix p assume "p \<in> set delta"
  then have "historyMap delta (hp_SourceTime p) = Some p" by (simp add: key_map_Some_iff [OF assms(2)])
  then have "historyMap (mergedPoints base delta) (hp_SourceTime p) = Some p"
    by (simp add: historyMap_merged [OF assms] map_add_def)
  then show "p \<in> set (mergedPoints base delta)"
    by (simp add: key_map_Some_iff [OF mergedPoints_rising [OF assms]])
qed

text \<open>Merging the same points again changes nothing.\<close>

lemma merged_idem:
  fixes r :: nat
  assumes b: "rising base" and d: "rising delta"
  defines "m \<equiv> newest r (mergedPoints base delta)"
  shows "newest r (mergedPoints m delta) = m"
proof -
  define old where "old = take (length (mergedPoints base delta) - length m) (mergedPoints base delta)"
  have full: "mergedPoints base delta = old @ m"
    unfolding old_def m_def by (rule newest_split)
  define older where "older = filter (\<lambda>p. \<forall>q \<in> set m. hp_SourceTime p < hp_SourceTime q) delta"
  have older: "mergedPoints m delta = older @ m"
    using mergedPoints_rising [OF b d] delta_in_merged [OF b d] d
    unfolding older_def full by (intro merged_suffix) auto
  show ?thesis
  proof (cases "r = 0 \<or> length (mergedPoints base delta) \<le> r")
    case True
    then have m: "m = mergedPoints base delta" by (auto simp: m_def newest_def)
    then have "older = []"
      unfolding older_def filter_empty_conv using delta_in_merged [OF b d] by blast
    with True older show ?thesis by (auto simp: newest_def m)
  next
    case False
    then have "length m = r" by (auto simp: m_def newest_def)
    with False older show ?thesis by (simp add: newest_def)
  qed
qed

lemma agreeing_again:
  assumes "agreeing base delta" "rising delta"
  shows "agreeing (newest r (mergedPoints base delta)) delta"
proof -
  have "set (newest r (mergedPoints base delta)) \<subseteq> set base \<union> set delta"
    using set_mergedPoints [of base delta] by (auto simp: newest_def dest: in_set_dropD)
  with assms ssorted_inj [OF assms(2)] show ?thesis unfolding agreeing_def by blast
qed

section \<open>Properties\<close>

definition examplePointAt :: "string \<Rightarrow> int \<Rightarrow> StateHistoryPoint" where
  "examplePointAt rid t = \<lparr>hp_RecordID = rid, hp_SourceTime = t, hp_Levels = []\<rparr>"

text \<open>
  C7: the record a round leaves behind.  For rising histories that agree on record ids, the merge
  succeeds; its result rises strictly, and it is the newest \<open>r\<close> points (all of them when \<open>r\<close> is 0)
  of the history that holds, at every source time, the round's point if it has one and the loaded
  point otherwise; \<open>MergedHistoryPointCount\<close> is that history's length.
\<close>

theorem MergedHistory_correct:
  assumes "rising base" and "rising delta" and "agreeing base delta"
  shows "\<exists>whole. rising whole \<and> historyMap whole = historyMap base ++ historyMap delta
    \<and> MergedHistoryPointCount base delta = length whole
    \<and> MergedHistory base delta r = Inr (newest r whole)"
  using mergedPoints_rising [OF assms(1,2)] historyMap_merged [OF assms(1,2)] MergedHistory_newest [OF assms(3)]
  by (intro exI [of _ "mergedPoints base delta"])
    (auto simp: MergedHistoryPointCount_def mergedCount_eq)

theorem MergedHistory_correct_witness:
  "\<exists>whole. MergedHistoryPointCount [examplePointAt ''a'' 1, examplePointAt ''b'' 3]
       [examplePointAt ''c'' 2, examplePointAt ''b'' 3] = length whole
     \<and> MergedHistory [examplePointAt ''a'' 1, examplePointAt ''b'' 3]
         [examplePointAt ''c'' 2, examplePointAt ''b'' 3] 2 = Inr (newest 2 whole)"
proof -
  let ?b = "[examplePointAt ''a'' 1, examplePointAt ''b'' 3]"
  and ?d = "[examplePointAt ''c'' 2, examplePointAt ''b'' 3]"
  have "rising ?b" "rising ?d" "agreeing ?b ?d" by (simp_all add: examplePointAt_def agreeing_def)
  from MergedHistory_correct [OF this, of 2] show ?thesis by blast
qed

text \<open>
  Applying the same round twice is applying it once: merging its points into the record it
  left behind, under the same retention bound, yields that record again.
\<close>

theorem MergedHistory_idempotent:
  assumes "rising base" and "rising delta" and "agreeing base delta"
    and "MergedHistory base delta r = Inr merged"
  shows "MergedHistory merged delta r = Inr merged"
proof -
  have m: "merged = newest r (mergedPoints base delta)"
    using assms(4) MergedHistory_newest [OF assms(3)] by simp
  show ?thesis
    unfolding m using MergedHistory_newest [OF agreeing_again [OF assms(3,2)]] merged_idem [OF assms(1,2)] by simp
qed

theorem MergedHistory_idempotent_witness:
  "MergedHistory [examplePointAt ''b'' 3, examplePointAt ''d'' 4] [examplePointAt ''c'' 2, examplePointAt ''b'' 3] 2
     = Inr [examplePointAt ''b'' 3, examplePointAt ''d'' 4]"
proof (rule MergedHistory_idempotent)
  show "MergedHistory [examplePointAt ''a'' 1, examplePointAt ''b'' 3, examplePointAt ''d'' 4]
      [examplePointAt ''c'' 2, examplePointAt ''b'' 3] 2 = Inr [examplePointAt ''b'' 3, examplePointAt ''d'' 4]"
    by code_simp
qed (simp_all add: examplePointAt_def agreeing_def)

end
