(* ===== verification/Packed.thy ===== *)
theory Packed
  imports RecordID HistoryMerge
begin

text \<open>
  The framed runtime record of \<open>state/execution_v2_packed.go\<close>: a JSON header followed by the packed
  history.  The encoder walks the merged history (\<open>HistoryMerge\<close>) with a visitor; the state its
  closure captures is the record \<open>encodeState\<close>.  The package \<open>encoding/json\<close> is two arguments,
  \<open>marshal\<close> and \<open>unmarshal\<close>; the round trip assumes that unmarshalling the header just marshalled
  yields it.  The fields of a view the decoder does not set are Go zero values and are left out.
\<close>

section \<open>Data\<close>

record PlanIdentity =
  pi_TenantID :: string
  pi_BusinessID :: string
  pi_StrategyID :: string

record StateKeyIdentity =
  ki_Plan :: PlanIdentity
  ki_StateGeneration :: string
  ki_SeriesIdentityDigest :: string

record ApplyVersion =
  av_StateApplyEpoch :: nat
  av_EvaluationTime :: int
  av_SlotDigest :: string

record StateGuardFact =
  gf_Status :: string
  gf_ReasonCode :: string
  gf_WarmupRequirementRef :: string

record RecordAnchor =
  ra_RecordID :: string
  ra_SourceTime :: int

record RuntimeLevelState =
  rl_LevelID :: nat
  rl_LevelStateCompatibility :: string
  rl_HistoryCompleteness :: string
  rl_GapReasonCode :: string
  rl_WarmupRequirementRef :: string
  rl_LastProcessedEventTime :: int

record StateMutation =
  sm_Identity :: StateKeyIdentity
  sm_ApplyVersion :: ApplyVersion
  sm_MutationDigest :: string
  sm_AffectedRecords :: "RecordAnchor list"
  sm_SeriesGuard :: "StateGuardFact option"
  sm_Levels :: "RuntimeLevelState list"
  sm_Points :: "StateHistoryPoint list"
  sm_RetentionPoints :: nat
  sm_BaseHistory :: "StateHistoryPoint list"

record packedLevel =
  pl_Mutation :: RuntimeLevelState
  pl_DetectFingerprint :: string

record packedLegacyRecordID =
  lg_Index :: int
  lg_RecordID :: string

record packedHeader =
  ph_Schema :: string
  ph_Identity :: StateKeyIdentity
  ph_BlobRevision :: nat
  ph_ApplyVersion :: ApplyVersion
  ph_MutationDigest :: string
  ph_LastEventTime :: int
  ph_SeriesGuard :: "StateGuardFact option"
  ph_Levels :: "packedLevel list"
  ph_PointCount :: int
  ph_LegacyRecordIDs :: "packedLegacyRecordID list"

record RuntimeStateView =
  rv_Identity :: StateKeyIdentity
  rv_BlobRevision :: nat
  rv_PersistedApplyVersion :: ApplyVersion
  rv_PersistedMutationDigest :: string
  rv_LastProcessedEventTime :: int
  rv_SeriesGuard :: "StateGuardFact option"
  rv_Levels :: "RuntimeLevelState list"
  rv_History :: "StateHistoryPoint list"

text \<open>The rules a framed write is refused by, and the ways a read is.\<close>

datatype PackedRule =
    PackedRuleLevelNotInMutation | PackedRuleNoDetectFingerprint | PackedRuleTwoFingerprints
  | PackedRuleDuplicateLevel | PackedRuleSourceTimeNotRising | PackedRuleRecordIDUnderivable
  | PackedRuleRecordIDNotDerived | PackedRuleUnencodableFactState
  | PackedRuleLegacyRecordIDTooLong | PackedRuleTwoRecordsOneSourceTime

datatype PackedError = PackedRefusal PackedRule | HeaderNotMarshalled

datatype DecodeError =
    NotFramed | UnsupportedFrame | BadVarint CodecError | TruncatedHeader | HeaderUnreadable
  | UnsupportedSchema | LegacyIndexInvalid | LegacyIndexTwice | IdentityOrRevision
  | TruncatedPoint | RecordIDUnderivable ContractError | TrailingBytes | PanicNegativeCapacity

definition executionStateSchemaV3 :: string where
  "executionStateSchemaV3 = ''alarmd-runtime-state-v3''"
definition packedFrameMagic :: "8 word list" where "packedFrameMagic = bytesOf ''ALD2''"
definition packedFrameSchemaV1 :: "8 word" where "packedFrameSchemaV1 = 1"
definition packedFrameSchemaV2 :: "8 word" where "packedFrameSchemaV2 = 2"
definition packedFrameCodecNone :: "8 word" where "packedFrameCodecNone = 0"
definition packedFrameHeaderLen :: nat where "packedFrameHeaderLen = 6"

section \<open>Encoding\<close>

definition walkRecordPoints ::
  "StateMutation \<Rightarrow> (StateHistoryPoint \<Rightarrow> 's \<Rightarrow> PackedError + 's) \<Rightarrow> 's \<Rightarrow> PackedError + 's" where
  "walkRecordPoints m visit s =
     (case WalkMergedHistory (sm_BaseHistory m) (sm_Points m) (sm_RetentionPoints m) visit s of
        Inl (WalkConflict _) \<Rightarrow> Inl (PackedRefusal PackedRuleTwoRecordsOneSourceTime)
      | Inl (WalkVisit e) \<Rightarrow> Inl e
      | Inr s' \<Rightarrow> Inr s')"

definition levelIndex :: "RuntimeLevelState list \<Rightarrow> (nat \<rightharpoonup> nat)" where
  "levelIndex levels = indexBy rl_LevelID 0 levels Map.empty"

fun fingerprintFacts ::
  "(nat \<rightharpoonup> nat) \<Rightarrow> StateLevelFact list \<Rightarrow> string list \<Rightarrow> PackedError + string list" where
  "fingerprintFacts position [] fps = Inr fps"
| "fingerprintFacts position (f # fs) fps =
     (case position (sf_LevelID f) of
        None \<Rightarrow> Inl (PackedRefusal PackedRuleLevelNotInMutation)
      | Some i \<Rightarrow>
          if sf_DetectFingerprint f = [] then Inl (PackedRefusal PackedRuleNoDetectFingerprint)
          else if fps ! i = [] then fingerprintFacts position fs (fps[i := sf_DetectFingerprint f])
          else if fps ! i \<noteq> sf_DetectFingerprint f then Inl (PackedRefusal PackedRuleTwoFingerprints)
          else fingerprintFacts position fs fps)"

definition levelFingerprints ::
  "StateMutation \<Rightarrow> RuntimeLevelState list \<Rightarrow> PackedError + string list" where
  "levelFingerprints m levels =
     walkRecordPoints m (\<lambda>p fps. fingerprintFacts (levelIndex levels) (hp_Levels p) fps)
       (replicate (length levels) [])"

record encodeState =
  es_pointCount :: nat
  es_previous :: int
  es_legacy :: "packedLegacyRecordID list"
  es_points :: "8 word list"

fun encodeFacts ::
  "(nat \<rightharpoonup> nat) \<Rightarrow> StateLevelFact list \<Rightarrow> bitmap \<times> bitmap \<times> bitmap
     \<Rightarrow> PackedError + (bitmap \<times> bitmap \<times> bitmap)" where
  "encodeFacts index [] acc = Inr acc"
| "encodeFacts index (f # fs) (present, valid, anomalous) =
     (let position = (case index (sf_LevelID f) of Some i \<Rightarrow> i | None \<Rightarrow> 0);
          present' = setBit present position True
      in case sf_Result f of
           FactNormal \<Rightarrow> encodeFacts index fs (present', setBit valid position True, anomalous)
         | FactAnomalous \<Rightarrow>
             encodeFacts index fs (present', setBit valid position True, setBit anomalous position True)
         | FactUnavailable \<Rightarrow> encodeFacts index fs (present', valid, anomalous)
         | FactError \<Rightarrow> encodeFacts index fs (present', valid, setBit anomalous position True)
         | FactOther _ \<Rightarrow> Inl (PackedRefusal PackedRuleUnencodableFactState))"

text \<open>The visitor of the encoder; \<open>derive\<close> is the closure of \<open>seriesRecordIDs\<close>.\<close>

definition encodePoint ::
  "(int \<Rightarrow> ContractError + string) \<Rightarrow> RecordAnchor list \<Rightarrow> RuntimeLevelState list
     \<Rightarrow> StateHistoryPoint \<Rightarrow> encodeState \<Rightarrow> PackedError + encodeState" where
  "encodePoint derive affected levels p s =
     (let pointIndex = es_pointCount s
      in if hp_SourceTime p < 0 \<or> (pointIndex > 0 \<and> hp_SourceTime p \<le> es_previous s)
         then Inl (PackedRefusal PackedRuleSourceTimeNotRising)
         else
           (case derive (hp_SourceTime p) of
              Inl _ \<Rightarrow> Inl (PackedRefusal PackedRuleRecordIDUnderivable)
            | Inr expected \<Rightarrow>
                (let foreign = hp_RecordID p \<noteq> expected
                 in if foreign \<and> \<lparr>ra_RecordID = hp_RecordID p, ra_SourceTime = hp_SourceTime p\<rparr> \<in> set affected
                    then Inl (PackedRefusal PackedRuleRecordIDNotDerived)
                    else if foreign \<and> int (length (hp_RecordID p)) > MaxLegacyRecordIDLength
                    then Inl (PackedRefusal PackedRuleLegacyRecordIDTooLong)
                    else
                      (let legacy = (if foreign
                             then es_legacy s @ [\<lparr>lg_Index = int pointIndex, lg_RecordID = hp_RecordID p\<rparr>]
                             else es_legacy s);
                           delta = (if pointIndex > 0 then word_of_int (hp_SourceTime p - es_previous s)
                                    else word_of_int (hp_SourceTime p));
                           zero = replicate (bitmapBytes (length levels)) 0
                       in case encodeFacts (levelIndex levels) (hp_Levels p) (zero, zero, zero) of
                            Inl e \<Rightarrow> Inl e
                          | Inr (present, valid, anomalous) \<Rightarrow>
                              Inr \<lparr>es_pointCount = es_pointCount s + 1, es_previous = hp_SourceTime p,
                                   es_legacy = legacy,
                                   es_points = appendUvarint (es_points s) delta @ present @ valid @ anomalous\<rparr>))))"

definition duplicateLevel :: "RuntimeLevelState list \<Rightarrow> bool" where
  "duplicateLevel levels \<longleftrightarrow> list_ex (\<lambda>i. rl_LevelID (levels ! i) = rl_LevelID (levels ! (i - 1))) [1..<length levels]"

definition lastEventTime :: "RuntimeLevelState list \<Rightarrow> int" where
  "lastEventTime levels =
     fold (\<lambda>l last. if rl_LastProcessedEventTime l > last then rl_LastProcessedEventTime l else last) levels 0"

definition encodeRuntimePackedCounted ::
  "(packedHeader \<Rightarrow> 8 word list option) \<Rightarrow> (8 word list \<Rightarrow> 8 word list) \<Rightarrow> StateMutation \<Rightarrow> nat
     \<Rightarrow> PackedError + (8 word list \<times> nat)" where
  "encodeRuntimePackedCounted marshal sha256 m revision =
     (let levels = sort_key rl_LevelID (sm_Levels m)
      in if duplicateLevel levels then Inl (PackedRefusal PackedRuleDuplicateLevel)
         else case levelFingerprints m levels of
           Inl e \<Rightarrow> Inl e
         | Inr fingerprints \<Rightarrow>
             (case walkRecordPoints m
                     (encodePoint (seriesRecordIDs sha256 (ki_SeriesIdentityDigest (sm_Identity m)))
                        (sm_AffectedRecords m) levels)
                     \<lparr>es_pointCount = 0, es_previous = 0, es_legacy = [], es_points = []\<rparr> of
                Inl e \<Rightarrow> Inl e
              | Inr s \<Rightarrow>
                  (let header = \<lparr>ph_Schema = executionStateSchemaV3, ph_Identity = sm_Identity m,
                         ph_BlobRevision = revision, ph_ApplyVersion = sm_ApplyVersion m,
                         ph_MutationDigest = sm_MutationDigest m, ph_LastEventTime = lastEventTime levels,
                         ph_SeriesGuard = sm_SeriesGuard m,
                         ph_Levels = map (\<lambda>i. \<lparr>pl_Mutation = levels ! i, pl_DetectFingerprint = fingerprints ! i\<rparr>)
                                       [0..<length levels],
                         ph_PointCount = int (es_pointCount s), ph_LegacyRecordIDs = es_legacy s\<rparr>
                   in case marshal header of
                        None \<Rightarrow> Inl HeaderNotMarshalled
                      | Some headerBytes \<Rightarrow>
                          (let schema = (if length (es_legacy s) > 0 then packedFrameSchemaV2 else packedFrameSchemaV1);
                               buffer = appendUvarint (packedFrameMagic @ [schema, packedFrameCodecNone])
                                          (of_nat (length headerBytes))
                           in Inr (buffer @ headerBytes @ es_points s, length (es_legacy s))))))"

section \<open>Decoding\<close>

definition packedFrame :: "8 word list \<Rightarrow> bool" where
  "packedFrame raw \<longleftrightarrow> length raw \<ge> packedFrameHeaderLen \<and> take 4 raw = packedFrameMagic"

fun legacyTable ::
  "int \<Rightarrow> packedLegacyRecordID list \<Rightarrow> (int \<rightharpoonup> string) \<Rightarrow> DecodeError + (int \<rightharpoonup> string)" where
  "legacyTable pointCount [] m = Inr m"
| "legacyTable pointCount (e # es) m =
     (if lg_Index e < 0 \<or> lg_Index e \<ge> pointCount \<or> lg_RecordID e = [] then Inl LegacyIndexInvalid
      else if m (lg_Index e) \<noteq> None then Inl LegacyIndexTwice
      else legacyTable pointCount es (m(lg_Index e \<mapsto> lg_RecordID e)))"

definition decodedResult :: "bitmap \<Rightarrow> bitmap \<Rightarrow> nat \<Rightarrow> ExecFactResult" where
  "decodedResult valid anomalous position =
     (if bitSet valid position \<and> bitSet anomalous position then FactAnomalous
      else if bitSet valid position then FactNormal
      else if bitSet anomalous position then FactError
      else FactUnavailable)"

fun decodeFacts :: "bitmap \<Rightarrow> bitmap \<Rightarrow> bitmap \<Rightarrow> nat \<Rightarrow> packedLevel list \<Rightarrow> StateLevelFact list" where
  "decodeFacts present valid anomalous position [] = []"
| "decodeFacts present valid anomalous position (l # ls) =
     (if \<not> bitSet present position then decodeFacts present valid anomalous (Suc position) ls
      else \<lparr>sf_LevelID = rl_LevelID (pl_Mutation l), sf_DetectFingerprint = pl_DetectFingerprint l,
            sf_Result = decodedResult valid anomalous position\<rparr>
           # decodeFacts present valid anomalous (Suc position) ls)"

fun decodePoints ::
  "(int \<Rightarrow> ContractError + string) \<Rightarrow> packedLevel list \<Rightarrow> (int \<rightharpoonup> string) \<Rightarrow> nat \<Rightarrow> nat \<Rightarrow> int \<Rightarrow> 8 word list
     \<Rightarrow> DecodeError + (StateHistoryPoint list \<times> 8 word list)" where
  "decodePoints derive levels legacy point 0 previous rest = Inr ([], rest)"
| "decodePoints derive levels legacy point (Suc n) previous rest =
     (case consumeUvarint rest of
        Inl e \<Rightarrow> Inl (BadVarint e)
      | Inr (delta, rest1) \<Rightarrow>
          (let size = bitmapBytes (length levels)
           in if length rest1 < 3 * size then Inl TruncatedPoint
              else
                (let sourceTime = (if point > 0 then i64 (previous + sint delta) else sint delta);
                     present = take size rest1;
                     valid = take size (drop size rest1);
                     anomalous = take size (drop (2 * size) rest1);
                     rest2 = drop (3 * size) rest1
                 in case (case legacy (int point) of
                            Some rid \<Rightarrow> Inr rid
                          | None \<Rightarrow> (case derive sourceTime of
                                      Inl e \<Rightarrow> Inl (RecordIDUnderivable e) | Inr rid \<Rightarrow> Inr rid)) of
                      Inl e \<Rightarrow> Inl e
                    | Inr recordID \<Rightarrow>
                        (case decodePoints derive levels legacy (Suc point) n sourceTime rest2 of
                           Inl e \<Rightarrow> Inl e
                         | Inr (history, rest3) \<Rightarrow>
                             Inr (\<lparr>hp_RecordID = recordID, hp_SourceTime = sourceTime,
                                   hp_Levels = decodeFacts present valid anomalous 0 levels\<rparr> # history, rest3)))))"

definition decodeRuntimePacked ::
  "(8 word list \<Rightarrow> packedHeader option) \<Rightarrow> (8 word list \<Rightarrow> 8 word list) \<Rightarrow> 8 word list \<Rightarrow> StateKeyIdentity
     \<Rightarrow> DecodeError + RuntimeStateView" where
  "decodeRuntimePacked unmarshal sha256 raw identity =
     (if \<not> packedFrame raw then Inl NotFramed
      else if (raw ! 4 \<noteq> packedFrameSchemaV1 \<and> raw ! 4 \<noteq> packedFrameSchemaV2) \<or> raw ! 5 \<noteq> packedFrameCodecNone
      then Inl UnsupportedFrame
      else case consumeUvarint (drop packedFrameHeaderLen raw) of
        Inl e \<Rightarrow> Inl (BadVarint e)
      | Inr (headerLen, rest) \<Rightarrow>
          if unat headerLen > length rest then Inl TruncatedHeader
          else (case unmarshal (take (unat headerLen) rest) of
            None \<Rightarrow> Inl HeaderUnreadable
          | Some header \<Rightarrow>
              if ph_Schema header \<noteq> executionStateSchemaV3 then Inl UnsupportedSchema
              else (case legacyTable (ph_PointCount header) (ph_LegacyRecordIDs header) Map.empty of
                Inl e \<Rightarrow> Inl e
              | Inr legacyByIndex \<Rightarrow>
                  if ph_Identity header \<noteq> identity \<or> ph_BlobRevision header = 0 then Inl IdentityOrRevision
                  else if ph_PointCount header < 0 then Inl PanicNegativeCapacity
                  else (case decodePoints (seriesRecordIDs sha256 (ki_SeriesIdentityDigest identity))
                               (ph_Levels header) legacyByIndex 0 (nat (ph_PointCount header)) 0
                               (drop (unat headerLen) rest) of
                    Inl e \<Rightarrow> Inl e
                  | Inr (history, rest') \<Rightarrow>
                      if rest' \<noteq> [] then Inl TrailingBytes
                      else Inr \<lparr>rv_Identity = identity, rv_BlobRevision = ph_BlobRevision header,
                             rv_PersistedApplyVersion = ph_ApplyVersion header,
                             rv_PersistedMutationDigest = ph_MutationDigest header,
                             rv_LastProcessedEventTime = ph_LastEventTime header,
                             rv_SeriesGuard = ph_SeriesGuard header,
                             rv_Levels = map pl_Mutation (ph_Levels header), rv_History = history\<rparr>))))"

end
