(* ===== verification/Packed_Correct.thy ===== *)
theory Packed_Correct
  imports Packed
begin

text \<open>
  The framed record reads back as it was written: bit level (the three bitmaps of a point), point
  level (time deltas, derived and carried record ids), frame level (header, schema, lengths).
\<close>

section \<open>The record a mutation leaves behind\<close>

lemma walkLoop_conflictFree:
  assumes "walkLoop skip visit ls rs st = Inr st'"
  shows "walkLoop skip' visit' ls rs t = emitAll skip' visit' (mergedPoints ls rs) t"
  using assms
  by (induction skip visit ls rs st arbitrary: t rule: walkLoop.induct)
    (auto simp: StateHistoryOrder_def emitAll_append split: sum.splits if_splits)

definition recordHistory :: "StateMutation \<Rightarrow> StateHistoryPoint list" where
  "recordHistory m = newest (sm_RetentionPoints m) (mergedPoints (sm_BaseHistory m) (sm_Points m))"

lemma WalkMergedHistory_Inr:
  assumes "WalkMergedHistory base delta retention visit s = Inr s'"
  shows "WalkMergedHistory base delta retention visit' t =
    (case visitList visit' (newest retention (mergedPoints base delta)) t of
       Inl e \<Rightarrow> Inl (WalkVisit e) | Inr t' \<Rightarrow> Inr t')"
proof -
  define skip where "skip = (if retention > 0 then (let tot = MergedHistoryPointCount base delta
      in if tot > retention then tot - retention else 0) else 0)"
  have "map_sum id snd (walkLoop skip visit base delta (0, s)) = Inr s'"
    using assms by (simp add: WalkMergedHistory_def skip_def)
  then obtain st' where "walkLoop skip visit base delta (0, s) = Inr st'"
    by (cases "walkLoop skip visit base delta (0, s)") auto
  note cf = walkLoop_conflictFree [OF this]
  show ?thesis
    by (simp add: WalkMergedHistory_def MergedHistoryPointCount_def mergedCount_eq cf
        emitAll_visitList newest_def Let_def split: sum.split)
qed

lemma walkRecordPoints_Inr:
  assumes "walkRecordPoints m visit s = Inr s'"
  shows "visitList visit (recordHistory m) s = Inr s'"
    and "MergedHistory (sm_BaseHistory m) (sm_Points m) (sm_RetentionPoints m) = Inr (recordHistory m)"
proof -
  have w: "WalkMergedHistory (sm_BaseHistory m) (sm_Points m) (sm_RetentionPoints m) visit s = Inr s'"
    using assms by (auto simp: walkRecordPoints_def split: sum.splits WalkError.splits)
  note all = WalkMergedHistory_Inr [OF w]
  show "visitList visit (recordHistory m) s = Inr s'"
    using w all [of visit s] by (auto simp: recordHistory_def split: sum.splits)
  show "MergedHistory (sm_BaseHistory m) (sm_Points m) (sm_RetentionPoints m) = Inr (recordHistory m)"
    unfolding MergedHistory_def all by (simp add: visitList_snoc recordHistory_def)
qed

section \<open>Levels and fingerprints\<close>

lemma levels_ssorted:
  assumes "\<not> duplicateLevel (sort_key rl_LevelID ls)"
  shows "ssorted_by rl_LevelID (sort_key rl_LevelID ls)"
proof -
  let ?xs = "sort_key rl_LevelID ls"
  have s: "sorted (map rl_LevelID ?xs)" by simp
  have "rl_LevelID (?xs ! i) < rl_LevelID (?xs ! Suc i)" if "Suc i < length ?xs" for i
  proof -
    have "rl_LevelID (?xs ! Suc i) \<noteq> rl_LevelID (?xs ! i)"
      using assms that by (auto simp: duplicateLevel_def list_ex_iff dest: bspec [of _ _ "Suc i"])
    moreover have "rl_LevelID (?xs ! i) \<le> rl_LevelID (?xs ! Suc i)"
      using sorted_key_mono [OF s, of i "Suc i"] that by simp
    ultimately show ?thesis by simp
  qed
  then show ?thesis by (simp add: sorted_wrt_iff_nth_Suc_transp)
qed

lemma levelIndex_Some_iff:
  "ssorted_by rl_LevelID levels \<Longrightarrow>
     levelIndex levels lid = Some i \<longleftrightarrow> i < length levels \<and> rl_LevelID (levels ! i) = lid"
  unfolding levelIndex_def by (intro indexBy_start ssorted_distinct)

lemma fingerprintFacts_spec:
  assumes "fingerprintFacts position fs fps = Inr fps'" "\<forall>lid i. position lid = Some i \<longrightarrow> i < length fps"
  shows "length fps' = length fps \<and> (\<forall>i < length fps. fps ! i \<noteq> [] \<longrightarrow> fps' ! i = fps ! i)
    \<and> (\<forall>f \<in> set fs. \<exists>i. position (sf_LevelID f) = Some i \<and> fps' ! i = sf_DetectFingerprint f \<and> fps' ! i \<noteq> [])"
  using assms
proof (induction fs arbitrary: fps)
  case (Cons f fs)
  from Cons.prems(1) obtain i where i: "position (sf_LevelID f) = Some i" and ne: "sf_DetectFingerprint f \<noteq> []"
    and rest: "fingerprintFacts position fs (fps[i := sf_DetectFingerprint f]) = Inr fps'"
    and ok: "fps ! i = [] \<or> fps ! i = sf_DetectFingerprint f"
    by (auto split: option.splits if_splits) (metis list_update_id)
  have il: "i < length fps" using i Cons.prems(2) by blast
  have "\<forall>lid j. position lid = Some j \<longrightarrow> j < length (fps[i := sf_DetectFingerprint f])" using Cons.prems(2) by simp
  from Cons.IH [OF rest this] il ne i ok show ?case by (auto simp: nth_list_update split: if_splits)
qed simp

definition factsKnown :: "RuntimeLevelState list \<Rightarrow> string list \<Rightarrow> StateHistoryPoint \<Rightarrow> bool" where
  "factsKnown levels fps p \<longleftrightarrow> (\<forall>f \<in> set (hp_Levels p).
     \<exists>i. levelIndex levels (sf_LevelID f) = Some i \<and> fps ! i = sf_DetectFingerprint f)"

lemma visit_fingerprints:
  assumes "visitList (\<lambda>p fps. fingerprintFacts (levelIndex levels) (hp_Levels p) fps) ps fps = Inr fps'"
    and "length fps = length levels" and "ssorted_by rl_LevelID levels"
  shows "length fps' = length levels \<and> (\<forall>i < length levels. fps ! i \<noteq> [] \<longrightarrow> fps' ! i = fps ! i)
    \<and> (\<forall>p \<in> set ps. factsKnown levels fps' p)"
  using assms(1,2)
proof (induction ps arbitrary: fps)
  case (Cons p ps)
  from Cons.prems(1) obtain fps1 where f1: "fingerprintFacts (levelIndex levels) (hp_Levels p) fps = Inr fps1"
    and rest: "visitList (\<lambda>p fps. fingerprintFacts (levelIndex levels) (hp_Levels p) fps) ps fps1 = Inr fps'"
    by (auto split: sum.splits)
  have pos: "\<forall>lid i. levelIndex levels lid = Some i \<longrightarrow> i < length fps"
    using Cons.prems(2) by (simp add: levelIndex_Some_iff [OF assms(3)])
  note s1 = fingerprintFacts_spec [OF f1 pos]
  note ih = Cons.IH [OF rest]
  have "factsKnown levels fps' p"
    unfolding factsKnown_def using s1 ih Cons.prems(2) pos by (metis (no_types, lifting))
  with s1 ih Cons.prems(2) show ?case by (metis set_ConsD)
qed simp

section \<open>The three bitmaps of a point\<close>

definition isValidFact :: "ExecFactResult \<Rightarrow> bool" where
  "isValidFact r \<longleftrightarrow> r = FactNormal \<or> r = FactAnomalous"

definition isAnomalousFact :: "ExecFactResult \<Rightarrow> bool" where
  "isAnomalousFact r \<longleftrightarrow> r = FactAnomalous \<or> r = FactError"

lemma setBit_wf_bitSet:
  assumes "wf_bitmap n bm" "i < n"
  shows "bitSet (setBit bm i True) b \<longleftrightarrow> b = i \<or> bitSet bm b" "wf_bitmap n (setBit bm i True)"
  using assms by (auto simp: wf_bitmap_bitSet_setBit)

lemma encodeFacts_spec:
  assumes "encodeFacts index fs (pr, va, an) = Inr (pr', va', an')"
    and "\<forall>f \<in> set fs. \<exists>i < n. index (sf_LevelID f) = Some i"
    and "wf_bitmap n pr" "wf_bitmap n va" "wf_bitmap n an"
  shows "wf_bitmap n pr' \<and> wf_bitmap n va' \<and> wf_bitmap n an'
    \<and> (\<forall>b. bitSet pr' b \<longleftrightarrow> bitSet pr b \<or> (\<exists>f \<in> set fs. index (sf_LevelID f) = Some b))
    \<and> (\<forall>b. bitSet va' b \<longleftrightarrow> bitSet va b \<or> (\<exists>f \<in> set fs. index (sf_LevelID f) = Some b \<and> isValidFact (sf_Result f)))
    \<and> (\<forall>b. bitSet an' b \<longleftrightarrow> bitSet an b \<or> (\<exists>f \<in> set fs. index (sf_LevelID f) = Some b \<and> isAnomalousFact (sf_Result f)))
    \<and> (\<forall>f \<in> set fs. \<forall>x. sf_Result f \<noteq> FactOther x)"
  using assms
proof (induction fs arbitrary: pr va an)
  case (Cons f fs)
  from Cons.prems(2) obtain i where i: "i < n" "index (sf_LevelID f) = Some i" by auto
  let ?va = "if isValidFact (sf_Result f) then setBit va i True else va"
  and ?an = "if isAnomalousFact (sf_Result f) then setBit an i True else an"
  have rest: "encodeFacts index fs (setBit pr i True, ?va, ?an) = Inr (pr', va', an')"
    and ok: "\<forall>x. sf_Result f \<noteq> FactOther x"
    using Cons.prems(1) i by (auto simp: isValidFact_def isAnomalousFact_def Let_def split: ExecFactResult.splits)
  have "wf_bitmap n (setBit pr i True)" "wf_bitmap n ?va" "wf_bitmap n ?an"
    using Cons.prems(3-5) i by (simp_all add: setBit_wf_bitSet)
  from Cons.IH [OF rest _ this] Cons.prems(2) have ih: "wf_bitmap n pr' \<and> wf_bitmap n va' \<and> wf_bitmap n an'"
    "\<And>b. bitSet pr' b \<longleftrightarrow> bitSet (setBit pr i True) b \<or> (\<exists>f \<in> set fs. index (sf_LevelID f) = Some b)"
    "\<And>b. bitSet va' b \<longleftrightarrow> bitSet ?va b \<or> (\<exists>f \<in> set fs. index (sf_LevelID f) = Some b \<and> isValidFact (sf_Result f))"
    "\<And>b. bitSet an' b \<longleftrightarrow> bitSet ?an b \<or> (\<exists>f \<in> set fs. index (sf_LevelID f) = Some b \<and> isAnomalousFact (sf_Result f))"
    "\<forall>f \<in> set fs. \<forall>x. sf_Result f \<noteq> FactOther x" by auto
  show ?case
    unfolding ih(2-4) using ih(1,5) ok i Cons.prems(3-5) by (auto simp: setBit_wf_bitSet(1))
qed simp

definition packedLevels :: "RuntimeLevelState list \<Rightarrow> string list \<Rightarrow> packedLevel list" where
  "packedLevels levels fps = map (\<lambda>i. \<lparr>pl_Mutation = levels ! i, pl_DetectFingerprint = fps ! i\<rparr>) [0..<length levels]"

lemma packedLevels_sel [simp]:
  "length (packedLevels levels fps) = length levels"
  "i < length levels \<Longrightarrow> packedLevels levels fps ! i = \<lparr>pl_Mutation = levels ! i, pl_DetectFingerprint = fps ! i\<rparr>"
  "map pl_Mutation (packedLevels levels fps) = levels"
  by (auto simp: packedLevels_def comp_def intro: nth_equalityI)

definition decodedFact :: "bitmap \<Rightarrow> bitmap \<Rightarrow> packedLevel list \<Rightarrow> nat \<Rightarrow> StateLevelFact" where
  "decodedFact va an ls i = \<lparr>sf_LevelID = rl_LevelID (pl_Mutation (ls ! i)),
     sf_DetectFingerprint = pl_DetectFingerprint (ls ! i), sf_Result = decodedResult va an i\<rparr>"

lemma decodeFacts_eq:
  "decodeFacts pr va an pos (drop pos ls) = map (decodedFact va an ls) (filter (bitSet pr) [pos..<length ls])"
proof (induction "length ls - pos" arbitrary: pos)
  case (Suc k)
  then have p: "pos < length ls" by simp
  then have "drop pos ls = ls ! pos # drop (Suc pos) ls" by (rule Cons_nth_drop_Suc [symmetric])
  moreover have "[pos..<length ls] = pos # [Suc pos..<length ls]" using p by (rule upt_conv_Cons)
  moreover have "k = length ls - Suc pos" using Suc.hyps(2) by simp
  ultimately show ?case using Suc.hyps(1) [of "Suc pos"] by (simp add: decodedFact_def)
qed simp

text \<open>Decoding the bits of a point's facts yields the facts.\<close>

lemma encodeFacts_bits:
  assumes levels: "ssorted_by rl_LevelID levels"
    and enc: "encodeFacts (levelIndex levels) fs (zero, zero, zero) = Inr (pr, va, an)"
    and zero: "zero = replicate (bitmapBytes (length levels)) 0"
    and known: "\<forall>f \<in> set fs. levelIndex levels (sf_LevelID f) \<noteq> None"
  shows "bitSet pr b \<longleftrightarrow> (\<exists>f \<in> set fs. levelIndex levels (sf_LevelID f) = Some b)"
    and "bitSet va b \<longleftrightarrow> (\<exists>f \<in> set fs. levelIndex levels (sf_LevelID f) = Some b \<and> isValidFact (sf_Result f))"
    and "bitSet an b \<longleftrightarrow> (\<exists>f \<in> set fs. levelIndex levels (sf_LevelID f) = Some b \<and> isAnomalousFact (sf_Result f))"
    and "f \<in> set fs \<Longrightarrow> sf_Result f \<noteq> FactOther x"
    and "wf_bitmap (length levels) pr \<and> wf_bitmap (length levels) va \<and> wf_bitmap (length levels) an"
proof -
  have wf0: "wf_bitmap (length levels) zero" "\<not> bitSet zero b" by (simp_all add: zero)
  have "\<forall>f \<in> set fs. \<exists>i < length levels. levelIndex levels (sf_LevelID f) = Some i"
    using known levelIndex_Some_iff [OF levels] by fastforce
  note sp = encodeFacts_spec [OF enc this wf0(1,1,1)]
  show "bitSet pr b \<longleftrightarrow> (\<exists>f \<in> set fs. levelIndex levels (sf_LevelID f) = Some b)"
    "bitSet va b \<longleftrightarrow> (\<exists>f \<in> set fs. levelIndex levels (sf_LevelID f) = Some b \<and> isValidFact (sf_Result f))"
    "bitSet an b \<longleftrightarrow> (\<exists>f \<in> set fs. levelIndex levels (sf_LevelID f) = Some b \<and> isAnomalousFact (sf_Result f))"
    "f \<in> set fs \<Longrightarrow> sf_Result f \<noteq> FactOther x"
    "wf_bitmap (length levels) pr \<and> wf_bitmap (length levels) va \<and> wf_bitmap (length levels) an"
    using sp wf0(2) by blast+
qed

lemma decodedResult_fact:
  assumes "bitSet va i \<longleftrightarrow> isValidFact r" "bitSet an i \<longleftrightarrow> isAnomalousFact r" "\<And>x. r \<noteq> FactOther x"
  shows "decodedResult va an i = r"
  using assms by (cases r) (auto simp: decodedResult_def isValidFact_def isAnomalousFact_def)

lemma decodedFact_at:
  assumes levels: "ssorted_by rl_LevelID levels"
    and enc: "encodeFacts (levelIndex levels) fs (zero, zero, zero) = Inr (pr, va, an)"
    and zero: "zero = replicate (bitmapBytes (length levels)) 0"
    and fs: "ssorted_by sf_LevelID fs"
    and known: "\<forall>f \<in> set fs. \<exists>i. levelIndex levels (sf_LevelID f) = Some i \<and> fps ! i = sf_DetectFingerprint f"
    and f: "f \<in> set fs" "levelIndex levels (sf_LevelID f) = Some i"
  shows "decodedFact va an (packedLevels levels fps) i = f"
proof -
  note ix = levelIndex_Some_iff [OF levels]
  have "\<forall>f \<in> set fs. levelIndex levels (sf_LevelID f) \<noteq> None" using known by fastforce
  note bits = encodeFacts_bits [OF levels enc zero this]
  have uniq: "g \<in> set fs \<Longrightarrow> levelIndex levels (sf_LevelID g) = Some i \<Longrightarrow> g = f" for g
    using f ssorted_inj [OF fs] by (simp add: ix)
  have "decodedResult va an i = sf_Result f"
    using bits(2,3) [of i] bits(4) [OF f(1)] f uniq by (intro decodedResult_fact) metis+
  moreover have "i < length levels" "rl_LevelID (levels ! i) = sf_LevelID f" using f by (simp_all add: ix)
  moreover have "fps ! i = sf_DetectFingerprint f" using known f by fastforce
  ultimately show ?thesis by (simp add: decodedFact_def)
qed

lemma decode_encodeFacts:
  assumes levels: "ssorted_by rl_LevelID levels"
    and enc: "encodeFacts (levelIndex levels) fs (zero, zero, zero) = Inr (pr, va, an)"
    and zero: "zero = replicate (bitmapBytes (length levels)) 0"
    and fs: "ssorted_by sf_LevelID fs"
    and known: "\<forall>f \<in> set fs. \<exists>i. levelIndex levels (sf_LevelID f) = Some i \<and> fps ! i = sf_DetectFingerprint f"
  shows "decodeFacts pr va an 0 (packedLevels levels fps) = fs"
proof (rule ssorted_ext)
  note at = decodedFact_at [OF levels enc zero fs known]
  have "\<forall>f \<in> set fs. levelIndex levels (sf_LevelID f) \<noteq> None" using known by fastforce
  note bits = encodeFacts_bits(1) [OF levels enc zero this]
  have dec: "decodeFacts pr va an 0 (packedLevels levels fps)
      = map (decodedFact va an (packedLevels levels fps)) (filter (bitSet pr) [0..<length levels])"
    using decodeFacts_eq [of pr va an 0 "packedLevels levels fps"] by simp
  show "set (decodeFacts pr va an 0 (packedLevels levels fps)) = set fs"
  proof (intro equalityI subsetI)
    fix g assume "g \<in> set (decodeFacts pr va an 0 (packedLevels levels fps))"
    then obtain i where i: "bitSet pr i" "g = decodedFact va an (packedLevels levels fps) i" by (auto simp: dec)
    with bits at show "g \<in> set fs" by metis
  next
    fix f assume f: "f \<in> set fs"
    then obtain i where i: "levelIndex levels (sf_LevelID f) = Some i" using known by blast
    then have "i < length levels" "bitSet pr i" using f bits levelIndex_Some_iff [OF levels] by blast+
    with at [OF f i] show "f \<in> set (decodeFacts pr va an 0 (packedLevels levels fps))"
      unfolding dec by (auto intro!: image_eqI [of _ _ i])
  qed
  have "sorted_wrt (\<lambda>i j. rl_LevelID (levels ! i) < rl_LevelID (levels ! j)) [0..<length levels]"
    using levels by (auto simp: sorted_wrt_iff_nth_less)
  then have "sorted_wrt (\<lambda>i j. rl_LevelID (levels ! i) < rl_LevelID (levels ! j)) (filter (bitSet pr) [0..<length levels])"
    by (rule sorted_wrt_filter)
  then show "ssorted_by sf_LevelID (decodeFacts pr va an 0 (packedLevels levels fps))"
    unfolding dec sorted_wrt_map
    by (rule sorted_wrt_mono_rel [rotated]) (auto simp: decodedFact_def)
qed (rule fs)

section \<open>Points\<close>

definition foreignID :: "(int \<Rightarrow> ContractError + string) \<Rightarrow> StateHistoryPoint \<Rightarrow> string option" where
  "foreignID derive p = (if derive (hp_SourceTime p) = Inr (hp_RecordID p) then None else Some (hp_RecordID p))"

fun legacyOf :: "(int \<Rightarrow> ContractError + string) \<Rightarrow> nat \<Rightarrow> StateHistoryPoint list \<Rightarrow> packedLegacyRecordID list" where
  "legacyOf derive k [] = []"
| "legacyOf derive k (p # ps) =
     (case foreignID derive p of None \<Rightarrow> [] | Some rid \<Rightarrow> [\<lparr>lg_Index = int k, lg_RecordID = rid\<rparr>])
     @ legacyOf derive (Suc k) ps"

definition timeDelta :: "nat \<Rightarrow> int \<Rightarrow> int \<Rightarrow> 64 word" where
  "timeDelta k previous t = (if k > 0 then word_of_int (t - previous) else word_of_int t)"

lemma sint_word_of_int: "0 \<le> t \<Longrightarrow> t \<le> maxInt64 \<Longrightarrow> sint (word_of_int t :: 64 word) = t"
  by (simp add: signed_of_int signed_take_bit_int_eq_self maxInt64_def)

lemma timeDelta_back:
  assumes "0 \<le> t" "t \<le> maxInt64" "k > 0 \<Longrightarrow> 0 \<le> previous \<and> previous < t"
  shows "(if k > 0 then i64 (previous + sint (timeDelta k previous t)) else sint (timeDelta k previous t)) = t"
proof (cases "k > 0")
  case True
  have "sint (timeDelta k previous t) = t - previous"
    using True assms unfolding timeDelta_def by (subst if_P) (simp_all add: sint_word_of_int del: of_int_diff)
  with True assms show ?thesis by (simp add: go_arith)
qed (use assms in \<open>simp add: timeDelta_def sint_word_of_int\<close>)

lemma decodePoints_step:
  assumes len: "length pr = bitmapBytes (length levels)" "length va = bitmapBytes (length levels)"
      "length an = bitmapBytes (length levels)"
    and t: "(if k > 0 then i64 (previous + sint delta) else sint delta) = hp_SourceTime p"
    and id: "L (int k) = foreignID derive p"
    and facts: "decodeFacts pr va an 0 levels = hp_Levels p"
    and more: "decodePoints derive levels L (Suc k) n (hp_SourceTime p) rest = Inr (ps, rest')"
  shows "decodePoints derive levels L k (Suc n) previous (putUvarint delta @ pr @ va @ an @ rest) = Inr (p # ps, rest')"
proof -
  have "(case L (int k) of Some rid \<Rightarrow> Inr rid | None \<Rightarrow> (case derive (hp_SourceTime p) of
      Inl e \<Rightarrow> Inl (RecordIDUnderivable e) | Inr rid \<Rightarrow> Inr rid)) = Inr (hp_RecordID p)"
    by (auto simp: id foreignID_def split: option.splits)
  then show ?thesis using t len facts more by (simp add: consume_put Let_def)
qed

lemma encodePoint_Inr:
  assumes "encodePoint derive affected levels p s = Inr s'"
  obtains pr va an where
    "encodeFacts (levelIndex levels) (hp_Levels p) (replicate (bitmapBytes (length levels)) 0,
       replicate (bitmapBytes (length levels)) 0, replicate (bitmapBytes (length levels)) 0) = Inr (pr, va, an)"
    "0 \<le> hp_SourceTime p" "es_pointCount s > 0 \<longrightarrow> es_previous s < hp_SourceTime p"
    "\<exists>expected. derive (hp_SourceTime p) = Inr expected"
    "s' = \<lparr>es_pointCount = Suc (es_pointCount s), es_previous = hp_SourceTime p,
       es_legacy = es_legacy s @ legacyOf derive (es_pointCount s) [p],
       es_points = es_points s @ putUvarint (timeDelta (es_pointCount s) (es_previous s) (hp_SourceTime p)) @ pr @ va @ an\<rparr>"
proof -
  from assms obtain expected where e: "derive (hp_SourceTime p) = Inr expected"
    and t: "\<not> (hp_SourceTime p < 0 \<or> (es_pointCount s > 0 \<and> hp_SourceTime p \<le> es_previous s))"
    by (auto simp: encodePoint_def Let_def split: if_splits sum.splits)
  let ?zero = "replicate (bitmapBytes (length levels)) 0"
  from assms e t obtain pr va an where f: "encodeFacts (levelIndex levels) (hp_Levels p) (?zero, ?zero, ?zero) = Inr (pr, va, an)"
    by (auto simp: encodePoint_def Let_def split: if_splits sum.splits)
  have "s' = \<lparr>es_pointCount = Suc (es_pointCount s), es_previous = hp_SourceTime p,
       es_legacy = es_legacy s @ legacyOf derive (es_pointCount s) [p],
       es_points = es_points s @ putUvarint (timeDelta (es_pointCount s) (es_previous s) (hp_SourceTime p)) @ pr @ va @ an\<rparr>"
    using assms t by (auto simp: encodePoint_def Let_def e f foreignID_def timeDelta_def appendUvarint_def split: if_splits)
  with f e t that show thesis by auto
qed

lemma decode_points:
  assumes "visitList (encodePoint derive affected levels) ps s = Inr s'"
    and levels: "ssorted_by rl_LevelID levels"
    and "\<forall>p \<in> set ps. hp_SourceTime p \<le> maxInt64 \<and> ssorted_by sf_LevelID (hp_Levels p) \<and> factsKnown levels fps p"
    and "es_pointCount s > 0 \<Longrightarrow> 0 \<le> es_previous s"
  shows "\<exists>bytes. es_points s' = es_points s @ bytes
    \<and> es_legacy s' = es_legacy s @ legacyOf derive (es_pointCount s) ps
    \<and> es_pointCount s' = es_pointCount s + length ps
    \<and> (\<forall>L rest. (\<forall>i < length ps. L (int (es_pointCount s + i)) = foreignID derive (ps ! i)) \<longrightarrow>
         decodePoints derive (packedLevels levels fps) L (es_pointCount s) (length ps) (es_previous s) (bytes @ rest)
           = Inr (ps, rest))"
  using assms(1,3,4)
proof (induction ps arbitrary: s)
  case (Cons p ps)
  from Cons.prems(1) obtain s1 where e1: "encodePoint derive affected levels p s = Inr s1"
    and rest: "visitList (encodePoint derive affected levels) ps s1 = Inr s'" by (auto split: sum.splits)
  let ?size = "bitmapBytes (length levels)"
  obtain pr va an where f: "encodeFacts (levelIndex levels) (hp_Levels p)
      (replicate ?size 0, replicate ?size 0, replicate ?size 0) = Inr (pr, va, an)"
    and t: "0 \<le> hp_SourceTime p" "es_pointCount s > 0 \<longrightarrow> es_previous s < hp_SourceTime p"
    and ex: "\<exists>expected. derive (hp_SourceTime p) = Inr expected"
    and s1: "s1 = \<lparr>es_pointCount = Suc (es_pointCount s), es_previous = hp_SourceTime p,
       es_legacy = es_legacy s @ legacyOf derive (es_pointCount s) [p],
       es_points = es_points s @ putUvarint (timeDelta (es_pointCount s) (es_previous s) (hp_SourceTime p)) @ pr @ va @ an\<rparr>"
    by (rule encodePoint_Inr [OF e1])
  have known: "\<forall>f \<in> set (hp_Levels p). \<exists>i. levelIndex levels (sf_LevelID f) = Some i \<and> fps ! i = sf_DetectFingerprint f"
    and sorted: "ssorted_by sf_LevelID (hp_Levels p)" and tmax: "hp_SourceTime p \<le> maxInt64"
    using Cons.prems(2) by (auto simp: factsKnown_def)
  have "\<forall>f \<in> set (hp_Levels p). levelIndex levels (sf_LevelID f) \<noteq> None" using known by fastforce
  from encodeFacts_bits(5) [OF levels f refl this]
  have len: "length pr = ?size" "length va = ?size" "length an = ?size" by (auto simp: wf_bitmap_def)
  note facts = decode_encodeFacts [OF levels f refl sorted known]
  note time = timeDelta_back [OF t(1) tmax, of "es_pointCount s" "es_previous s"]
  from Cons.IH [OF rest] Cons.prems(2) t(1) s1 obtain bytes where b: "es_points s' = es_points s1 @ bytes"
    "es_legacy s' = es_legacy s1 @ legacyOf derive (es_pointCount s1) ps" "es_pointCount s' = es_pointCount s1 + length ps"
    and dec: "\<And>L rest. (\<forall>i < length ps. L (int (es_pointCount s1 + i)) = foreignID derive (ps ! i)) \<Longrightarrow>
         decodePoints derive (packedLevels levels fps) L (es_pointCount s1) (length ps) (es_previous s1) (bytes @ rest) = Inr (ps, rest)"
    by auto
  let ?bytes = "putUvarint (timeDelta (es_pointCount s) (es_previous s) (hp_SourceTime p)) @ pr @ va @ an @ bytes"
  have "decodePoints derive (packedLevels levels fps) L (es_pointCount s) (length (p # ps)) (es_previous s) (?bytes @ rest)
      = Inr (p # ps, rest)"
    if L: "\<forall>i < length (p # ps). L (int (es_pointCount s + i)) = foreignID derive ((p # ps) ! i)" for L rest
  proof -
    have "L (int (es_pointCount s)) = foreignID derive p" using L [rule_format, of 0] by simp
    moreover have "\<forall>i < length ps. L (int (es_pointCount s1 + i)) = foreignID derive (ps ! i)"
    proof (intro allI impI)
      fix i assume "i < length ps"
      with L [rule_format, of "Suc i"] show "L (int (es_pointCount s1 + i)) = foreignID derive (ps ! i)" by (simp add: s1)
    qed
    note dec [OF this, of rest]
    ultimately show ?thesis
      using len facts time t(2) Cons.prems(3) s1 by (simp add: decodePoints_step del: decodePoints.simps)
  qed
  with b s1 show ?case by (intro exI [of _ ?bytes]) auto
qed simp

lemma legacyTable_legacyOf:
  assumes "int (k + length ps) \<le> n" "\<forall>p \<in> set ps. hp_RecordID p \<noteq> []" "\<forall>j \<ge> int k. m j = None"
  shows "\<exists>m'. legacyTable n (legacyOf derive k ps) m = Inr m'
    \<and> (\<forall>i < length ps. m' (int (k + i)) = foreignID derive (ps ! i)) \<and> (\<forall>j < int k. m' j = m j)"
  using assms
proof (induction ps arbitrary: k m)
  case (Cons p ps)
  let ?m = "case foreignID derive p of None \<Rightarrow> m | Some rid \<Rightarrow> m(int k \<mapsto> rid)"
  have step: "legacyTable n (legacyOf derive k (p # ps)) m = legacyTable n (legacyOf derive (Suc k) ps) ?m"
    using Cons.prems by (auto simp: foreignID_def split: option.splits)
  have "int (Suc k + length ps) \<le> n" "\<forall>p \<in> set ps. hp_RecordID p \<noteq> []" "\<forall>j \<ge> int (Suc k). ?m j = None"
    using Cons.prems by (auto split: option.split)
  from Cons.IH [OF this] obtain m' where m': "legacyTable n (legacyOf derive (Suc k) ps) ?m = Inr m'"
    "\<forall>i < length ps. m' (int (Suc k + i)) = foreignID derive (ps ! i)" "\<forall>j < int (Suc k). m' j = ?m j" by blast
  have "m' (int k) = foreignID derive p" using m'(3) Cons.prems(3) by (auto split: option.split)
  then have "m' (int (k + i)) = foreignID derive ((p # ps) ! i)" if "i < length (p # ps)" for i
    using m'(2) that by (cases i) (auto simp only: add_0_right nth_Cons_0 nth_Cons_Suc add_Suc_shift [symmetric] list.size)
  moreover have "m' j = m j" if "j < int k" for j using m'(3) that by (auto split: option.split)
  ultimately show ?case unfolding step m'(1) by blast
qed simp

section \<open>Frames\<close>

text \<open>What a successful encoding consists of.\<close>

lemma encode_Inr:
  assumes "encodeRuntimePackedCounted marshal sha256 m revision = Inr (raw, n)"
  obtains fps s headerBytes schema where
    "ssorted_by rl_LevelID (sort_key rl_LevelID (sm_Levels m))"
    "levelFingerprints m (sort_key rl_LevelID (sm_Levels m)) = Inr fps"
    "walkRecordPoints m (encodePoint (seriesRecordIDs sha256 (ki_SeriesIdentityDigest (sm_Identity m)))
        (sm_AffectedRecords m) (sort_key rl_LevelID (sm_Levels m)))
      \<lparr>es_pointCount = 0, es_previous = 0, es_legacy = [], es_points = []\<rparr> = Inr s"
    "marshal \<lparr>ph_Schema = executionStateSchemaV3, ph_Identity = sm_Identity m, ph_BlobRevision = revision,
        ph_ApplyVersion = sm_ApplyVersion m, ph_MutationDigest = sm_MutationDigest m,
        ph_LastEventTime = lastEventTime (sort_key rl_LevelID (sm_Levels m)), ph_SeriesGuard = sm_SeriesGuard m,
        ph_Levels = packedLevels (sort_key rl_LevelID (sm_Levels m)) fps,
        ph_PointCount = int (es_pointCount s), ph_LegacyRecordIDs = es_legacy s\<rparr> = Some headerBytes"
    "schema = packedFrameSchemaV1 \<or> schema = packedFrameSchemaV2"
    "raw = packedFrameMagic @ [schema, packedFrameCodecNone] @ putUvarint (of_nat (length headerBytes))
       @ headerBytes @ es_points s"
  using assms levels_ssorted [of "sm_Levels m"]
  unfolding encodeRuntimePackedCounted_def Let_def packedLevels_def [symmetric] appendUvarint_def
  by (auto split: if_splits sum.splits option.splits)

text \<open>Reading a frame the encoder laid out, up to the points.\<close>

lemma decode_frame:
  assumes raw: "raw = packedFrameMagic @ [schema, packedFrameCodecNone] @ putUvarint (of_nat (length headerBytes))
      @ headerBytes @ points"
    and schema: "schema = packedFrameSchemaV1 \<or> schema = packedFrameSchemaV2"
    and len: "length headerBytes < 2 ^ 64"
  shows "packedFrame raw" "raw ! 4 = schema" "raw ! 5 = packedFrameCodecNone"
    "consumeUvarint (drop packedFrameHeaderLen raw) = Inr (of_nat (length headerBytes), headerBytes @ points)"
    "unat (of_nat (length headerBytes) :: 64 word) = length headerBytes"
  using len by (simp_all add: raw packedFrame_def packedFrameMagic_def packedFrameHeaderLen_def bytesOf_def
      consume_put unsigned_of_nat take_bit_nat_eq_self nth_append)

section \<open>Properties\<close>

definition wellFormedPoint :: "StateHistoryPoint \<Rightarrow> bool" where
  "wellFormedPoint p \<longleftrightarrow> hp_SourceTime p \<le> maxInt64 \<and> hp_RecordID p \<noteq> [] \<and> ssorted_by sf_LevelID (hp_Levels p)"

lemma recordHistory_wellFormed:
  "\<forall>p \<in> set (sm_BaseHistory m) \<union> set (sm_Points m). wellFormedPoint p \<Longrightarrow> \<forall>p \<in> set (recordHistory m). wellFormedPoint p"
  using set_mergedPoints [of "sm_BaseHistory m" "sm_Points m"]
  by (auto simp: recordHistory_def newest_def dest: in_set_dropD split: if_splits)

lemma encoded_points:
  fixes m sha256
  defines "levels \<equiv> sort_key rl_LevelID (sm_Levels m)"
    and "derive \<equiv> seriesRecordIDs sha256 (ki_SeriesIdentityDigest (sm_Identity m))"
  assumes sorted: "ssorted_by rl_LevelID levels"
    and fp: "levelFingerprints m levels = Inr fps"
    and walk: "walkRecordPoints m (encodePoint derive (sm_AffectedRecords m) levels)
      \<lparr>es_pointCount = 0, es_previous = 0, es_legacy = [], es_points = []\<rparr> = Inr s"
    and wf: "\<forall>p \<in> set (sm_BaseHistory m) \<union> set (sm_Points m). wellFormedPoint p"
  shows "es_pointCount s = length (recordHistory m)"
    and "\<exists>L. legacyTable (int (es_pointCount s)) (es_legacy s) Map.empty = Inr L
      \<and> decodePoints derive (packedLevels levels fps) L 0 (length (recordHistory m)) 0 (es_points s)
          = Inr (recordHistory m, [])"
proof -
  note wfh = recordHistory_wellFormed [OF wf]
  have "\<forall>p \<in> set (recordHistory m). factsKnown levels fps p"
    using visit_fingerprints [OF walkRecordPoints_Inr(1) [OF fp [unfolded levelFingerprints_def]] _ sorted] by simp
  with wfh have "\<forall>p \<in> set (recordHistory m). hp_SourceTime p \<le> maxInt64 \<and> ssorted_by sf_LevelID (hp_Levels p)
      \<and> factsKnown levels fps p"
    by (auto simp: wellFormedPoint_def)
  from decode_points [OF walkRecordPoints_Inr(1) [OF walk] sorted this]
  have pts: "es_legacy s = legacyOf derive 0 (recordHistory m)" "es_pointCount s = length (recordHistory m)"
    and dec: "\<And>L rest. \<forall>i < length (recordHistory m). L (int i) = foreignID derive (recordHistory m ! i) \<Longrightarrow>
      decodePoints derive (packedLevels levels fps) L 0 (length (recordHistory m)) 0 (es_points s @ rest)
        = Inr (recordHistory m, rest)"
    by auto
  show "es_pointCount s = length (recordHistory m)" by (rule pts(2))
  from legacyTable_legacyOf [of 0 "recordHistory m" "int (es_pointCount s)" Map.empty derive] wfh
  obtain L where "legacyTable (int (es_pointCount s)) (es_legacy s) Map.empty = Inr L"
    "\<forall>i < length (recordHistory m). L (int i) = foreignID derive (recordHistory m ! i)"
    by (auto simp: pts wellFormedPoint_def)
  with dec [of L "[]"] show "\<exists>L. legacyTable (int (es_pointCount s)) (es_legacy s) Map.empty = Inr L
      \<and> decodePoints derive (packedLevels levels fps) L 0 (length (recordHistory m)) 0 (es_points s)
          = Inr (recordHistory m, [])" by auto
qed

text \<open>
  C6: what the framed record stores is read back.  If a mutation of well-formed points encodes under
  a positive revision, and \<open>encoding/json\<close> reads back the header it wrote, then decoding the frame
  for the mutation's identity succeeds and returns the revision, version, digest, guard and Levels
  of the mutation and, as the history, exactly the merge of the loaded history with the round's
  points under the retention bound, record ids (derived or carried), times and facts included.
\<close>

theorem packed_roundtrip:
  assumes enc: "encodeRuntimePackedCounted marshal sha256 m revision = Inr (raw, n)"
    and json: "\<forall>h b. marshal h = Some b \<longrightarrow> unmarshal b = Some h \<and> length b < 2 ^ 64"
    and rev: "revision \<noteq> 0"
    and wf: "\<forall>p \<in> set (sm_BaseHistory m) \<union> set (sm_Points m). wellFormedPoint p"
  shows "\<exists>hist. MergedHistory (sm_BaseHistory m) (sm_Points m) (sm_RetentionPoints m) = Inr hist
    \<and> decodeRuntimePacked unmarshal sha256 raw (sm_Identity m) =
      Inr \<lparr>rv_Identity = sm_Identity m, rv_BlobRevision = revision,
           rv_PersistedApplyVersion = sm_ApplyVersion m, rv_PersistedMutationDigest = sm_MutationDigest m,
           rv_LastProcessedEventTime = lastEventTime (sort_key rl_LevelID (sm_Levels m)),
           rv_SeriesGuard = sm_SeriesGuard m, rv_Levels = sort_key rl_LevelID (sm_Levels m),
           rv_History = hist\<rparr>"
proof (rule encode_Inr [OF enc])
  let ?levels = "sort_key rl_LevelID (sm_Levels m)"
  and ?derive = "seriesRecordIDs sha256 (ki_SeriesIdentityDigest (sm_Identity m))"
  fix fps s headerBytes schema
  assume levels: "ssorted_by rl_LevelID ?levels"
    and fp: "levelFingerprints m ?levels = Inr fps"
    and walk: "walkRecordPoints m (encodePoint ?derive (sm_AffectedRecords m) ?levels)
      \<lparr>es_pointCount = 0, es_previous = 0, es_legacy = [], es_points = []\<rparr> = Inr s"
    and header: "marshal \<lparr>ph_Schema = executionStateSchemaV3, ph_Identity = sm_Identity m, ph_BlobRevision = revision,
        ph_ApplyVersion = sm_ApplyVersion m, ph_MutationDigest = sm_MutationDigest m,
        ph_LastEventTime = lastEventTime ?levels, ph_SeriesGuard = sm_SeriesGuard m,
        ph_Levels = packedLevels ?levels fps, ph_PointCount = int (es_pointCount s),
        ph_LegacyRecordIDs = es_legacy s\<rparr> = Some headerBytes"
    and schema: "schema = packedFrameSchemaV1 \<or> schema = packedFrameSchemaV2"
    and raw: "raw = packedFrameMagic @ [schema, packedFrameCodecNone] @ putUvarint (of_nat (length headerBytes))
       @ headerBytes @ es_points s"
  obtain L where L: "legacyTable (int (es_pointCount s)) (es_legacy s) Map.empty = Inr L"
    "decodePoints ?derive (packedLevels ?levels fps) L 0 (length (recordHistory m)) 0 (es_points s)
       = Inr (recordHistory m, [])"
    using encoded_points(2) [OF levels fp walk wf] by blast
  note frame = decode_frame [OF raw schema conjunct2 [OF json [rule_format, OF header]]]
  have "decodeRuntimePacked unmarshal sha256 raw (sm_Identity m) = Inr
      \<lparr>rv_Identity = sm_Identity m, rv_BlobRevision = revision,
       rv_PersistedApplyVersion = sm_ApplyVersion m, rv_PersistedMutationDigest = sm_MutationDigest m,
       rv_LastProcessedEventTime = lastEventTime ?levels, rv_SeriesGuard = sm_SeriesGuard m,
       rv_Levels = ?levels, rv_History = recordHistory m\<rparr>"
    unfolding decodeRuntimePacked_def
    using frame schema json header rev L by (simp add: encoded_points(1) [OF levels fp walk wf])
  with walkRecordPoints_Inr(2) [OF walk] show ?thesis by blast
qed

text \<open>A record with one inherited point whose id is carried and one fresh point whose id derives.\<close>

definition exampleIdentity :: StateKeyIdentity where
  "exampleIdentity = \<lparr>ki_Plan = \<lparr>pi_TenantID = ''t'', pi_BusinessID = ''2'', pi_StrategyID = ''9''\<rparr>,
     ki_StateGeneration = ''g'', ki_SeriesIdentityDigest = replicate 64 CHR ''a''\<rparr>"

definition exampleLevel :: RuntimeLevelState where
  "exampleLevel = \<lparr>rl_LevelID = 1, rl_LevelStateCompatibility = ''c'', rl_HistoryCompleteness = ''FULL'',
     rl_GapReasonCode = [], rl_WarmupRequirementRef = [], rl_LastProcessedEventTime = 60\<rparr>"

definition exampleFactPoint :: "string \<Rightarrow> int \<Rightarrow> ExecFactResult \<Rightarrow> StateHistoryPoint" where
  "exampleFactPoint rid t r = \<lparr>hp_RecordID = rid, hp_SourceTime = t,
     hp_Levels = [\<lparr>sf_LevelID = 1, sf_DetectFingerprint = ''f'', sf_Result = r\<rparr>]\<rparr>"

definition exampleVersion :: ApplyVersion where
  "exampleVersion = \<lparr>av_StateApplyEpoch = 1, av_EvaluationTime = 60, av_SlotDigest = ''s''\<rparr>"

definition exampleMutation :: StateMutation where
  "exampleMutation = \<lparr>sm_Identity = exampleIdentity, sm_ApplyVersion = exampleVersion, sm_MutationDigest = ''d'',
     sm_AffectedRecords = [\<lparr>ra_RecordID = ''00'', ra_SourceTime = 60\<rparr>], sm_SeriesGuard = None,
     sm_Levels = [exampleLevel], sm_Points = [exampleFactPoint ''00'' 60 FactError],
     sm_RetentionPoints = 5, sm_BaseHistory = [exampleFactPoint ''old'' 30 FactAnomalous]\<rparr>"

definition exampleHeader :: packedHeader where
  "exampleHeader = \<lparr>ph_Schema = executionStateSchemaV3, ph_Identity = exampleIdentity, ph_BlobRevision = 7,
     ph_ApplyVersion = exampleVersion, ph_MutationDigest = ''d'', ph_LastEventTime = 60, ph_SeriesGuard = None,
     ph_Levels = [\<lparr>pl_Mutation = exampleLevel, pl_DetectFingerprint = ''f''\<rparr>], ph_PointCount = 2,
     ph_LegacyRecordIDs = [\<lparr>lg_Index = 0, lg_RecordID = ''old''\<rparr>]\<rparr>"

definition exampleRaw :: "8 word list" where
  "exampleRaw = packedFrameMagic @ [2, 0, 1, 42, 30, 1, 1, 1, 30, 1, 0, 1]"

lemma char_zero: "char_of (48 :: nat) = CHR ''0''"
  by code_simp

lemma exampleDerive: "0 \<le> t \<Longrightarrow> seriesRecordIDs (\<lambda>_. [0]) (replicate 64 CHR ''a'') t = Inr ''00''"
  by (simp add: seriesRecordIDs_def NewRecordIDDeriverV2_def deriverDerive_def hex_replicate hexEncode_def hexDigit_def Let_def char_zero)

lemma exampleRaw_encode:
  "encodeRuntimePackedCounted (\<lambda>h. if h = exampleHeader then Some [42] else None) (\<lambda>_. [0]) exampleMutation 7
     = Inr (exampleRaw, 1)"
  by (simp add: encodeRuntimePackedCounted_def Let_def exampleMutation_def exampleIdentity_def duplicateLevel_def
      levelFingerprints_def walkRecordPoints_def WalkMergedHistory_def MergedHistoryPointCount_def StateHistoryOrder_def
      emitPoint_def exampleFactPoint_def levelIndex_def exampleLevel_def encodePoint_def exampleDerive
      MaxLegacyRecordIDLength_def bitmapBytes_def setBit_def appendUvarint_def putUvarint.simps exampleHeader_def
      lastEventTime_def exampleRaw_def packedFrameSchemaV2_def packedFrameCodecNone_def)

theorem packed_roundtrip_witness:
  "\<exists>hist. MergedHistory (sm_BaseHistory exampleMutation) (sm_Points exampleMutation) 5 = Inr hist
     \<and> map_sum id rv_History (decodeRuntimePacked (\<lambda>b. if b = [42] then Some exampleHeader else None) (\<lambda>_. [0])
          exampleRaw exampleIdentity) = Inr hist"
proof -
  have "\<forall>p \<in> set (sm_BaseHistory exampleMutation) \<union> set (sm_Points exampleMutation). wellFormedPoint p"
    by (simp add: exampleMutation_def exampleFactPoint_def wellFormedPoint_def maxInt64_def)
  from packed_roundtrip [OF exampleRaw_encode, where unmarshal = "\<lambda>b. if b = [42] then Some exampleHeader else None", OF _ _ this]
  show ?thesis by (fastforce simp: exampleMutation_def split: if_splits)
qed



end
