(* ===== verification/Threshold.thy ===== *)
theory Threshold
  imports Codec Complex_Main
begin

text \<open>
  The Threshold algorithm: a value of a record read as a decimal, scaled to a fixed point of six
  places (\<open>strategy/normalizer.go\<close>), and the compiled predicate it is compared with
  (\<open>NormalizedNumber\<close> and \<open>Predicate\<close> of \<open>strategy/types.go\<close>, the predicate of
  \<open>strategy/registry.go\<close>, the detector of \<open>detect/threshold.go\<close>).

  \<open>big.Int\<close> is \<^typ>\<open>int\<close> and \<open>big.Rat\<close>, which is kept in lowest terms, is \<^typ>\<open>rat\<close> with
  \<^const>\<open>quotient_of\<close> for \<open>Num\<close> and \<open>Denom\<close>.  Text is the bytes of a Go string.
\<close>

section \<open>Normalized numbers\<close>

record NormalizedNumber =
  nn_negative :: bool
  nn_high :: "64 word"
  nn_low :: "64 word"

definition zeroNumber :: NormalizedNumber where
  "zeroNumber = \<lparr>nn_negative = False, nn_high = 0, nn_low = 0\<rparr>"

text \<open>Two words, the high one first, read as one big-endian number.\<close>

definition magnitude :: "NormalizedNumber \<Rightarrow> int" where
  "magnitude n = uint (nn_high n) * 2 ^ 64 + uint (nn_low n)"

text \<open>\<open>big.Int.String\<close> of a number that is not negative.\<close>

fun formatInt :: "int \<Rightarrow> string" where
  "formatInt m = (if m < 10 then [char_of (48 + m)] else formatInt (m div 10) @ [char_of (48 + m mod 10)])"

declare formatInt.simps [simp del]

definition CanonicalDecimal :: "NormalizedNumber \<Rightarrow> string" where
  "CanonicalDecimal n =
     (let plain = formatInt (magnitude n);
          digits = (if length plain \<le> 6 then replicate (7 - length plain) CHR ''0'' @ plain else plain);
          result = take (length digits - 6) digits @ [CHR ''.''] @ drop (length digits - 6) digits
      in if nn_negative n \<and> (nn_high n \<noteq> 0 \<or> nn_low n \<noteq> 0) then CHR ''-'' # result else result)"

definition compareMagnitude :: "NormalizedNumber \<Rightarrow> NormalizedNumber \<Rightarrow> int" where
  "compareMagnitude n other =
     (if nn_high n < nn_high other \<or> nn_high n = nn_high other \<and> nn_low n < nn_low other then - 1
      else if nn_high n > nn_high other \<or> nn_high n = nn_high other \<and> nn_low n > nn_low other then 1
      else 0)"

definition compareNumber :: "NormalizedNumber \<Rightarrow> NormalizedNumber \<Rightarrow> int" where
  "compareNumber n other =
     (if nn_negative n \<noteq> nn_negative other then (if nn_negative n then - 1 else 1)
      else if nn_negative n then - compareMagnitude n other
      else compareMagnitude n other)"

text \<open>\<open>big.Int.BitLen\<close>\<close>

fun bitLen :: "int \<Rightarrow> nat" where
  "bitLen m = (if m \<le> 0 then 0 else Suc (bitLen (m div 2)))"

declare bitLen.simps [simp del]

definition normalizedNumberFromBigInt :: "int \<Rightarrow> NormalizedNumber option" where
  "normalizedNumberFromBigInt v =
     (let m = \<bar>v\<bar> in
      if bitLen m > 127 then None
      else Some \<lparr>nn_negative = v < 0, nn_high = word_of_int (m div 2 ^ 64), nn_low = word_of_int (m mod 2 ^ 64)\<rparr>)"

section \<open>Decimal text\<close>

definition normalizedDecimalScale :: int where "normalizedDecimalScale = 1000000"

definition isDigit :: "char \<Rightarrow> bool" where
  "isDigit c \<longleftrightarrow> 48 \<le> (of_char c :: int) \<and> (of_char c :: int) \<le> 57"

definition digitValue :: "char \<Rightarrow> int" where
  "digitValue c = of_char c - 48"

definition parseNat :: "string \<Rightarrow> int" where
  "parseNat ds = foldl (\<lambda>n c. 10 * n + digitValue c) 0 ds"

text \<open>
  The groups of \<open>decimalPattern\<close>, the empty text for one that took no part:
  \<open>^(-?)(0|[1-9][0-9]*)(?:\.([0-9]+))?(?:[eE]([+-]?[0-9]+))?$\<close>.
\<close>

record decimalMatch =
  dm_sign :: string
  dm_whole :: string
  dm_fraction :: string
  dm_exponent :: string

definition matchExponent :: "string \<Rightarrow> string option" where
  "matchExponent text =
     (case text of
        [] \<Rightarrow> Some []
      | c # cs \<Rightarrow>
          (let sign = (case cs of d # _ \<Rightarrow> if d = CHR ''+'' \<or> d = CHR ''-'' then [d] else [] | [] \<Rightarrow> []);
               ds = drop (length sign) cs
           in if (c = CHR ''e'' \<or> c = CHR ''E'') \<and> ds \<noteq> [] \<and> list_all isDigit ds then Some cs else None))"

definition matchFraction :: "string \<Rightarrow> (string \<times> string) option" where
  "matchFraction text =
     (case text of
        c # cs \<Rightarrow>
          if c = CHR ''.''
          then (if takeWhile isDigit cs = [] then None
                else map_option (Pair (takeWhile isDigit cs)) (matchExponent (dropWhile isDigit cs)))
          else map_option (Pair []) (matchExponent text)
      | [] \<Rightarrow> Some ([], []))"

definition decimalPattern :: "string \<Rightarrow> decimalMatch option" where
  "decimalPattern text =
     (let sign = takeWhile (\<lambda>c. c = CHR ''-'') (take 1 text);
          body = drop (length sign) text;
          whole = takeWhile isDigit body
      in if whole = [] \<or> hd whole = CHR ''0'' \<and> length whole \<noteq> 1 then None
         else map_option (\<lambda>(fraction, exponent).
                \<lparr>dm_sign = sign, dm_whole = whole, dm_fraction = fraction, dm_exponent = exponent\<rparr>)
                (matchFraction (dropWhile isDigit body)))"

text \<open>
  \<open>strconv.Atoi\<close> of a matched exponent.  A number that does not fit an \<open>int\<close> is an error there, which
  the caller answers as it answers any number out of its own range.
\<close>

definition atoi :: "string \<Rightarrow> int" where
  "atoi text =
     (case text of
        c # cs \<Rightarrow> if c = CHR ''-'' then - parseNat cs else if c = CHR ''+'' then parseNat cs else parseNat text
      | [] \<Rightarrow> 0)"

definition parseDecimalRationalMatch :: "string \<Rightarrow> decimalMatch \<Rightarrow> bool \<Rightarrow> rat option" where
  "parseDecimalRationalMatch text matches allowExponent =
     (if text = [] \<or> length text > 128 \<or> \<not> allowExponent \<and> dm_exponent matches \<noteq> [] then None
      else
        let parsed = atoi (dm_exponent matches) in
        if dm_exponent matches \<noteq> [] \<and> (parsed < - 128 \<or> parsed > 128) then None
        else
          let exponent = (if dm_exponent matches \<noteq> [] then parsed else 0);
              plain = parseNat (dm_whole matches @ dm_fraction matches);
              numerator = (if dm_sign matches = ''-'' then - plain else plain);
              scale = int (length (dm_fraction matches)) - exponent
          in Some (if scale > 0 then of_int numerator / of_int (10 ^ nat scale)
                   else if scale < 0 then of_int (numerator * 10 ^ nat (- scale))
                   else of_int numerator))"

definition parseDecimalRational :: "string \<Rightarrow> bool \<Rightarrow> rat option" where
  "parseDecimalRational text allowExponent =
     (if text = [] \<or> length text > 128 then None
      else case decimalPattern text of
             None \<Rightarrow> None
           | Some matches \<Rightarrow> parseDecimalRationalMatch text matches allowExponent)"

section \<open>Normalization\<close>

text \<open>Half to even: \<open>QuoRem\<close> truncates, and the remainder decides whether to step away from zero.\<close>

definition normalizeRational :: "rat \<Rightarrow> int \<Rightarrow> NormalizedNumber option" where
  "normalizeRational r multiplier =
     (if multiplier \<le> 0 then None
      else
        let (numerator, denominator) = quotient_of (r * of_int multiplier * of_int normalizedDecimalScale);
            quotient = numerator sdiv denominator;
            remainder = numerator smod denominator;
            twiceRemainder = 2 * \<bar>remainder\<bar>
        in normalizedNumberFromBigInt
             (if twiceRemainder > denominator \<or> twiceRemainder = denominator \<and> odd quotient
              then (if numerator < 0 then quotient - 1 else quotient + 1)
              else quotient))"

text \<open>\<open>bytes.TrimSpace\<close>: the encodings of the runes \<open>unicode.IsSpace\<close> accepts.\<close>

definition spaceRunes :: "string list" where
  "spaceRunes =
     [[CHR 0x09], [CHR 0x0A], [CHR 0x0B], [CHR 0x0C], [CHR 0x0D], [CHR 0x20],
      [CHR 0xC2, CHR 0x85], [CHR 0xC2, CHR 0xA0], [CHR 0xE1, CHR 0x9A, CHR 0x80],
      [CHR 0xE2, CHR 0x80, CHR 0x80], [CHR 0xE2, CHR 0x80, CHR 0x81], [CHR 0xE2, CHR 0x80, CHR 0x82],
      [CHR 0xE2, CHR 0x80, CHR 0x83], [CHR 0xE2, CHR 0x80, CHR 0x84], [CHR 0xE2, CHR 0x80, CHR 0x85],
      [CHR 0xE2, CHR 0x80, CHR 0x86], [CHR 0xE2, CHR 0x80, CHR 0x87], [CHR 0xE2, CHR 0x80, CHR 0x88],
      [CHR 0xE2, CHR 0x80, CHR 0x89], [CHR 0xE2, CHR 0x80, CHR 0x8A], [CHR 0xE2, CHR 0x80, CHR 0xA8],
      [CHR 0xE2, CHR 0x80, CHR 0xA9], [CHR 0xE2, CHR 0x80, CHR 0xAF], [CHR 0xE2, CHR 0x81, CHR 0x9F],
      [CHR 0xE3, CHR 0x80, CHR 0x80]]"

definition leadingSpace :: "string list \<Rightarrow> string \<Rightarrow> nat" where
  "leadingSpace runes text =
     (case filter (\<lambda>r. r \<noteq> [] \<and> take (length r) text = r) runes of [] \<Rightarrow> 0 | r # _ \<Rightarrow> length r)"

lemma leadingSpace_le: "leadingSpace runes text \<le> length text"
proof (cases "filter (\<lambda>r. r \<noteq> [] \<and> take (length r) text = r) runes")
  case (Cons r rs)
  then have "r \<in> set (filter (\<lambda>r. r \<noteq> [] \<and> take (length r) text = r) runes)" by simp
  then have "length (take (length r) text) = length r" by simp
  with Cons show ?thesis by (simp add: leadingSpace_def)
qed (simp add: leadingSpace_def)

function trimLeading :: "string list \<Rightarrow> string \<Rightarrow> string" where
  "trimLeading runes text =
     (if leadingSpace runes text = 0 then text else trimLeading runes (drop (leadingSpace runes text) text))"
  by pat_completeness auto
termination
proof (relation "measure (length \<circ> snd)")
  fix runes :: "string list" and s :: string
  assume "leadingSpace runes s \<noteq> 0"
  with leadingSpace_le [of runes s]
  show "((runes, drop (leadingSpace runes s) s), runes, s) \<in> measure (length \<circ> snd)" by simp
qed simp

declare trimLeading.simps [simp del]

definition TrimSpace :: "string \<Rightarrow> string" where
  "TrimSpace text = rev (trimLeading (map rev spaceRunes) (rev (trimLeading spaceRunes text)))"

record NumericNormalizerSpec =
  ns_ref :: string
  ns_sourceUnit :: string
  ns_targetUnit :: string
  ns_sourceMultiplier :: int
  ns_decimalPlaces :: nat
  ns_rounding :: string

record NormalizeResult =
  nr_value :: NormalizedNumber
  nr_reasonCode :: string

definition ReasonRequiredValueMissing :: string where "ReasonRequiredValueMissing = ''REQUIRED_VALUE_MISSING''"
definition ReasonRequiredValueTypeMismatch :: string where
  "ReasonRequiredValueTypeMismatch = ''REQUIRED_VALUE_TYPE_MISMATCH''"
definition ReasonRequiredValueNormalizationFailed :: string where
  "ReasonRequiredValueNormalizationFailed = ''REQUIRED_VALUE_NORMALIZATION_FAILED''"

definition refusedValue :: "string \<Rightarrow> NormalizeResult" where
  "refusedValue reason = \<lparr>nr_value = zeroNumber, nr_reasonCode = reason\<rparr>"

definition Normalize :: "NumericNormalizerSpec \<Rightarrow> string \<Rightarrow> NormalizeResult" where
  "Normalize s raw =
     (let trimmed = TrimSpace raw in
      if trimmed = [] \<or> trimmed = ''null'' then refusedValue ReasonRequiredValueMissing
      else if hd trimmed \<in> {CHR 0x22, CHR 0x7B, CHR 0x5B} \<or> trimmed = ''true'' \<or> trimmed = ''false''
      then refusedValue ReasonRequiredValueTypeMismatch
      else case decimalPattern trimmed of
             None \<Rightarrow> refusedValue ReasonRequiredValueTypeMismatch
           | Some matches \<Rightarrow>
               (case parseDecimalRationalMatch trimmed matches True of
                  None \<Rightarrow> refusedValue ReasonRequiredValueNormalizationFailed
                | Some r \<Rightarrow>
                    (case normalizeRational r (ns_sourceMultiplier s) of
                       None \<Rightarrow> refusedValue ReasonRequiredValueNormalizationFailed
                     | Some v \<Rightarrow> \<lparr>nr_value = v, nr_reasonCode = []\<rparr>)))"

definition resultAvailable :: "NormalizeResult \<Rightarrow> bool" where
  "resultAvailable r \<longleftrightarrow> nr_reasonCode r = []"

section \<open>Units\<close>

record unitSpec =
  us_unitID :: string
  us_targetUnit :: string
  us_identity :: bool
  us_suffixes :: "string list"
  us_defaultIndex :: nat
  us_factorsToBase :: "int list"

definition powers :: "int \<Rightarrow> nat \<Rightarrow> int list" where
  "powers factor n = foldl (\<lambda>result _. result @ [i64 (last result * factor)]) [1] [1..<n]"

definition identityIDs :: "string list" where
  "identityIDs = [[], ''none'', ''short'', ''celsius'', ''fahrenheit'', ''kelvin'']"

definition binaryIDs :: "(string \<times> nat) list" where
  "binaryIDs = [(''bits'', 0), (''bytes'', 0), (''kbytes'', 1), (''mbytes'', 2), (''gbytes'', 3), (''tbytes'', 4), (''pbytes'', 5)]"

definition decimalIDs :: "(string \<times> nat) list" where
  "decimalIDs =
     [(''decbits'', 0), (''decbytes'', 0), (''pps'', 0), (''bps'', 0), (''Bps'', 0), (''hertz'', 0),
      (''deckbytes'', 1), (''KBs'', 1), (''Kbits'', 1), (''decmbytes'', 2), (''MBs'', 2), (''Mbits'', 2),
      (''decgbytes'', 3), (''GBs'', 3), (''Gbits'', 3), (''dectbytes'', 4), (''TBs'', 4), (''Tbits'', 4),
      (''decpbytes'', 5), (''PBs'', 5), (''Pbits'', 5)]"

definition microseconds :: string where "microseconds = [CHR 0xC2, CHR 0xB5, CHR ''s'']"

definition timeSuffixes :: "string list" where
  "timeSuffixes = [''ns'', microseconds, ''ms'', ''s'', ''m'', ''h'', ''d'']"

definition countIDs :: "string list" where
  "countIDs = [''cps'', ''ops'', ''reqps'', ''rps'', ''wps'', ''iops'', ''cpm'', ''opm'', ''rpm'', ''wpm'']"

definition unitSpecFor :: "string \<Rightarrow> unitSpec option" where
  "unitSpecFor unitID =
     (if unitID \<in> set identityIDs
      then Some \<lparr>us_unitID = unitID, us_targetUnit = unitID, us_identity = True, us_suffixes = [[]], us_defaultIndex = 0,
                us_factorsToBase = [1]\<rparr>
      else if unitID = ''percent'' \<or> unitID = ''percentunit''
      then Some \<lparr>us_unitID = unitID, us_targetUnit = ''%'', us_identity = False, us_suffixes = [''%'', ''x100%''],
                us_defaultIndex = (if unitID = ''percentunit'' then 1 else 0), us_factorsToBase = [1, 100]\<rparr>
      else case map_of binaryIDs unitID of
        Some index \<Rightarrow>
          Some \<lparr>us_unitID = unitID, us_targetUnit = ''base'', us_identity = False,
                us_suffixes = [[], ''Ki'', ''Mi'', ''Gi'', ''Ti'', ''Pi'', ''Ei''], us_defaultIndex = index,
                us_factorsToBase = powers 1024 7\<rparr>
      | None \<Rightarrow> (case map_of decimalIDs unitID of
        Some index \<Rightarrow>
          Some \<lparr>us_unitID = unitID, us_targetUnit = ''base'', us_identity = False,
                us_suffixes = [[], ''k'', ''M'', ''G'', ''T'', ''P'', ''E''], us_defaultIndex = index,
                us_factorsToBase = powers 1000 7\<rparr>
      | None \<Rightarrow> (case map_of (zip timeSuffixes [0..<7]) unitID of
        Some index \<Rightarrow>
          Some \<lparr>us_unitID = unitID, us_targetUnit = ''ns'', us_identity = False, us_suffixes = timeSuffixes,
                us_defaultIndex = index,
                us_factorsToBase = [1, 1000, 1000000, 1000000000, 60000000000, 3600000000000, 86400000000000]\<rparr>
      | None \<Rightarrow>
          (if unitID \<in> set countIDs
           then Some \<lparr>us_unitID = unitID, us_targetUnit = ''base'', us_identity = False,
                     us_suffixes = [[], ''K'', ''M'', ''B'', ''T''], us_defaultIndex = 0,
                     us_factorsToBase = powers 1000 5\<rparr>
           else None))))"

definition thresholdMultiplier :: "unitSpec \<Rightarrow> string \<Rightarrow> int option" where
  "thresholdMultiplier spec thresholdPrefix =
     (if thresholdPrefix \<noteq> [] \<and> \<not> us_identity spec
      then map_option (\<lambda>index. us_factorsToBase spec ! index)
             (map_of (zip (us_suffixes spec) [0..<length (us_suffixes spec)]) thresholdPrefix)
      else Some 1)"

text \<open>\<open>strings.Split(dataUnit, "||")\<close>, of which two parts are used.\<close>

fun splitBars :: "string \<Rightarrow> string list" where
  "splitBars [] = [[]]"
| "splitBars [c] = [[c]]"
| "splitBars (c # d # cs) =
     (if c = CHR ''|'' \<and> d = CHR ''|'' then [] # splitBars cs
      else (c # hd (splitBars (d # cs))) # tl (splitBars (d # cs)))"

definition unitIDOf :: "string \<Rightarrow> string" where
  "unitIDOf dataUnit = (case splitBars dataUnit of [_, second] \<Rightarrow> second | _ \<Rightarrow> dataUnit)"

text \<open>The digest of the normalizer's content is the parameter \<open>derive\<close>, which may fail.\<close>

definition compileUnitNormalizer ::
  "(NumericNormalizerSpec \<Rightarrow> string option) \<Rightarrow> string \<Rightarrow> string \<Rightarrow> (NumericNormalizerSpec \<times> int) option" where
  "compileUnitNormalizer derive dataUnit thresholdPrefix =
     (case unitSpecFor (unitIDOf dataUnit) of
        None \<Rightarrow> None
      | Some spec \<Rightarrow>
          (case thresholdMultiplier spec thresholdPrefix of
             None \<Rightarrow> None
           | Some multiplier \<Rightarrow>
               (let normalizer = \<lparr>ns_ref = [], ns_sourceUnit = dataUnit, ns_targetUnit = us_targetUnit spec,
                      ns_sourceMultiplier = us_factorsToBase spec ! us_defaultIndex spec,
                      ns_decimalPlaces = 6, ns_rounding = ''HALF_EVEN''\<rparr>
                in map_option (\<lambda>digest. (normalizer\<lparr>ns_ref := digest\<rparr>, multiplier)) (derive normalizer))))"

section \<open>Predicates\<close>

datatype predicateNode =
  PredicateNode (pn_kind: string) (pn_operator: string) (pn_threshold: NormalizedNumber) (pn_children: "predicateNode list")

definition PredicateAny :: string where "PredicateAny = ''ANY''"
definition PredicateAll :: string where "PredicateAll = ''ALL''"
definition PredicateCompare :: string where "PredicateCompare = ''COMPARE''"

record Predicate =
  pd_root :: predicateNode
  pd_digest :: string
  pd_validated :: bool

record PredicateEvaluation =
  pe_matched :: bool
  pe_matchedGroup :: int
  pe_predicateDigest :: string

datatype PredicateError = PredicateNotValidated | PredicateInvariantViolated

definition compareWith :: "string \<Rightarrow> int \<Rightarrow> bool option" where
  "compareWith operator comparison =
     (if operator = ''GT'' then Some (comparison > 0)
      else if operator = ''GTE'' then Some (comparison \<ge> 0)
      else if operator = ''EQ'' then Some (comparison = 0)
      else if operator = ''NEQ'' then Some (comparison \<noteq> 0)
      else if operator = ''LT'' then Some (comparison < 0)
      else if operator = ''LTE'' then Some (comparison \<le> 0)
      else None)"

fun evaluateNode :: "NormalizedNumber \<Rightarrow> predicateNode \<Rightarrow> PredicateError + bool"
  and evaluateAny :: "NormalizedNumber \<Rightarrow> predicateNode list \<Rightarrow> PredicateError + bool"
  and evaluateAll :: "NormalizedNumber \<Rightarrow> predicateNode list \<Rightarrow> PredicateError + bool" where
  "evaluateNode v (PredicateNode kind operator threshold children) =
     (if kind = PredicateAny then evaluateAny v children
      else if kind = PredicateAll then evaluateAll v children
      else if kind = PredicateCompare
      then (case compareWith operator (compareNumber v threshold) of
              Some matched \<Rightarrow> Inr matched
            | None \<Rightarrow> Inl PredicateInvariantViolated)
      else Inl PredicateInvariantViolated)"
| "evaluateAny v [] = Inr False"
| "evaluateAny v (child # children) =
     (case evaluateNode v child of
        Inl e \<Rightarrow> Inl e
      | Inr matched \<Rightarrow> if matched then Inr True else evaluateAny v children)"
| "evaluateAll v [] = Inr True"
| "evaluateAll v (child # children) =
     (case evaluateNode v child of
        Inl e \<Rightarrow> Inl e
      | Inr matched \<Rightarrow> if \<not> matched then Inr False else evaluateAll v children)"

text \<open>The loop of \<open>Predicate.Evaluate\<close> over the groups: the first that matches, or \<open>-1\<close>.\<close>

fun firstGroup :: "NormalizedNumber \<Rightarrow> int \<Rightarrow> predicateNode list \<Rightarrow> PredicateError + int" where
  "firstGroup v index [] = Inr (- 1)"
| "firstGroup v index (child # children) =
     (case evaluateNode v child of
        Inl e \<Rightarrow> Inl e
      | Inr matched \<Rightarrow> if matched then Inr index else firstGroup v (index + 1) children)"

definition evaluatePredicate :: "Predicate \<Rightarrow> NormalizedNumber \<Rightarrow> PredicateError + PredicateEvaluation" where
  "evaluatePredicate p v =
     (if \<not> pd_validated p \<or> length (pd_digest p) \<noteq> 64 then Inl PredicateNotValidated
      else if pn_kind (pd_root p) = PredicateAny
      then (case firstGroup v 0 (pn_children (pd_root p)) of
              Inl e \<Rightarrow> Inl e
            | Inr index \<Rightarrow> Inr \<lparr>pe_matched = index \<ge> 0, pe_matchedGroup = index, pe_predicateDigest = pd_digest p\<rparr>)
      else (case evaluateNode v (pd_root p) of
              Inl e \<Rightarrow> Inl e
            | Inr matched \<Rightarrow> Inr \<lparr>pe_matched = matched, pe_matchedGroup = (if matched then 0 else - 1),
                                 pe_predicateDigest = pd_digest p\<rparr>))"

definition validOperator :: "string \<Rightarrow> bool" where
  "validOperator operator \<longleftrightarrow> operator \<in> set [''GT'', ''GTE'', ''EQ'', ''NEQ'', ''LT'', ''LTE'']"

text \<open>\<open>predicateNode.validate\<close>: the number of nodes of a node that is well formed.\<close>

fun validateNode :: "predicateNode \<Rightarrow> nat option" and validateNodes :: "predicateNode list \<Rightarrow> nat option" where
  "validateNode (PredicateNode kind operator threshold children) =
     (if kind = PredicateAny \<or> kind = PredicateAll
      then (if children = [] \<or> operator \<noteq> [] then None else map_option Suc (validateNodes children))
      else if kind = PredicateCompare
      then (if children \<noteq> [] \<or> \<not> validOperator operator then None else Some 1)
      else None)"
| "validateNodes [] = Some 0"
| "validateNodes (child # children) =
     (case validateNode child of
        None \<Rightarrow> None
      | Some nodes \<Rightarrow> map_option (\<lambda>rest. nodes + rest) (validateNodes children))"

section \<open>Compiling the predicate\<close>

record thresholdCondition =
  tc_Operator :: string
  tc_ThresholdDecimal :: string

datatype CompileError = EmptyGroup | AlgorithmBudget | UnsupportedOperator | InvalidDecimal | NormalizationOverflow

fun compileConditions :: "int \<Rightarrow> thresholdCondition list \<Rightarrow> CompileError + predicateNode list" where
  "compileConditions multiplier [] = Inr []"
| "compileConditions multiplier (condition # rest) =
     (if \<not> validOperator (tc_Operator condition) then Inl UnsupportedOperator
      else case parseDecimalRational (tc_ThresholdDecimal condition) False of
        None \<Rightarrow> Inl InvalidDecimal
      | Some r \<Rightarrow>
          (case normalizeRational r multiplier of
             None \<Rightarrow> Inl NormalizationOverflow
           | Some normalized \<Rightarrow>
               (case compileConditions multiplier rest of
                  Inl e \<Rightarrow> Inl e
                | Inr nodes \<Rightarrow> Inr (PredicateNode PredicateCompare (tc_Operator condition) normalized [] # nodes))))"

text \<open>\<open>conditions\<close> counts the conditions of the groups before, the budget is over all of them.\<close>

fun compileGroups :: "nat \<Rightarrow> int \<Rightarrow> nat \<Rightarrow> thresholdCondition list list \<Rightarrow> CompileError + predicateNode list" where
  "compileGroups budget multiplier conditions [] = Inr []"
| "compileGroups budget multiplier conditions (conds # groups) =
     (if conds = [] then Inl EmptyGroup
      else if conditions + length conds > budget then Inl AlgorithmBudget
      else case compileConditions multiplier conds of
        Inl e \<Rightarrow> Inl e
      | Inr nodes \<Rightarrow>
          (case compileGroups budget multiplier (conditions + length conds) groups of
             Inl e \<Rightarrow> Inl e
           | Inr rest \<Rightarrow> Inr (PredicateNode PredicateAll [] zeroNumber nodes # rest)))"

definition compilePredicate :: "nat \<Rightarrow> int \<Rightarrow> thresholdCondition list list \<Rightarrow> CompileError + predicateNode" where
  "compilePredicate budget multiplier groups =
     (case compileGroups budget multiplier 0 groups of
        Inl e \<Rightarrow> Inl e
      | Inr nodes \<Rightarrow> Inr (PredicateNode PredicateAny [] zeroNumber nodes))"

end
