(* ===== verification/Threshold_Correct.thy ===== *)
theory Threshold_Correct
  imports Threshold
begin

text \<open>
  Correctness of the Threshold algorithm: a normalized number is an integer of at most 127 bits and
  is compared as one, normalization rounds half to even and never inverts an order, a canonical
  decimal is read back, and a compiled predicate is the disjunction of conjunctions it was
  compiled from.
\<close>

section \<open>Numbers\<close>

definition numberValue :: "NormalizedNumber \<Rightarrow> int" where
  "numberValue n = (if nn_negative n then - magnitude n else magnitude n)"

definition wf_number :: "NormalizedNumber \<Rightarrow> bool" where
  "wf_number n \<longleftrightarrow> magnitude n < 2 ^ 127 \<and> (nn_negative n \<longrightarrow> magnitude n \<noteq> 0)"

lemma magnitude_nonneg: "0 \<le> magnitude n"
  by (simp add: magnitude_def)

lemma bitLen_le: "0 \<le> m \<Longrightarrow> bitLen m \<le> k \<longleftrightarrow> m < 2 ^ k"
proof (induction m arbitrary: k rule: bitLen.induct)
  case (1 m)
  show ?case
  proof (cases "m \<le> 0")
    case False
    have half: "bitLen m = Suc (bitLen (m div 2))" using False by (simp add: bitLen.simps [of m])
    have "0 \<le> m div 2" using "1.prems" by (simp add: pos_imp_zdiv_nonneg_iff)
    note IH = "1.IH" [OF False this]
    show ?thesis
    proof (cases k)
      case (Suc j)
      have "m div 2 < p \<longleftrightarrow> m < p * 2" for p :: int by presburger
      then show ?thesis by (simp add: Suc half IH mult.commute)
    qed (use False half in simp)
  qed (use "1.prems" in \<open>simp add: bitLen.simps [of 0]\<close>)
qed

lemma fromBigInt_Some:
  assumes "normalizedNumberFromBigInt v = Some n"
  shows "wf_number n" "numberValue n = v" "\<bar>v\<bar> < 2 ^ 127"
proof -
  show small: "\<bar>v\<bar> < 2 ^ 127"
    using assms bitLen_le [of "\<bar>v\<bar>" 127] by (simp add: normalizedNumberFromBigInt_def Let_def split: if_splits)
  have n: "n = \<lparr>nn_negative = v < 0, nn_high = word_of_int (\<bar>v\<bar> div 2 ^ 64), nn_low = word_of_int (\<bar>v\<bar> mod 2 ^ 64)\<rparr>"
    using assms by (simp add: normalizedNumberFromBigInt_def Let_def split: if_splits)
  have "\<bar>v\<bar> div 2 ^ 64 < 2 ^ 64" using small by simp
  moreover have "0 \<le> \<bar>v\<bar> div 2 ^ 64" by (simp add: pos_imp_zdiv_nonneg_iff)
  ultimately have "magnitude n = \<bar>v\<bar> div 2 ^ 64 * 2 ^ 64 + \<bar>v\<bar> mod 2 ^ 64"
    by (simp add: n magnitude_def uint_word_of_int)
  then have "magnitude n = \<bar>v\<bar>" by simp
  then show "wf_number n" "numberValue n = v" using small by (auto simp: wf_number_def numberValue_def n)
qed

lemma fromBigInt_None: "normalizedNumberFromBigInt v = None \<longleftrightarrow> 2 ^ 127 \<le> \<bar>v\<bar>"
  using bitLen_le [of "\<bar>v\<bar>" 127] by (auto simp: normalizedNumberFromBigInt_def Let_def not_le [symmetric])

lemma fromBigInt_numberValue: "wf_number n \<Longrightarrow> normalizedNumberFromBigInt (numberValue n) = Some n"
proof (cases "normalizedNumberFromBigInt (numberValue n)")
  case None
  assume "wf_number n"
  with None show ?thesis using magnitude_nonneg [of n] by (auto simp: fromBigInt_None wf_number_def numberValue_def)
next
  case (Some m)
  assume wf: "wf_number n"
  note m = fromBigInt_Some [OF Some]
  have mag: "magnitude m = magnitude n" using m(2) magnitude_nonneg [of m] magnitude_nonneg [of n]
    by (simp add: numberValue_def split: if_splits)
  have neg: "nn_negative m = nn_negative n"
    using m(1,2) wf mag magnitude_nonneg [of n] by (auto simp: numberValue_def wf_number_def split: if_splits)
  have "uint (nn_high k) = magnitude k div 2 ^ 64 \<and> uint (nn_low k) = magnitude k mod 2 ^ 64" for k :: NormalizedNumber
    using uint_lt2p [of "nn_low k"] by (simp add: magnitude_def)
  with mag have "nn_high m = nn_high n" "nn_low m = nn_low n" by (metis word_uint_eq_iff)+
  with neg Some show ?thesis by simp
qed

lemma two_digits_sgn:
  fixes a b c d :: int
  assumes "0 \<le> b" "b < 2 ^ 64" "0 \<le> d" "d < 2 ^ 64"
  shows "(if a < c \<or> a = c \<and> b < d then - 1 else if a > c \<or> a = c \<and> b > d then 1 else 0)
    = sgn (a * 2 ^ 64 + b - (c * 2 ^ 64 + d))"
proof -
  consider "a < c" | "a = c" | "c < a" by linarith
  then show ?thesis
  proof cases
    case 1
    then have "a * 2 ^ 64 + b < c * 2 ^ 64 + d" using assms by simp
    with 1 show ?thesis by simp
  next
    case 3
    then have "c * 2 ^ 64 + d < a * 2 ^ 64 + b" using assms by simp
    with 3 show ?thesis by simp
  qed (simp add: sgn_if)
qed

lemma compareMagnitude_sgn: "compareMagnitude n m = sgn (magnitude n - magnitude m)"
  unfolding compareMagnitude_def magnitude_def word_less_def word_uint_eq_iff
  by (rule two_digits_sgn) (use uint_lt2p [of "nn_low n"] uint_lt2p [of "nn_low m"] in simp_all)

lemma compareNumber_sgn:
  assumes "wf_number n" "wf_number m"
  shows "compareNumber n m = sgn (numberValue n - numberValue m)"
  using assms magnitude_nonneg [of n] magnitude_nonneg [of m]
  by (auto simp: compareNumber_def compareMagnitude_sgn numberValue_def wf_number_def sgn_if)

section \<open>Rounding half to even\<close>

definition halfEven :: "rat \<Rightarrow> int \<Rightarrow> bool" where
  "halfEven x v \<longleftrightarrow> 2 * \<bar>x - of_int v\<bar> \<le> 1 \<and> (2 * \<bar>x - of_int v\<bar> = 1 \<longrightarrow> even v)"

lemma halfEven_mono:
  assumes "halfEven x v" "halfEven y w" "x \<le> y"
  shows "v \<le> w"
proof (rule ccontr)
  assume "\<not> v \<le> w"
  then have "of_int w + 1 \<le> (of_int v :: rat)" using of_int_le_iff [of "w + 1" v] by simp
  moreover have near: "2 * \<bar>x - of_int v\<bar> \<le> 1" "2 * \<bar>y - of_int w\<bar> \<le> 1" using assms(1,2) by (auto simp: halfEven_def)
  moreover from near have "of_int v \<le> x + 1 / 2" "y - 1 / 2 \<le> of_int w" by (auto simp: abs_if split: if_splits)
  ultimately have eq: "of_int v = x + 1 / 2" "of_int w = y - 1 / 2" "x = y" "of_int v = (of_int w + 1 :: rat)"
    using assms(3) by auto
  then have "even v" "even w" using assms(1,2) by (auto simp: halfEven_def)
  moreover have "v = w + 1" using eq(4) by (metis of_int_1 of_int_add of_int_eq_iff)
  ultimately show False by simp
qed

lemma halfEven_unique: "halfEven x v \<Longrightarrow> halfEven x w \<Longrightarrow> v = w"
  by (meson halfEven_mono order_antisym order_refl)

lemma halfEven_int [simp]: "halfEven (of_int v) w \<longleftrightarrow> v = w"
  by (metis (no_types) abs_0 diff_self halfEven_def halfEven_unique mult_zero_right zero_le_one zero_neq_one)

definition steppedQuotient :: "int \<Rightarrow> int \<Rightarrow> int" where
  "steppedQuotient p q =
     (let quotient = p sdiv q; twice = 2 * \<bar>p smod q\<bar>
      in if twice > q \<or> twice = q \<and> odd quotient then (if p < 0 then quotient - 1 else quotient + 1) else quotient)"

lemma steppedQuotient_minus: "0 < q \<Longrightarrow> p \<noteq> 0 \<Longrightarrow> steppedQuotient (- p) q = - steppedQuotient p q"
  by (auto simp: steppedQuotient_def Let_def signed_divide_int_def signed_modulo_int_def sgn_if)

lemma steppedQuotient_pos:
  assumes "0 < q" "0 \<le> p"
  shows "halfEven (of_int p / of_int q) (steppedQuotient p q)"
proof -
  define a b where "a = p div q" and "b = p mod q"
  have p: "p = a * q + b" "0 \<le> b" "b < q" using assms by (simp_all add: a_def b_def)
  have parts: "p sdiv q = a" "p smod q = b"
    using assms by (auto simp: signed_divide_int_def signed_modulo_int_def a_def b_def sgn_if minus_mult_div_eq_mod mult.commute)
  have x: "of_int p / of_int q = (of_int a + of_int b / of_int q :: rat)"
    using assms by (simp add: p(1) add_divide_distrib)
  have q: "(0::rat) < of_int q" using assms by simp
  have b: "(0::rat) \<le> of_int b / of_int q" "(of_int b / of_int q :: rat) < 1"
    using p q by (simp_all add: divide_less_eq_1_pos)
  have cmp: "2 * b > q \<longleftrightarrow> (1::rat) < 2 * (of_int b / of_int q)" "2 * b = q \<longleftrightarrow> 2 * (of_int b / of_int q) = (1::rat)"
  proof -
    have "2 * b > q \<longleftrightarrow> (of_int q :: rat) < of_int (2 * b)" by (rule of_int_less_iff [symmetric])
    then show "2 * b > q \<longleftrightarrow> (1::rat) < 2 * (of_int b / of_int q)" using q by (simp add: less_divide_eq)
    have "2 * b = q \<longleftrightarrow> (of_int (2 * b) :: rat) = of_int q" by (rule of_int_eq_iff [symmetric])
    then show "2 * b = q \<longleftrightarrow> 2 * (of_int b / of_int q) = (1::rat)" using q by (simp add: divide_eq_eq)
  qed
  show ?thesis
    using b cmp p(2) assms(2) unfolding halfEven_def steppedQuotient_def Let_def parts x
    by (auto simp: abs_if)
qed

lemma steppedQuotient_halfEven:
  assumes "0 < q"
  shows "halfEven (of_int p / of_int q) (steppedQuotient p q)"
proof (cases "0 \<le> p")
  case False
  then have "halfEven (of_int (- p) / of_int q) (- steppedQuotient p q)"
    using steppedQuotient_pos [OF assms, of "- p"] steppedQuotient_minus [OF assms, of "- p"] by simp
  then show ?thesis by (simp add: halfEven_def abs_minus_commute)
qed (simp add: steppedQuotient_pos [OF assms])

definition roundHalfEven :: "rat \<Rightarrow> int" where
  "roundHalfEven x = (let (p, q) = quotient_of x in steppedQuotient p q)"

lemma halfEven_round [simp]: "halfEven x (roundHalfEven x)"
proof (cases "quotient_of x")
  case (Pair p q)
  with steppedQuotient_halfEven [OF quotient_of_denom_pos [OF Pair], of p] quotient_of_div [OF Pair] show ?thesis
    by (simp add: roundHalfEven_def)
qed

lemma round_mono: "x \<le> y \<Longrightarrow> roundHalfEven x \<le> roundHalfEven y"
  by (rule halfEven_mono [OF halfEven_round halfEven_round])

lemma round_int [simp]: "roundHalfEven (of_int v) = v"
  using halfEven_round [of "of_int v"] by (simp del: halfEven_round)

lemma normalizeRational_eq:
  "normalizeRational r multiplier =
     (if multiplier \<le> 0 then None
      else normalizedNumberFromBigInt (roundHalfEven (r * of_int multiplier * of_int normalizedDecimalScale)))"
  by (simp add: normalizeRational_def roundHalfEven_def steppedQuotient_def Let_def split: prod.splits)

section \<open>Decimal text\<close>

lemma digit_char: "0 \<le> d \<Longrightarrow> d < 10 \<Longrightarrow> isDigit (char_of (48 + d :: int)) \<and> digitValue (char_of (48 + d :: int)) = d"
  by (simp add: isDigit_def digitValue_def of_char_of)

lemma parseNat_snoc [simp]: "parseNat (ds @ [c]) = 10 * parseNat ds + digitValue c"
  by (simp add: parseNat_def)

lemma parseNat_Nil [simp]: "parseNat [] = 0"
  by (simp add: parseNat_def)

lemma digit_zero [simp]: "isDigit CHR ''0''" "digitValue CHR ''0'' = 0"
  by (simp_all add: isDigit_def digitValue_def)

lemma parseNat_zeros: "parseNat (replicate k CHR ''0'' @ ds) = parseNat ds"
proof (induction ds rule: rev_induct)
  case Nil
  show ?case by (induction k) (simp_all add: parseNat_def)
next
  case (snoc d ds)
  then show ?case by (simp flip: append_assoc)
qed

lemma formatInt_digits: "0 \<le> m \<Longrightarrow> list_all isDigit (formatInt m) \<and> parseNat (formatInt m) = m"
proof (induction m rule: formatInt.induct)
  case (1 m)
  show ?case
  proof (cases "m < 10")
    case True
    then show ?thesis using "1.prems" digit_char [of m] by (simp add: formatInt.simps [of m] parseNat_def)
  next
    case False
    then show ?thesis using "1.IH" [OF False] digit_char [of "m mod 10"] by (simp add: formatInt.simps [of m])
  qed
qed

lemma formatInt_length:
  "0 < m \<Longrightarrow> length (formatInt m) \<le> k \<longleftrightarrow> m < 10 ^ k"
proof (induction m arbitrary: k rule: formatInt.induct)
  case (1 m)
  show ?case
  proof (cases "m < 10")
    case True
    then show ?thesis using "1.prems" by (cases k) (simp_all add: formatInt.simps [of m] order.strict_trans2)
  next
    case False
    have "m div 10 < p \<longleftrightarrow> m < p * 10" for p :: int by presburger
    moreover have "0 < m div 10" using False by presburger
    ultimately show ?thesis using False "1.IH" [OF False] "1.prems"
      by (cases k) (simp_all add: formatInt.simps [of m] mult.commute)
  qed
qed

lemma formatInt_lead: "0 < m \<Longrightarrow> formatInt m \<noteq> [] \<and> hd (formatInt m) \<noteq> CHR ''0''"
proof (induction m rule: formatInt.induct)
  case (1 m)
  show ?case
  proof (cases "m < 10")
    case True
    have "char_of (48 + m) \<noteq> CHR ''0''"
      using digit_char [of m] True "1.prems" by (metis digit_zero(2) less_imp_le less_irrefl)
    with True show ?thesis by (simp add: formatInt.simps [of m])
  next
    case False
    then have "0 < m div 10" by presburger
    with False "1.IH" [OF False] show ?thesis by (simp add: formatInt.simps [of m])
  qed
qed

lemma takeWhile_digits:
  assumes "list_all isDigit ds" "rest = [] \<or> \<not> isDigit (hd rest)"
  shows "takeWhile isDigit (ds @ rest) = ds" "dropWhile isDigit (ds @ rest) = rest"
  using assms by (induction ds) (auto simp: takeWhile_eq_Nil_iff dropWhile_eq_self_iff hd_conv_nth)

text \<open>The text of a number of six places matches the pattern, part for part.\<close>

lemma decimalPattern_fixed:
  assumes "list_all isDigit whole" "list_all isDigit fraction" "fraction \<noteq> []" "whole \<noteq> []"
    and "hd whole = CHR ''0'' \<Longrightarrow> length whole = 1"
  shows "decimalPattern ((if neg then ''-'' else []) @ whole @ CHR ''.'' # fraction)
    = Some \<lparr>dm_sign = (if neg then ''-'' else []), dm_whole = whole, dm_fraction = fraction, dm_exponent = []\<rparr>"
proof -
  have dot: "\<not> isDigit CHR ''.''" "\<not> isDigit CHR ''-''" by (simp_all add: isDigit_def)
  have "hd whole \<noteq> CHR ''-''" using assms(1,4) dot by (cases whole) auto
  then have sign: "takeWhile (\<lambda>c. c = CHR ''-'') (take 1 ((if neg then ''-'' else []) @ whole @ CHR ''.'' # fraction))
      = (if neg then ''-'' else [])"
    using assms(4) by (cases whole) auto
  have body: "takeWhile isDigit (whole @ CHR ''.'' # fraction) = whole"
    "dropWhile isDigit (whole @ CHR ''.'' # fraction) = CHR ''.'' # fraction"
    using takeWhile_digits [OF assms(1), of "CHR ''.'' # fraction"] dot by simp_all
  note tail = takeWhile_digits [OF assms(2), of "[]", unfolded append_Nil2]
  have "matchFraction (CHR ''.'' # fraction) = Some (fraction, [])"
    by (simp only: matchFraction_def matchExponent_def list.case tail simp_thms if_True if_False option.map assms(3))
  moreover have "drop (length (if neg then ''-'' else [])) ((if neg then ''-'' else []) @ whole @ CHR ''.'' # fraction)
      = whole @ CHR ''.'' # fraction" by simp
  moreover have "\<not> (whole = [] \<or> hd whole = CHR ''0'' \<and> length whole \<noteq> 1)" using assms(4,5) by blast
  ultimately show ?thesis
    unfolding decimalPattern_def Let_def sign by (simp only: body if_False option.map prod.case)
qed

lemma canonical_parts:
  assumes "wf_number n"
  obtains whole fraction where "CanonicalDecimal n = (if nn_negative n then ''-'' else []) @ whole @ CHR ''.'' # fraction"
    "list_all isDigit whole" "list_all isDigit fraction" "whole \<noteq> []" "hd whole = CHR ''0'' \<Longrightarrow> length whole = 1"
    "length whole \<le> 33" "length fraction = 6" "parseNat (whole @ fraction) = magnitude n"
proof -
  define plain where "plain = formatInt (magnitude n)"
  define digits where "digits = (if length plain \<le> 6 then replicate (7 - length plain) CHR ''0'' @ plain else plain)"
  have pos: "0 \<le> magnitude n" by (rule magnitude_nonneg)
  have plain: "list_all isDigit plain" "parseNat plain = magnitude n" using formatInt_digits [OF pos] by (simp_all add: plain_def)
  have digits: "list_all isDigit digits" "parseNat digits = magnitude n" "7 \<le> length digits"
    using plain by (auto simp: digits_def parseNat_zeros list_all_iff)
  have sign: "nn_negative n \<and> (nn_high n \<noteq> 0 \<or> nn_low n \<noteq> 0) \<longleftrightarrow> nn_negative n"
    using assms by (auto simp: wf_number_def magnitude_def)
  have short: "length plain \<le> 39"
  proof (cases "magnitude n = 0")
    case False
    have "magnitude n < 10 ^ 39" using assms by (simp add: wf_number_def)
    with False pos formatInt_length [of "magnitude n" 39] show ?thesis by (simp add: plain_def)
  qed (simp add: plain_def formatInt.simps [of 0])
  have lead: "length (take (length digits - 6) digits) = 1" if "hd digits = CHR ''0''"
  proof (cases "length plain \<le> 6")
    case False
    then have "magnitude n \<noteq> 0" by (auto simp: plain_def formatInt.simps [of 0])
    then have "hd plain \<noteq> CHR ''0''" using formatInt_lead [of "magnitude n"] pos by (simp add: plain_def)
    with that False show ?thesis by (simp add: digits_def)
  qed (simp add: digits_def)
  show thesis
  proof (rule that)
    show "CanonicalDecimal n = (if nn_negative n then ''-'' else []) @ take (length digits - 6) digits
        @ CHR ''.'' # drop (length digits - 6) digits"
      by (simp only: CanonicalDecimal_def Let_def flip: plain_def) (use sign in \<open>simp flip: digits_def\<close>)
    show "list_all isDigit (take (length digits - 6) digits)" "list_all isDigit (drop (length digits - 6) digits)"
      using digits(1) by (auto simp: list_all_iff dest: in_set_takeD in_set_dropD)
    show "take (length digits - 6) digits \<noteq> []" "length (drop (length digits - 6) digits) = 6"
      using digits(3) by auto
    show "length (take (length digits - 6) digits) \<le> 33" using short by (auto simp: digits_def)
    show "parseNat (take (length digits - 6) digits @ drop (length digits - 6) digits) = magnitude n" using digits(2) by simp
    show "length (take (length digits - 6) digits) = 1" if "hd (take (length digits - 6) digits) = CHR ''0''"
      using that digits(3) lead by simp
  qed
qed

lemma leadingSpace_none: "text = [] \<or> hd text \<notin> set (map hd runes) \<Longrightarrow> leadingSpace runes text = 0"
proof -
  assume first: "text = [] \<or> hd text \<notin> set (map hd runes)"
  have "\<not> (r \<noteq> [] \<and> take (length r) text = r)" if "r \<in> set runes" for r
    using first that by (cases r; cases "text") (auto dest: imageI [where f = hd])
  then have "filter (\<lambda>r. r \<noteq> [] \<and> take (length r) text = r) runes = []" by (simp add: filter_empty_conv)
  then show ?thesis by (simp add: leadingSpace_def)
qed

lemma TrimSpace_id:
  assumes "text \<noteq> []" "isDigit (hd text) \<or> hd text = CHR ''-''" "isDigit (last text)"
  shows "TrimSpace text = text"
proof -
  have "hd text \<notin> set (map hd spaceRunes)" using assms(2) by (auto simp: spaceRunes_def isDigit_def)
  moreover have "hd (rev text) \<notin> set (map hd (map rev spaceRunes))"
    using assms(3) by (auto simp: spaceRunes_def isDigit_def hd_rev)
  ultimately show ?thesis
    by (simp add: TrimSpace_def trimLeading.simps leadingSpace_none)
qed

lemma Normalize_canonical:
  assumes "wf_number n" "ns_sourceMultiplier s = 1"
  shows "Normalize s (CanonicalDecimal n) = \<lparr>nr_value = n, nr_reasonCode = []\<rparr>"
proof -
  obtain whole fraction where parts: "CanonicalDecimal n = (if nn_negative n then ''-'' else []) @ whole @ CHR ''.'' # fraction"
    and digits: "list_all isDigit whole" "list_all isDigit fraction" "whole \<noteq> []" "hd whole = CHR ''0'' \<Longrightarrow> length whole = 1"
    and size: "length whole \<le> 33" "length fraction = 6" and parsed: "parseNat (whole @ fraction) = magnitude n"
    using canonical_parts [OF assms(1)] by blast
  let ?m = "\<lparr>dm_sign = (if nn_negative n then ''-'' else []), dm_whole = whole, dm_fraction = fraction, dm_exponent = []\<rparr>"
  have "fraction \<noteq> []" using size(2) by auto
  note match = decimalPattern_fixed [OF digits(1,2) this digits(3,4), of "nn_negative n", folded parts]
  have first: "isDigit (hd (CanonicalDecimal n)) \<or> hd (CanonicalDecimal n) = CHR ''-''"
    using digits(1,3) by (cases whole) (auto simp: parts)
  have "last (CanonicalDecimal n) \<in> set fraction" using \<open>fraction \<noteq> []\<close> by (simp add: parts)
  then have trim: "TrimSpace (CanonicalDecimal n) = CanonicalDecimal n"
    using first digits(2) by (intro TrimSpace_id) (auto simp: parts list_all_iff)
  have plain: "CanonicalDecimal n \<noteq> []" "CanonicalDecimal n \<noteq> ''null''" "CanonicalDecimal n \<noteq> ''true''"
    "CanonicalDecimal n \<noteq> ''false''" "hd (CanonicalDecimal n) \<notin> {CHR 0x22, CHR 0x7B, CHR 0x5B}"
    using first by (auto simp: isDigit_def parts)
  have "length (CanonicalDecimal n) \<le> 128" using size by (simp add: parts)
  then have read: "parseDecimalRationalMatch (CanonicalDecimal n) ?m True = Some (of_int (numberValue n) / of_int (10 ^ 6))"
    using plain(1) size(2) parsed by (simp add: parseDecimalRationalMatch_def Let_def numberValue_def)
  have "normalizeRational (of_int (numberValue n) / of_int (10 ^ 6)) 1 = Some n"
    using fromBigInt_numberValue [OF assms(1)] by (simp add: normalizeRational_eq normalizedDecimalScale_def)
  then show ?thesis
    using plain by (simp add: Normalize_def Let_def trim match read assms(2))
qed

end
