(* ===== verification/Threshold_Props.thy ===== *)
theory Threshold_Props
  imports Threshold_Correct
begin

text \<open>
  Properties of the Threshold algorithm: what a normalized value stands for, that the text of a
  value reads back, and when a compiled predicate matches.
\<close>

section \<open>Units\<close>

definition wf_unit :: "unitSpec \<Rightarrow> bool" where
  "wf_unit spec \<longleftrightarrow> us_defaultIndex spec < length (us_factorsToBase spec) \<and> length (us_suffixes spec) = length (us_factorsToBase spec)
     \<and> list_all (\<lambda>f. 0 < f \<and> f < 2 ^ 63) (us_factorsToBase spec)"

lemma powers_exact:
  "powers 1024 7 = [1, 1024, 1048576, 1073741824, 1099511627776, 1125899906842624, 1152921504606846976]"
  "powers 1000 7 = [1, 1000, 1000000, 1000000000, 1000000000000, 1000000000000000, 1000000000000000000]"
  "powers 1000 5 = [1, 1000, 1000000, 1000000000, 1000000000000]"
  by code_simp+

lemma unit_tables:
  "map_of binaryIDs u = Some i \<Longrightarrow> i < 7" "map_of decimalIDs u = Some i \<Longrightarrow> i < 7"
  "map_of (zip timeSuffixes [0..<7]) u = Some i \<Longrightarrow> i < 7"
  by (auto simp: binaryIDs_def decimalIDs_def split: if_splits dest!: map_of_SomeD set_zip_rightD)

lemma unitSpecFor_wf: "unitSpecFor u = Some spec \<Longrightarrow> wf_unit spec"
  by (auto simp: unitSpecFor_def wf_unit_def powers_exact timeSuffixes_def [THEN arg_cong [where f = length]]
      dest: unit_tables split: if_splits option.splits)

lemma compileUnitNormalizer_positive:
  assumes "compileUnitNormalizer derive dataUnit thresholdPrefix = Some (normalizer, multiplier)"
  shows "0 < ns_sourceMultiplier normalizer" "0 < multiplier"
proof -
  obtain spec where spec: "unitSpecFor (unitIDOf dataUnit) = Some spec" "thresholdMultiplier spec thresholdPrefix = Some multiplier"
    and n: "ns_sourceMultiplier normalizer = us_factorsToBase spec ! us_defaultIndex spec"
    using assms by (auto simp: compileUnitNormalizer_def Let_def split: option.splits)
  have wf: "wf_unit spec" by (rule unitSpecFor_wf [OF spec(1)])
  then have pos: "i < length (us_factorsToBase spec) \<Longrightarrow> 0 < us_factorsToBase spec ! i" for i
    by (auto simp: wf_unit_def list_all_length)
  show "0 < ns_sourceMultiplier normalizer" using wf pos by (simp add: n wf_unit_def)
  show "0 < multiplier"
    using spec(2) wf pos by (auto simp: thresholdMultiplier_def wf_unit_def dest!: map_of_SomeD set_zip_rightD split: if_splits)
qed

section \<open>Predicates\<close>

definition operatorHolds :: "string \<Rightarrow> int \<Rightarrow> int \<Rightarrow> bool" where
  "operatorHolds operator x t \<longleftrightarrow>
     operator = ''GT'' \<and> x > t \<or> operator = ''GTE'' \<and> x \<ge> t \<or> operator = ''EQ'' \<and> x = t
     \<or> operator = ''NEQ'' \<and> x \<noteq> t \<or> operator = ''LT'' \<and> x < t \<or> operator = ''LTE'' \<and> x \<le> t"

text \<open>A condition of the strategy, against a value in millionths: the threshold is rounded too.\<close>

definition conditionHolds :: "int \<Rightarrow> int \<Rightarrow> thresholdCondition \<Rightarrow> bool" where
  "conditionHolds multiplier x condition \<longleftrightarrow>
     (case parseDecimalRational (tc_ThresholdDecimal condition) False of
        None \<Rightarrow> False
      | Some r \<Rightarrow> operatorHolds (tc_Operator condition) x (roundHalfEven (r * of_int multiplier * of_int normalizedDecimalScale)))"

definition groupHolds :: "int \<Rightarrow> int \<Rightarrow> thresholdCondition list \<Rightarrow> bool" where
  "groupHolds multiplier x conditions \<longleftrightarrow> list_all (conditionHolds multiplier x) conditions"

lemma compareWith_sgn: "validOperator operator \<Longrightarrow> compareWith operator (sgn (x - t)) = Some (operatorHolds operator x t)"
  by (auto simp: validOperator_def compareWith_def operatorHolds_def sgn_if)

lemma evaluate_condition:
  assumes "wf_number v" "wf_number t" "validOperator operator"
  shows "evaluateNode v (PredicateNode PredicateCompare operator t []) = Inr (operatorHolds operator (numberValue v) (numberValue t))"
  using assms by (simp add: PredicateAny_def PredicateAll_def PredicateCompare_def compareNumber_sgn compareWith_sgn)

lemma compileConditions_Inr:
  assumes "wf_number v" "compileConditions multiplier conditions = Inr nodes"
  shows "evaluateAll v nodes = Inr (groupHolds multiplier (numberValue v) conditions)"
  using assms(2)
proof (induction multiplier conditions arbitrary: nodes rule: compileConditions.induct)
  case (2 multiplier condition rest)
  then obtain r normalized tail where parts: "validOperator (tc_Operator condition)"
    "parseDecimalRational (tc_ThresholdDecimal condition) False = Some r" "normalizeRational r multiplier = Some normalized"
    "compileConditions multiplier rest = Inr tail"
    "nodes = PredicateNode PredicateCompare (tc_Operator condition) normalized [] # tail"
    by (auto split: if_splits option.splits sum.splits)
  have "normalizedNumberFromBigInt (roundHalfEven (r * of_int multiplier * of_int normalizedDecimalScale)) = Some normalized"
    using parts(3) by (simp add: normalizeRational_eq split: if_splits)
  note number = fromBigInt_Some [OF this]
  have "evaluateAll v tail = Inr (groupHolds multiplier (numberValue v) rest)" by (rule "2.IH" [OF _ parts(2,3,4)]) (simp add: parts(1))
  then show ?case
    using parts(1,2) number
    by (simp add: parts(5) evaluate_condition [OF assms(1)] groupHolds_def conditionHolds_def del: evaluateNode.simps)
qed (simp add: groupHolds_def)

lemma compileGroups_length: "compileGroups budget multiplier used groups = Inr nodes \<Longrightarrow> length nodes = length groups"
  by (induction budget multiplier used groups arbitrary: nodes rule: compileGroups.induct) (auto split: if_splits sum.splits)

lemma compileGroups_nth:
  assumes "wf_number v" "compileGroups budget multiplier used groups = Inr nodes" "i < length groups"
  shows "evaluateNode v (nodes ! i) = Inr (groupHolds multiplier (numberValue v) (groups ! i))"
  using assms(2,3)
proof (induction budget multiplier used groups arbitrary: nodes i rule: compileGroups.induct)
  case (2 budget multiplier used conds groups)
  then obtain inner rest where parts: "compileConditions multiplier conds = Inr inner"
    "compileGroups budget multiplier (used + length conds) groups = Inr rest" "conds \<noteq> []" "\<not> budget < used + length conds"
    "nodes = PredicateNode PredicateAll [] zeroNumber inner # rest"
    by (auto split: if_splits sum.splits)
  show ?case
  proof (cases i)
    case 0
    then show ?thesis using compileConditions_Inr [OF assms(1) parts(1)] by (simp add: parts(5) PredicateAny_def PredicateAll_def)
  next
    case (Suc j)
    then show ?thesis using "2.IH" [OF parts(3) _ parts(1,2)] "2.prems"(2) parts(4) by (simp add: parts(5))
  qed
qed simp

lemma firstGroup_spec:
  assumes "\<And>i. i < length nodes \<Longrightarrow> evaluateNode v (nodes ! i) = Inr (holds i)"
  shows "firstGroup v k nodes =
    Inr (case find holds [0..<length nodes] of Some i \<Rightarrow> k + int i | None \<Rightarrow> - 1)"
  using assms
proof (induction nodes arbitrary: k holds)
  case (Cons node nodes)
  have "evaluateNode v node = Inr (holds 0)" using Cons.prems [of 0] by simp
  moreover have "firstGroup v (k + 1) nodes =
      Inr (case find (holds \<circ> Suc) [0..<length nodes] of Some i \<Rightarrow> k + 1 + int i | None \<Rightarrow> - 1)"
    using Cons.prems [of "Suc _"] by (intro Cons.IH) simp
  moreover have "[0..<length (node # nodes)] = 0 # map Suc [0..<length nodes]" by (simp add: map_Suc_upt upt_conv_Cons del: upt_Suc)
  moreover have "find holds (map Suc xs) = map_option Suc (find (holds \<circ> Suc) xs)" for xs by (induction xs) auto
  ultimately show ?case by (auto split: option.splits)
qed simp

lemma compiled_evaluates:
  assumes "compilePredicate budget multiplier groups = Inr rootNode" "length digest = 64" "wf_number v"
  shows "evaluatePredicate \<lparr>pd_root = rootNode, pd_digest = digest, pd_validated = True\<rparr> v
    = (case find (\<lambda>i. groupHolds multiplier (numberValue v) (groups ! i)) [0..<length groups] of
         Some i \<Rightarrow> Inr \<lparr>pe_matched = True, pe_matchedGroup = int i, pe_predicateDigest = digest\<rparr>
       | None \<Rightarrow> Inr \<lparr>pe_matched = False, pe_matchedGroup = - 1, pe_predicateDigest = digest\<rparr>)"
proof -
  obtain nodes where nodes: "compileGroups budget multiplier 0 groups = Inr nodes" "rootNode = PredicateNode PredicateAny [] zeroNumber nodes"
    using assms(1) by (auto simp: compilePredicate_def split: sum.splits)
  have "firstGroup v 0 nodes = Inr (case find (\<lambda>i. groupHolds multiplier (numberValue v) (groups ! i)) [0..<length nodes] of
      Some i \<Rightarrow> 0 + int i | None \<Rightarrow> - 1)"
    by (rule firstGroup_spec) (use compileGroups_nth [OF assms(3) nodes(1)] compileGroups_length [OF nodes(1)] in simp)
  then show ?thesis
    using assms(2) compileGroups_length [OF nodes(1)] by (simp add: evaluatePredicate_def nodes(2) split: option.splits)
qed

text \<open>
  C13: A predicate compiled from groups of conditions never fails on a value: it matches exactly
  when some group has all its conditions hold between the value and the thresholds, each rounded
  to millionths, and it names the first group that does.
\<close>

theorem threshold_matches_exactly:
  assumes "compilePredicate budget multiplier groups = Inr rootNode" "length digest = 64" "wf_number v"
  shows "evaluatePredicate \<lparr>pd_root = rootNode, pd_digest = digest, pd_validated = True\<rparr> v
    = (case find (\<lambda>i. groupHolds multiplier (numberValue v) (groups ! i)) [0..<length groups] of
         Some i \<Rightarrow> Inr \<lparr>pe_matched = True, pe_matchedGroup = int i, pe_predicateDigest = digest\<rparr>
       | None \<Rightarrow> Inr \<lparr>pe_matched = False, pe_matchedGroup = - 1, pe_predicateDigest = digest\<rparr>)"
  using assms by (rule compiled_evaluates)

section \<open>Values\<close>

text \<open>The decimal a text stands for, when it is one the code reads.\<close>

definition decimalValue :: "string \<Rightarrow> rat option" where
  "decimalValue raw = Option.bind (decimalPattern (TrimSpace raw)) (\<lambda>m. parseDecimalRationalMatch (TrimSpace raw) m True)"

lemma decimalPattern_first: "decimalPattern t = Some m \<Longrightarrow> t \<noteq> [] \<and> (isDigit (hd t) \<or> hd t = CHR ''-'')"
  by (cases t) (auto simp: decimalPattern_def Let_def split: if_splits dest!: takeWhile_eq_Nil_iff [THEN iffD2])

lemma decimalPattern_number:
  assumes "decimalPattern t = Some m"
  shows "t \<noteq> []" "t \<noteq> ''null''" "t \<noteq> ''true''" "t \<noteq> ''false''" "hd t \<notin> {CHR 0x22, CHR 0x7B, CHR 0x5B}"
  using decimalPattern_first [OF assms] by (auto simp: isDigit_def)

lemma Normalize_decimal:
  assumes "0 < ns_sourceMultiplier s"
  shows "case decimalValue raw of
       None \<Rightarrow> \<not> resultAvailable (Normalize s raw)
     | Some x \<Rightarrow> halfEven (x * of_int (ns_sourceMultiplier s) * 1000000) (roundHalfEven (x * of_int (ns_sourceMultiplier s) * 1000000))
         \<and> (if \<bar>roundHalfEven (x * of_int (ns_sourceMultiplier s) * 1000000)\<bar> < 2 ^ 127
            then resultAvailable (Normalize s raw) \<and> wf_number (nr_value (Normalize s raw))
                 \<and> numberValue (nr_value (Normalize s raw)) = roundHalfEven (x * of_int (ns_sourceMultiplier s) * 1000000)
            else nr_reasonCode (Normalize s raw) = ReasonRequiredValueNormalizationFailed)"
proof (cases "decimalPattern (TrimSpace raw)")
  case None
  then show ?thesis
    by (simp add: decimalValue_def Normalize_def Let_def resultAvailable_def refusedValue_def ReasonRequiredValueMissing_def
        ReasonRequiredValueTypeMismatch_def)
next
  case (Some m)
  note plain = decimalPattern_number [OF Some]
  show ?thesis
  proof (cases "parseDecimalRationalMatch (TrimSpace raw) m True")
    case None
    then show ?thesis using plain
      by (simp add: decimalValue_def Some Normalize_def Let_def resultAvailable_def refusedValue_def
          ReasonRequiredValueNormalizationFailed_def)
  next
    case (Some x)
    let ?v = "roundHalfEven (x * of_int (ns_sourceMultiplier s) * 1000000)"
    have norm: "Normalize s raw = (case normalizedNumberFromBigInt ?v of
        None \<Rightarrow> refusedValue ReasonRequiredValueNormalizationFailed | Some v \<Rightarrow> \<lparr>nr_value = v, nr_reasonCode = []\<rparr>)"
      using plain Some \<open>decimalPattern (TrimSpace raw) = Some m\<close> assms
      by (simp add: Normalize_def Let_def normalizeRational_eq normalizedDecimalScale_def)
    show ?thesis
    proof (cases "normalizedNumberFromBigInt ?v")
      case None
      then have "Normalize s raw = refusedValue ReasonRequiredValueNormalizationFailed" by (simp add: norm)
      moreover have "2 ^ 127 \<le> \<bar>?v\<bar>" using None by (simp only: fromBigInt_None)
      ultimately show ?thesis using Some \<open>decimalPattern (TrimSpace raw) = Some m\<close>
        by (simp add: decimalValue_def refusedValue_def)
    next
      case (Some v)
      then show ?thesis using \<open>parseDecimalRationalMatch (TrimSpace raw) m True = Some x\<close> \<open>decimalPattern (TrimSpace raw) = Some m\<close>
          fromBigInt_Some [OF Some]
        by (simp add: norm decimalValue_def resultAvailable_def)
    qed
  qed
qed

lemma Normalize_order:
  assumes "0 < ns_sourceMultiplier s" "decimalValue raw = Some x" "decimalValue raw' = Some y" "x \<le> y"
    and "resultAvailable (Normalize s raw)" "resultAvailable (Normalize s raw')"
  shows "compareNumber (nr_value (Normalize s raw)) (nr_value (Normalize s raw')) \<le> 0"
proof -
  have fail: "nr_reasonCode r = ReasonRequiredValueNormalizationFailed \<Longrightarrow> \<not> resultAvailable r" for r :: NormalizeResult
    by (simp add: resultAvailable_def ReasonRequiredValueNormalizationFailed_def)
  have facts: "wf_number (nr_value (Normalize s t)) \<and> numberValue (nr_value (Normalize s t))
      = roundHalfEven (z * of_int (ns_sourceMultiplier s) * 1000000)"
    if "decimalValue t = Some z" "resultAvailable (Normalize s t)" for t z
    using Normalize_decimal [OF assms(1), of t] that fail [of "Normalize s t"] by (auto split: if_splits)
  have "roundHalfEven (x * of_int (ns_sourceMultiplier s) * 1000000) \<le> roundHalfEven (y * of_int (ns_sourceMultiplier s) * 1000000)"
    using assms(1,4) by (intro round_mono) (simp add: mult_right_mono)
  with facts [OF assms(2,5)] facts [OF assms(3,6)] show ?thesis
    by (simp add: compareNumber_sgn sgn_if)
qed


text \<open>
  C16: The decimal text of a value, which events and evidence carry, reads back as that value.
\<close>

theorem canonical_decimal_roundtrip:
  assumes "wf_number n" "ns_sourceMultiplier s = 1"
  shows "Normalize s (CanonicalDecimal n) = \<lparr>nr_value = n, nr_reasonCode = []\<rparr>"
  using assms by (rule Normalize_canonical)

section \<open>An example\<close>

text \<open>A value without a unit, and a threshold of more than one and a half or at most minus one.\<close>

definition plainNormalizer :: NumericNormalizerSpec where
  "plainNormalizer = \<lparr>ns_ref = ''d'', ns_sourceUnit = [], ns_targetUnit = [], ns_sourceMultiplier = 1, ns_decimalPlaces = 6,
     ns_rounding = ''HALF_EVEN''\<rparr>"

definition exampleGroups :: "thresholdCondition list list" where
  "exampleGroups = [[\<lparr>tc_Operator = ''GT'', tc_ThresholdDecimal = ''1.5''\<rparr>], [\<lparr>tc_Operator = ''LTE'', tc_ThresholdDecimal = ''-1''\<rparr>]]"

definition exampleRoot :: predicateNode where
  "exampleRoot = (case compilePredicate 10 1 exampleGroups of Inr n \<Rightarrow> n | Inl _ \<Rightarrow> PredicateNode [] [] zeroNumber [])"

definition minusTwo :: NormalizedNumber where
  "minusTwo = \<lparr>nn_negative = True, nn_high = 0, nn_low = 2000000\<rparr>"

lemma minusTwo_wf: "wf_number minusTwo" "numberValue minusTwo = - 2000000"
  by (simp_all add: wf_number_def numberValue_def minusTwo_def magnitude_def)

lemma exampleRoot_compiled: "compilePredicate 10 1 exampleGroups = Inr exampleRoot"
  by code_simp

lemma exampleNormalizer: "compileUnitNormalizer (\<lambda>_. Some ''d'') [] [] = Some (plainNormalizer, 1)"
  by code_simp

lemma exampleValues:
  "decimalValue ''2.5e-6'' = Some (1 / 400000)" "decimalValue ''0.0000035'' = Some (7 / 2000000)"
  "resultAvailable (Normalize plainNormalizer ''2.5e-6'')" "resultAvailable (Normalize plainNormalizer ''0.0000035'')"
  "numberValue (nr_value (Normalize plainNormalizer ''2.5e-6'')) = 2"
  by code_simp+

theorem threshold_matches_exactly_witness:
  "evaluatePredicate \<lparr>pd_root = exampleRoot, pd_digest = replicate 64 CHR ''a'', pd_validated = True\<rparr> minusTwo
   = Inr \<lparr>pe_matched = True, pe_matchedGroup = 1, pe_predicateDigest = replicate 64 CHR ''a''\<rparr>"
proof -
  have "find (\<lambda>i. groupHolds 1 (- 2000000) (exampleGroups ! i)) [0..<length exampleGroups] = Some 1"
  proof -
    have "parseDecimalRational ''1.5'' False = Some (3 / 2)" "parseDecimalRational ''-1'' False = Some (- 1)" by code_simp+
    then have "\<not> groupHolds 1 (- 2000000) (exampleGroups ! 0)" "groupHolds 1 (- 2000000) (exampleGroups ! 1)"
      using round_int [of 1500000] round_int [of "- 1000000"]
      by (simp_all add: groupHolds_def conditionHolds_def exampleGroups_def operatorHolds_def normalizedDecimalScale_def)
    then show ?thesis by (simp add: exampleGroups_def upt_rec)
  qed
  with threshold_matches_exactly [OF exampleRoot_compiled _ minusTwo_wf(1), of "replicate 64 CHR ''a''"] show ?thesis
    by (simp add: minusTwo_wf(2))
qed


theorem canonical_decimal_roundtrip_witness:
  "Normalize plainNormalizer (CanonicalDecimal minusTwo) = \<lparr>nr_value = minusTwo, nr_reasonCode = []\<rparr>"
  by (rule canonical_decimal_roundtrip) (simp_all add: minusTwo_wf plainNormalizer_def)

end
