(* ===== verification/Trigger.thy ===== *)
theory Trigger
  imports Window Codec
begin

text \<open>
  The trigger of \<open>trigger/evaluator_v2.go\<close> and \<open>trigger/model_v2.go\<close>: from one record's Level facts and
  the history views of its Levels to one outcome per Level, the record's result, the recovery gate
  and the event.  The interface \<open>HistoryView\<close> is a record of its four methods and of the optional
  \<open>ForEachAnomaly\<close>, as the list it visits.  Result names the code
  compares as strings are datatypes with a constructor for any other string; an empty \<open>Result\<close> is
  \<open>None\<close>.  Counters are \<open>uint32\<close>; the one sum that could wrap, \<open>anomalies + holes\<close>, is wrapped.

  What the evaluator calls in package \<open>contract\<close> to build the envelope is not modelled and is an
  argument: the reason catalogue, the dedupe digest, \<open>BuildTriggerEventV1\<close> and
  \<open>ProjectMonitorSubject\<close>; so are the compiled Plan's accessors, as the fields of a record.
\<close>

section \<open>Data\<close>

datatype DetectionResult =
    DetectionAnomalous | DetectionNormal | DetectionUnavailable | DetectionError | DetectionOther string

datatype EffectiveStatus =
    EffectiveTimeActive | EffectiveTimeInactive | EffectiveTimeUnknown | EffectiveTimeOther string

datatype Completeness = CompleteFull | CompleteWarming | CompleteGapped | CompleteOther string

datatype LevelResult = LevelResultAbnormal | LevelResultNormal | LevelResultRecovery

datatype Disposition = StateAdvance | StateFreeze

datatype Completion = CompletionEvaluated | CompletionSuppressed | CompletionUnavailable

record LevelDefinitionV2 =
  ld_LevelID :: nat
  ld_LevelCode :: string
  ld_Priority :: nat

record TriggerPlan =
  tp_WindowSize :: nat
  tp_RequiredAnomalies :: nat
  tp_StepSeconds :: nat

record RecoveryPlan =
  rp_Enabled :: bool
  rp_ConsecutiveWindows :: nat

record CompiledLevel =
  cl_Definition :: LevelDefinitionV2
  cl_DetectFingerprint :: string
  cl_TriggerFingerprint :: string
  cl_EffectiveTimeRequirementDigest :: string
  cl_Trigger :: TriggerPlan
  cl_Recovery :: RecoveryPlan
  cl_RequiredDetectHistoryPoints :: nat
  cl_RetentionPoints :: nat

record EvaluationLimitsV2 =
  el_MaxLevels :: nat
  el_MaxTriggerWindowSize :: nat
  el_MaxRecoveryConsecutiveWindows :: nat
  el_MaxRequiredHistoryPoints :: nat
  el_MaxLevelResultsPerEvent :: nat
  el_MaxEvidenceBytesPerEvent :: int
  el_MaxComputeCost :: nat

record ProjectedValue =
  pv_CanonicalDecimal :: string
  pv_Available :: bool
  pv_ReasonCode :: string

record DetectionEvidence =
  de_PredicateDigest :: string
  de_ProjectedValueOrdinal :: "nat option"
  de_MatchedAlgorithmOrdinal :: "nat option"
  de_MatchedGroupOrdinal :: "nat option"
  de_ResultReason :: string

record DetectionFact =
  df_Definition :: LevelDefinitionV2
  df_DetectFingerprint :: string
  df_Result :: DetectionResult
  df_ReasonCode :: string
  df_Evidence :: DetectionEvidence

record DetectionRecord =
  dr_RecordID :: string
  dr_SourceTime :: int
  dr_ProjectedValues :: "ProjectedValue list"
  dr_LevelFacts :: "DetectionFact list"

record HistorySummary =
  hs_Completeness :: Completeness
  hs_WindowStart :: int
  hs_WindowEnd :: int
  hs_ValidPositions :: nat
  hs_RequiredPositions :: nat
  hs_AnomalyCount :: nat
  hs_AnomalyDigest :: digest

record LevelView =
  hvi_Summarize :: "int \<Rightarrow> nat \<Rightarrow> HistorySummary"
  hvi_CountAnomalies :: "int \<Rightarrow> int \<Rightarrow> nat"
  hvi_FirstAnomaly :: "int \<Rightarrow> int \<Rightarrow> int \<times> bool"
  hvi_CountObserved :: "int \<Rightarrow> int \<Rightarrow> nat"
  hvi_ForEachAnomaly :: "(int \<Rightarrow> int \<Rightarrow> int list) option"

record EffectiveTimeFact =
  ef_Status :: EffectiveStatus
  ef_RequirementDigest :: string
  ef_FactRevision :: string
  ef_FactDigest :: string
  ef_ValidFrom :: int
  ef_ValidUntil :: int

record TriggerWindowEvidenceV1 =
  tw_WindowStart :: int
  tw_WindowEnd :: int
  tw_WindowSize :: nat
  tw_RequiredAnomalies :: nat
  tw_ObservedAnomalies :: nat
  tw_AnomalyBeginTime :: int

record RecoveryWindowEvidenceV1 =
  rw_Enabled :: bool
  rw_RequiredConsecutiveWindows :: nat
  rw_ObservedConsecutiveMisses :: nat
  rw_OldestWindowStart :: int
  rw_SkippedWindows :: nat

record DecisionWindowV1 =
  dw_SourceTime :: int
  dw_Trigger :: TriggerWindowEvidenceV1
  dw_Recovery :: RecoveryWindowEvidenceV1
  dw_HistoryCompleteness :: Completeness
  dw_AnomalyTimestampsDigest :: digest
  dw_LateAccepted :: bool

record DetectEvidenceV1 =
  dv_DetectionResult :: DetectionResult
  dv_PredicateDigest :: string
  dv_NormalizedValue :: string
  dv_MatchedAlgorithmOrdinal :: "nat option"
  dv_MatchedGroupOrdinal :: "nat option"
  dv_ResultReason :: string
  dv_EffectiveTimeStatus :: EffectiveStatus

record LevelResultV1 =
  lv_LevelID :: nat
  lv_LevelCode :: string
  lv_Priority :: nat
  lv_Result :: LevelResult
  lv_DecisionWindow :: DecisionWindowV1
  lv_DetectEvidence :: DetectEvidenceV1
  lv_LevelTriggerFingerprint :: string

record LevelOutcomeV2 =
  lo_LevelID :: nat
  lo_LevelCode :: string
  lo_Priority :: nat
  lo_RecoveryEnabled :: bool
  lo_Result :: "LevelResult option"
  lo_SuppressedReason :: string
  lo_UnavailableReason :: string
  lo_StateDisposition :: Disposition
  lo_HistoryCompleteness :: "Completeness option"
  lo_DecisionWindow :: "DecisionWindowV1 option"
  lo_DetectEvidence :: "DetectEvidenceV1 option"
  lo_TriggerFingerprint :: string

datatype InvariantV2 =
    ValidateRequest | AlignLevelInputs nat | AdmitLevelPlan nat | AdmitCompute nat
  | ValidateDetectFact nat | ValidateUnavailableFact nat | ValidateEffectiveTime nat
  | BuildDetectEvidence nat | ValidateHistorySummary nat | CalculateTriggerWindow nat
  | CountTriggerAnomalies nat | BoundRecoveryWalk nat | CalculateRecoveryWindow nat
  | AssertStateEligibility nat | ClassifyLevelOutcome nat | AdmitEventLevelResults
  | BuildSnapshotReference | BuildDedupeIdentity | BuildTriggerEvent | LegacyAnomalyHistory nat
  | ProjectEventSubject

definition ReasonEffectiveTimeInactive :: string where
  "ReasonEffectiveTimeInactive = ''EFFECTIVE_TIME_INACTIVE''"
definition ReasonEffectiveTimeUnknown :: string where
  "ReasonEffectiveTimeUnknown = ''EFFECTIVE_TIME_UNKNOWN''"
definition ReasonHistoryWarming :: string where "ReasonHistoryWarming = ''HISTORY_WARMING''"
definition ReasonHistoryGapped :: string where "ReasonHistoryGapped = ''HISTORY_GAPPED''"

section \<open>Checks\<close>

definition validDigestV2 :: "string \<Rightarrow> bool" where
  "validDigestV2 v \<longleftrightarrow> length v = 64
     \<and> list_all (\<lambda>c. (CHR ''0'' \<le> c \<and> c \<le> CHR ''9'') \<or> (CHR ''a'' \<le> c \<and> c \<le> CHR ''f'')
                  \<or> (CHR ''A'' \<le> c \<and> c \<le> CHR ''F'')) v
     \<and> list_all (\<lambda>c. \<not> (CHR ''A'' \<le> c \<and> c \<le> CHR ''Z'')) v"

definition validCanonicalDecimalV2 :: "string \<Rightarrow> bool" where
  "validCanonicalDecimalV2 v =
     (if v = [] then False
      else
        (let start = (if v ! 0 = CHR ''-'' then 1 else 0 :: nat);
             dot = int (length v) - 7
         in if start = length v then False
            else if dot \<le> int start \<or> v ! nat dot \<noteq> CHR ''.'' \<or> (dot - int start > 1 \<and> v ! start = CHR ''0'')
            then False
            else if list_ex (\<lambda>i. i \<noteq> nat dot \<and> (v ! i < CHR ''0'' \<or> v ! i > CHR ''9'')) [start..<length v]
            then False
            else if v ! 0 = CHR ''-'' \<and> list_all (\<lambda>i. v ! i = CHR ''0'' \<or> v ! i = CHR ''.'') [start..<length v]
            then False
            else True))"

definition validLimits :: "EvaluationLimitsV2 \<Rightarrow> bool" where
  "validLimits l \<longleftrightarrow> el_MaxLevels l > 0 \<and> el_MaxTriggerWindowSize l > 0
     \<and> el_MaxRecoveryConsecutiveWindows l > 0 \<and> el_MaxRequiredHistoryPoints l > 0
     \<and> el_MaxLevelResultsPerEvent l > 0 \<and> el_MaxEvidenceBytesPerEvent l > 0 \<and> el_MaxComputeCost l > 0"

definition multiplyUint32ToInt64 :: "nat \<Rightarrow> nat \<Rightarrow> int option" where
  "multiplyUint32ToInt64 l r = (let v = u64 (l * r) in if int v > maxInt64 then None else Some (int v))"

definition windowStartV2 :: "int \<Rightarrow> nat \<Rightarrow> nat \<Rightarrow> int option" where
  "windowStartV2 endTime windowSize stepSeconds =
     (case multiplyUint32ToInt64 windowSize stepSeconds of
        None \<Rightarrow> None
      | Some span \<Rightarrow>
          if span = 0 then None
          else if span - 1 > endTime then None
          else Some (endTime - (span - 1)))"

definition requiredHistoryPointsV2 :: "TriggerPlan \<Rightarrow> RecoveryPlan \<Rightarrow> nat \<times> bool" where
  "requiredHistoryPointsV2 t r =
     (if tp_WindowSize t = 0 \<or> tp_RequiredAnomalies t = 0 \<or> tp_StepSeconds t = 0 then (0, False)
      else if \<not> rp_Enabled r
      then (if rp_ConsecutiveWindows r \<noteq> 0 then (0, False) else (tp_WindowSize t, True))
      else if rp_ConsecutiveWindows r = 0
              \<or> maxUint32 - tp_WindowSize t < u32_sub (rp_ConsecutiveWindows r) 1
      then (0, False)
      else (u32_sub (u32 (tp_WindowSize t + rp_ConsecutiveWindows r)) 1, True))"

definition validateEffectiveTimeFactV2 :: "int \<Rightarrow> string \<Rightarrow> EffectiveTimeFact \<Rightarrow> bool" where
  "validateEffectiveTimeFactV2 evaluationTime requirementDigest fct \<longleftrightarrow>
     \<not> (ef_RequirementDigest fct \<noteq> requirementDigest \<or> \<not> validDigestV2 (ef_FactDigest fct)
        \<or> \<not> validDigestV2 (ef_FactRevision fct) \<or> ef_ValidFrom fct > evaluationTime
        \<or> ef_ValidUntil fct \<le> evaluationTime \<or> ef_ValidUntil fct \<le> ef_ValidFrom fct)"

definition validateHistorySummaryV2 :: "int \<Rightarrow> nat \<Rightarrow> nat \<Rightarrow> HistorySummary \<Rightarrow> bool" where
  "validateHistorySummaryV2 sourceTime requiredPoints stepSeconds s =
     (if hs_Completeness s \<noteq> CompleteFull \<and> hs_Completeness s \<noteq> CompleteWarming
         \<and> hs_Completeness s \<noteq> CompleteGapped then False
      else if hs_WindowEnd s \<noteq> sourceTime \<or> hs_WindowStart s < 0 \<or> hs_WindowStart s > hs_WindowEnd s
         \<or> hs_ValidPositions s > requiredPoints \<or> hs_AnomalyCount s > hs_ValidPositions s then False
      else (case multiplyUint32ToInt64 (u32_sub requiredPoints 1) stepSeconds of
              None \<Rightarrow> False
            | Some expectedOffset \<Rightarrow>
                if expectedOffset > sourceTime \<or> hs_WindowStart s \<noteq> sourceTime - expectedOffset then False
                else \<not> (hs_Completeness s = CompleteFull \<and> hs_ValidPositions s \<noteq> requiredPoints)))"

definition historyReasonV2 :: "Completeness \<Rightarrow> string" where
  "historyReasonV2 c = (if c = CompleteGapped then ReasonHistoryGapped else ReasonHistoryWarming)"

definition buildDetectEvidenceV2 ::
  "DetectionRecord \<Rightarrow> DetectionFact \<Rightarrow> EffectiveStatus \<Rightarrow> DetectEvidenceV1 option" where
  "buildDetectEvidenceV2 record fct effectiveStatus =
     (let evidence = df_Evidence fct
      in case de_ProjectedValueOrdinal evidence of
           None \<Rightarrow> None
         | Some ordinal \<Rightarrow>
             if ordinal \<ge> length (dr_ProjectedValues record) \<or> \<not> validDigestV2 (de_PredicateDigest evidence)
             then None
             else
               (let projected = dr_ProjectedValues record ! ordinal
                in if \<not> pv_Available projected \<or> \<not> validCanonicalDecimalV2 (pv_CanonicalDecimal projected)
                      \<or> pv_ReasonCode projected \<noteq> [] then None
                   else Some \<lparr>dv_DetectionResult = df_Result fct,
                          dv_PredicateDigest = de_PredicateDigest evidence,
                          dv_NormalizedValue = pv_CanonicalDecimal projected,
                          dv_MatchedAlgorithmOrdinal = de_MatchedAlgorithmOrdinal evidence,
                          dv_MatchedGroupOrdinal = de_MatchedGroupOrdinal evidence,
                          dv_ResultReason = de_ResultReason evidence,
                          dv_EffectiveTimeStatus = effectiveStatus\<rparr>))"

section \<open>State eligibility\<close>

definition EvaluateStateEligibilityV2 ::
  "(string \<Rightarrow> bool) \<Rightarrow> int \<Rightarrow> CompiledLevel \<Rightarrow> DetectionFact \<Rightarrow> EffectiveTimeFact \<Rightarrow> InvariantV2 + Disposition" where
  "EvaluateStateEligibilityV2 levelUnavailableReason evaluationTime level fct effective =
     (let lid = ld_LevelID (cl_Definition level)
      in if df_Definition fct \<noteq> cl_Definition level \<or> df_DetectFingerprint fct \<noteq> cl_DetectFingerprint level
         then Inl (ValidateDetectFact lid)
         else if \<not> validateEffectiveTimeFactV2 evaluationTime (cl_EffectiveTimeRequirementDigest level) effective
         then Inl (ValidateEffectiveTime lid)
         else
           (case (case ef_Status effective of
                    EffectiveTimeActive \<Rightarrow> Some StateAdvance
                  | EffectiveTimeInactive \<Rightarrow> Some StateAdvance
                  | EffectiveTimeUnknown \<Rightarrow> Some StateFreeze
                  | EffectiveTimeOther _ \<Rightarrow> None) of
              None \<Rightarrow> Inl (ValidateEffectiveTime lid)
            | Some effectiveDisposition \<Rightarrow>
                (case df_Result fct of
                   DetectionUnavailable \<Rightarrow>
                     if levelUnavailableReason (df_ReasonCode fct) then Inr StateFreeze
                     else Inl (ValidateUnavailableFact lid)
                 | DetectionError \<Rightarrow>
                     if levelUnavailableReason (df_ReasonCode fct) then Inr StateFreeze
                     else Inl (ValidateUnavailableFact lid)
                 | DetectionAnomalous \<Rightarrow> Inr effectiveDisposition
                 | DetectionNormal \<Rightarrow> Inr effectiveDisposition
                 | DetectionOther _ \<Rightarrow> Inl (ValidateDetectFact lid))))"

section \<open>One Level\<close>

record walkTally =
  wt_misses :: nat
  wt_skipped :: nat
  wt_oldest :: int

text \<open>
  The recovery walk: from the newest window backwards, one step at a time, over at most \<open>retained\<close>
  positions.  \<open>None\<close> is the time overflow the code reports as an invariant violation.
\<close>

function recoveryWalk ::
  "LevelView \<Rightarrow> TriggerPlan \<Rightarrow> nat \<Rightarrow> int \<Rightarrow> nat \<Rightarrow> nat \<Rightarrow> walkTally \<Rightarrow> walkTally option" where
  "recoveryWalk history t consecutive sourceTime retained offset tally =
     (if \<not> (wt_misses tally < consecutive \<and> offset < retained) then Some tally
      else
        (case multiplyUint32ToInt64 offset (tp_StepSeconds t) of
           None \<Rightarrow> None
         | Some shift \<Rightarrow>
             if shift > sourceTime then Some tally
             else
               (case windowStartV2 (sourceTime - shift) (tp_WindowSize t) (tp_StepSeconds t) of
                  None \<Rightarrow> Some tally
                | Some windowStart \<Rightarrow>
                    (let windowEnd = sourceTime - shift;
                         tally' = tally\<lparr>wt_oldest := windowStart\<rparr>;
                         anomalies = hvi_CountAnomalies history windowStart windowEnd
                     in if anomalies \<ge> tp_RequiredAnomalies t then Some tally'
                        else
                          (let observed = hvi_CountObserved history windowStart windowEnd;
                               holes = (if observed < tp_WindowSize t then tp_WindowSize t - observed else 0)
                           in if u32 (anomalies + holes) \<ge> tp_RequiredAnomalies t
                              then recoveryWalk history t consecutive sourceTime retained (offset + 1)
                                     (tally'\<lparr>wt_skipped := wt_skipped tally + 1\<rparr>)
                              else recoveryWalk history t consecutive sourceTime retained (offset + 1)
                                     (tally'\<lparr>wt_misses := wt_misses tally + 1\<rparr>))))))"
  by pat_completeness auto
termination
  by (relation "measure (\<lambda>(_, _, _, _, retained, offset, _). retained - offset)") auto

declare recoveryWalk.simps [simp del]

text \<open>The walk as \<open>evaluateLevelV2\<close> runs it: only with recovery enabled and no ABNORMAL result.\<close>

definition runRecoveryWalk ::
  "CompiledLevel \<Rightarrow> LevelView \<Rightarrow> int \<Rightarrow> int \<Rightarrow> bool \<Rightarrow> InvariantV2 + walkTally" where
  "runRecoveryWalk level history sourceTime triggerStart abnormal =
     (let lid = ld_LevelID (cl_Definition level);
          start = \<lparr>wt_misses = 0, wt_skipped = 0, wt_oldest = triggerStart\<rparr>
      in if rp_Enabled (cl_Recovery level) \<and> \<not> abnormal
         then (if cl_RetentionPoints level = 0 then Inl (BoundRecoveryWalk lid)
               else (case recoveryWalk history (cl_Trigger level) (rp_ConsecutiveWindows (cl_Recovery level))
                            sourceTime (cl_RetentionPoints level) 0 start of
                       None \<Rightarrow> Inl (CalculateRecoveryWindow lid)
                     | Some tally \<Rightarrow> Inr tally))
         else Inr start)"

definition decisionWindowV2 ::
  "DetectionRecord \<Rightarrow> bool \<Rightarrow> CompiledLevel \<Rightarrow> HistorySummary \<Rightarrow> int \<Rightarrow> nat \<Rightarrow> int \<Rightarrow> walkTally \<Rightarrow> DecisionWindowV1" where
  "decisionWindowV2 record lateAccepted level summary triggerStart observedAnomalies anomalyBeginTime tally =
     \<lparr>dw_SourceTime = dr_SourceTime record,
      dw_Trigger = \<lparr>tw_WindowStart = triggerStart, tw_WindowEnd = dr_SourceTime record,
        tw_WindowSize = tp_WindowSize (cl_Trigger level),
        tw_RequiredAnomalies = tp_RequiredAnomalies (cl_Trigger level),
        tw_ObservedAnomalies = observedAnomalies, tw_AnomalyBeginTime = anomalyBeginTime\<rparr>,
      dw_Recovery = \<lparr>rw_Enabled = rp_Enabled (cl_Recovery level),
        rw_RequiredConsecutiveWindows = rp_ConsecutiveWindows (cl_Recovery level),
        rw_ObservedConsecutiveMisses = wt_misses tally, rw_OldestWindowStart = wt_oldest tally,
        rw_SkippedWindows = wt_skipped tally\<rparr>,
      dw_HistoryCompleteness = hs_Completeness summary,
      dw_AnomalyTimestampsDigest = hs_AnomalyDigest summary, dw_LateAccepted = lateAccepted\<rparr>"

definition decidedLevel ::
  "CompiledLevel \<Rightarrow> LevelOutcomeV2 \<Rightarrow> LevelResult \<Rightarrow> DecisionWindowV1 \<Rightarrow> DetectEvidenceV1
     \<Rightarrow> LevelOutcomeV2 \<times> LevelResultV1 option" where
  "decidedLevel level outcome result decisionWindow detectEvidence =
     (outcome\<lparr>lo_Result := Some result, lo_HistoryCompleteness := Some (dw_HistoryCompleteness decisionWindow),
              lo_DecisionWindow := Some decisionWindow, lo_DetectEvidence := Some detectEvidence\<rparr>,
      Some \<lparr>lv_LevelID = ld_LevelID (cl_Definition level), lv_LevelCode = ld_LevelCode (cl_Definition level),
            lv_Priority = ld_Priority (cl_Definition level), lv_Result = result,
            lv_DecisionWindow = decisionWindow, lv_DetectEvidence = detectEvidence,
            lv_LevelTriggerFingerprint = cl_TriggerFingerprint level\<rparr>)"

text \<open>The part of \<open>evaluateLevelV2\<close> that reads the history, for a valid fact inside its effective time.\<close>

definition decideLevelV2 ::
  "DetectionRecord \<Rightarrow> bool \<Rightarrow> CompiledLevel \<Rightarrow> DetectionFact \<Rightarrow> LevelView \<Rightarrow> LevelOutcomeV2 \<Rightarrow> DetectEvidenceV1
     \<Rightarrow> InvariantV2 + (LevelOutcomeV2 \<times> LevelResultV1 option)" where
  "decideLevelV2 record lateAccepted level fct history outcome detectEvidence =
     (let lid = ld_LevelID (cl_Definition level); sourceTime = dr_SourceTime record;
          t = cl_Trigger level; r = cl_Recovery level;
          requiredPoints = fst (requiredHistoryPointsV2 t r);
          summary = hvi_Summarize history sourceTime requiredPoints
      in if \<not> validateHistorySummaryV2 sourceTime requiredPoints (tp_StepSeconds t) summary
         then Inl (ValidateHistorySummary lid)
         else case windowStartV2 sourceTime (tp_WindowSize t) (tp_StepSeconds t) of
           None \<Rightarrow> Inl (CalculateTriggerWindow lid)
         | Some triggerStart \<Rightarrow>
             (let observedAnomalies = hvi_CountAnomalies history triggerStart sourceTime;
                  anomalyBeginTime = fst (hvi_FirstAnomaly history triggerStart sourceTime)
              in if observedAnomalies > tp_WindowSize t then Inl (CountTriggerAnomalies lid)
                 else
                   (let abnormal = (df_Result fct = DetectionAnomalous \<and> observedAnomalies \<ge> tp_RequiredAnomalies t)
                    in case runRecoveryWalk level history sourceTime triggerStart abnormal of
                         Inl e \<Rightarrow> Inl e
                       | Inr tally \<Rightarrow>
                           (let recovered = (\<not> abnormal \<and> rp_Enabled r \<and> wt_misses tally \<ge> rp_ConsecutiveWindows r);
                                window = decisionWindowV2 record lateAccepted level summary triggerStart
                                           observedAnomalies anomalyBeginTime tally
                            in if abnormal then Inr (decidedLevel level outcome LevelResultAbnormal window detectEvidence)
                               else if recovered
                               then Inr (decidedLevel level outcome LevelResultRecovery window detectEvidence)
                               else if hs_Completeness summary \<noteq> CompleteFull
                               then Inr (outcome\<lparr>lo_UnavailableReason := historyReasonV2 (hs_Completeness summary),
                                                lo_HistoryCompleteness := Some (hs_Completeness summary)\<rparr>, None)
                               else Inr (decidedLevel level outcome LevelResultNormal window detectEvidence)))))"

definition initialOutcome :: "CompiledLevel \<Rightarrow> Disposition \<Rightarrow> LevelOutcomeV2" where
  "initialOutcome level eligibility =
     \<lparr>lo_LevelID = ld_LevelID (cl_Definition level), lo_LevelCode = ld_LevelCode (cl_Definition level),
      lo_Priority = ld_Priority (cl_Definition level), lo_RecoveryEnabled = rp_Enabled (cl_Recovery level),
      lo_Result = None, lo_SuppressedReason = [], lo_UnavailableReason = [], lo_StateDisposition = eligibility,
      lo_HistoryCompleteness = None, lo_DecisionWindow = None, lo_DetectEvidence = None,
      lo_TriggerFingerprint = cl_TriggerFingerprint level\<rparr>"

definition evaluateLevelV2 ::
  "DetectionRecord \<Rightarrow> bool \<Rightarrow> CompiledLevel \<Rightarrow> DetectionFact \<Rightarrow> LevelView \<Rightarrow> EffectiveTimeFact \<Rightarrow> Disposition
     \<Rightarrow> InvariantV2 + (LevelOutcomeV2 \<times> LevelResultV1 option)" where
  "evaluateLevelV2 record lateAccepted level fct history effective eligibility =
     (let outcome = initialOutcome level eligibility; lid = ld_LevelID (cl_Definition level)
      in if \<not> (df_Result fct = DetectionAnomalous \<or> df_Result fct = DetectionNormal)
         then Inr (outcome\<lparr>lo_UnavailableReason := df_ReasonCode fct\<rparr>, None)
         else case buildDetectEvidenceV2 record fct EffectiveTimeActive of
           None \<Rightarrow> Inl (BuildDetectEvidence lid)
         | Some detectEvidence \<Rightarrow>
             (case ef_Status effective of
                EffectiveTimeInactive \<Rightarrow> Inr (outcome\<lparr>lo_SuppressedReason := ReasonEffectiveTimeInactive\<rparr>, None)
              | EffectiveTimeUnknown \<Rightarrow> Inr (outcome\<lparr>lo_UnavailableReason := ReasonEffectiveTimeUnknown\<rparr>, None)
              | EffectiveTimeOther _ \<Rightarrow> Inl (ValidateEffectiveTime lid)
              | EffectiveTimeActive \<Rightarrow> decideLevelV2 record lateAccepted level fct history outcome detectEvidence))"

section \<open>The request\<close>

record StrategyRef =
  sr_TenantID :: string
  sr_StrategyID :: string
  sr_SnapshotRevision :: nat

record CompiledPlan =
  cp_Levels :: "CompiledLevel list"
  cp_StrategyRef :: StrategyRef
  cp_OutputIdentity :: "string option"
  cp_LegacyOutput :: "string option"
  cp_PublishesCompatibleProtocol :: bool
  cp_WireFormat :: string
  cp_CompatibleOffBoundary :: "int \<Rightarrow> bool"
  cp_SignalType :: string

record OpenAlertSet =
  oa_Contains :: "string \<Rightarrow> string \<Rightarrow> string \<Rightarrow> bool"
  oa_OneTimeClose :: "bool option"

record EvaluationRequestV2 =
  rq_TenantID :: string
  rq_BusinessID :: string
  rq_Plan :: "CompiledPlan option"
  rq_Record :: DetectionRecord
  rq_RefRecordID :: string
  rq_RefSourceTime :: int
  rq_Dimensions :: "(string \<times> string) list option"
  rq_ObservedValues :: "(string \<times> string) list option"
  rq_Histories :: "(nat \<times> LevelView option) list"
  rq_EffectiveTimeFacts :: "(nat \<times> EffectiveTimeFact) list"
  rq_EvaluationTime :: int
  rq_ExecutionID :: string
  rq_LateAccepted :: bool
  rq_Limits :: EvaluationLimitsV2
  rq_OpenAlerts :: "OpenAlertSet option"
  rq_HoldRecovery :: "(nat \<Rightarrow> string \<times> bool) option"

record BuiltEvent =
  be_PrimaryLevelID :: nat
  be_LevelResults :: "LevelResultV1 list"

record EventServices =
  sv_levelUnavailableReason :: "string \<Rightarrow> bool"
  sv_dedupeMD5 :: "string \<Rightarrow> string \<Rightarrow> string \<Rightarrow> string option"
  sv_buildTriggerEvent :: "LevelResult \<Rightarrow> LevelResultV1 list \<Rightarrow> string \<Rightarrow> BuiltEvent option"
  sv_projectSubject :: "string \<Rightarrow> string option"

record TriggerEventV1 =
  te_Built :: BuiltEvent
  te_DedupeMD5 :: string
  te_LegacyAnomalyTimestamps :: "int list option"
  te_WireFormat :: string
  te_SignalType :: string
  te_Subject :: "string option"

record EvaluationCountsV2 =
  ec_Levels :: nat
  ec_Evaluated :: nat
  ec_Abnormal :: nat
  ec_Normal :: nat
  ec_Recovery :: nat
  ec_Suppressed :: nat
  ec_Unavailable :: nat
  ec_Events :: nat

datatype RecoveryBeside =
    RecoveryBesideLevelUnavailable | RecoveryBesideLevelRecovering | RecoveryBesideLevelWithoutRecovery

datatype RecoveryHeld = RecoveryHeldNoOpenAlert | RecoveryHeldFingerprintUnknown

datatype OpenAlertGate =
    OpenAlertGatePassed | OpenAlertGatePassedOneTimeClose | OpenAlertGateHeldNoOpenAlert
  | OpenAlertGateHeldFingerprintUnknown | OpenAlertGateNotConfigured | OpenAlertGateProtocolNotGated

record RecoveryGateV2 =
  rg_Held :: bool
  rg_Cause :: "RecoveryHeld option"
  rg_Beside :: "RecoveryBeside option"
  rg_BesideLevelID :: nat
  rg_OpenAlertGate :: "OpenAlertGate option"

record EvaluationResultV2 =
  er_Completion :: Completion
  er_RecordResult :: "LevelResult option"
  er_LevelOutcomes :: "LevelOutcomeV2 list"
  er_TriggerEvent :: "TriggerEventV1 option"
  er_Counts :: EvaluationCountsV2
  er_RecoveryGate :: RecoveryGateV2
  er_WithoutMessageFormat :: string

definition WireFormatPythonCompatible :: string where "WireFormatPythonCompatible = ''python_compatible''"
definition WireFormatStandardRawEvent :: string where "WireFormatStandardRawEvent = ''standard_raw_event''"

section \<open>Validation of the request\<close>

fun admitLevels ::
  "EvaluationRequestV2 \<Rightarrow> CompiledLevel option
     \<Rightarrow> (CompiledLevel \<times> DetectionFact \<times> (nat \<times> LevelView option) \<times> (nat \<times> EffectiveTimeFact)) list
     \<Rightarrow> nat \<Rightarrow> InvariantV2 + nat" where
  "admitLevels rq prev [] computeCost = Inr computeCost"
| "admitLevels rq prev ((level, fct, history, effective) # rest) computeCost =
     (let lid = ld_LevelID (cl_Definition level); t = cl_Trigger level; r = cl_Recovery level
      in if lid = 0 \<or> (case prev of None \<Rightarrow> False | Some p \<Rightarrow> lid \<le> ld_LevelID (cl_Definition p))
            \<or> ld_LevelID (df_Definition fct) \<noteq> lid \<or> fst history \<noteq> lid \<or> fst effective \<noteq> lid \<or> snd history = None
         then Inl (AlignLevelInputs lid)
         else
           (let (required, ok) = requiredHistoryPointsV2 t r; limits = rq_Limits rq
            in if \<not> ok \<or> tp_WindowSize t > el_MaxTriggerWindowSize limits
                  \<or> rp_ConsecutiveWindows r > el_MaxRecoveryConsecutiveWindows limits
                  \<or> required > el_MaxRequiredHistoryPoints limits \<or> required \<noteq> cl_RequiredDetectHistoryPoints level
               then Inl (AdmitLevelPlan lid)
               else
                 (let levelCost = 1 + (if rp_Enabled r then rp_ConsecutiveWindows r else 0)
                  in if maxUint64 - computeCost < levelCost then Inl (AdmitCompute lid)
                     else admitLevels rq (Some level) rest (computeCost + levelCost))))"

definition levelInputs ::
  "EvaluationRequestV2 \<Rightarrow> CompiledLevel list
     \<Rightarrow> (CompiledLevel \<times> DetectionFact \<times> (nat \<times> LevelView option) \<times> (nat \<times> EffectiveTimeFact)) list" where
  "levelInputs rq levels =
     zip levels (zip (dr_LevelFacts (rq_Record rq)) (zip (rq_Histories rq) (rq_EffectiveTimeFacts rq)))"

definition validateRequestV2 :: "EvaluationRequestV2 \<Rightarrow> InvariantV2 + CompiledPlan" where
  "validateRequestV2 rq =
     (case rq_Plan rq of
        None \<Rightarrow> Inl ValidateRequest
      | Some plan \<Rightarrow>
          if \<not> validLimits (rq_Limits rq) \<or> rq_TenantID rq = [] \<or> rq_BusinessID rq = []
             \<or> dr_RecordID (rq_Record rq) = [] \<or> dr_SourceTime (rq_Record rq) < 0 \<or> rq_EvaluationTime rq < 0
             \<or> rq_ExecutionID rq = [] \<or> rq_RefRecordID rq \<noteq> dr_RecordID (rq_Record rq)
             \<or> rq_RefSourceTime rq \<noteq> dr_SourceTime (rq_Record rq)
             \<or> rq_Dimensions rq = None \<or> rq_ObservedValues rq = None
          then Inl ValidateRequest
          else
            (let levels = cp_Levels plan; limits = rq_Limits rq
             in if levels = [] \<or> u32 (length levels) > el_MaxLevels limits
                   \<or> u32 (length levels) > el_MaxLevelResultsPerEvent limits
                   \<or> length (dr_LevelFacts (rq_Record rq)) \<noteq> length levels
                   \<or> length (rq_Histories rq) \<noteq> length levels
                   \<or> length (rq_EffectiveTimeFacts rq) \<noteq> length levels
                then Inl (AlignLevelInputs 0)
                else (case admitLevels rq None (levelInputs rq levels) 0 of
                        Inl e \<Rightarrow> Inl e
                      | Inr computeCost \<Rightarrow>
                          if computeCost > el_MaxComputeCost limits then Inl (AdmitCompute 0) else Inr plan)))"

section \<open>Results and gates\<close>

fun aggregateLoop :: "LevelResult \<Rightarrow> LevelResultV1 list \<Rightarrow> LevelResult" where
  "aggregateLoop result [] = result"
| "aggregateLoop result (l # ls) =
     (if lv_Result l = LevelResultAbnormal then LevelResultAbnormal
      else aggregateLoop (if lv_Result l = LevelResultRecovery then LevelResultRecovery else result) ls)"

definition aggregateRecordResultV2 :: "LevelResultV1 list \<Rightarrow> LevelResult" where
  "aggregateRecordResultV2 results = aggregateLoop LevelResultNormal results"

definition noGate :: RecoveryGateV2 where
  "noGate = \<lparr>rg_Held = False, rg_Cause = None, rg_Beside = None, rg_BesideLevelID = 0, rg_OpenAlertGate = None\<rparr>"

fun recoveryGateLoop :: "LevelOutcomeV2 list \<Rightarrow> RecoveryGateV2 \<times> nat \<Rightarrow> RecoveryGateV2 \<times> nat" where
  "recoveryGateLoop [] acc = acc"
| "recoveryGateLoop (o' # os) (gate, withoutRecovery) =
     recoveryGateLoop os
       (if lo_UnavailableReason o' \<noteq> []
        then (if rg_Beside gate = None
              then gate\<lparr>rg_Beside := Some RecoveryBesideLevelUnavailable, rg_BesideLevelID := lo_LevelID o'\<rparr>
              else gate, withoutRecovery)
        else if lo_SuppressedReason o' \<noteq> [] then (gate, withoutRecovery)
        else if lo_Result o' = Some LevelResultNormal
        then (if lo_RecoveryEnabled o'
              then (if rg_Beside gate = None
                    then gate\<lparr>rg_Beside := Some RecoveryBesideLevelRecovering, rg_BesideLevelID := lo_LevelID o'\<rparr>
                    else gate, withoutRecovery)
              else (gate, if withoutRecovery = 0 then lo_LevelID o' else withoutRecovery))
        else (gate, withoutRecovery))"

definition recoveryGateV2 :: "LevelOutcomeV2 list \<Rightarrow> RecoveryGateV2" where
  "recoveryGateV2 outcomes =
     (let (gate, withoutRecovery) = recoveryGateLoop outcomes (noGate, 0)
      in if rg_Beside gate = None \<and> withoutRecovery \<noteq> 0
         then gate\<lparr>rg_Beside := Some RecoveryBesideLevelWithoutRecovery, rg_BesideLevelID := withoutRecovery\<rparr>
         else gate)"

definition oneTimeClose :: "OpenAlertSet \<Rightarrow> bool" where
  "oneTimeClose alerts = (case oa_OneTimeClose alerts of None \<Rightarrow> False | Some b \<Rightarrow> b)"

definition openAlertGateV2 ::
  "RecoveryGateV2 \<Rightarrow> EvaluationRequestV2 \<Rightarrow> CompiledPlan \<Rightarrow> string \<Rightarrow> string \<Rightarrow> RecoveryGateV2" where
  "openAlertGateV2 gate rq plan strategyID dedupeMD5 =
     (if cp_WireFormat plan \<noteq> WireFormatStandardRawEvent
      then gate\<lparr>rg_OpenAlertGate := Some OpenAlertGateProtocolNotGated\<rparr>
      else case rq_OpenAlerts rq of
             None \<Rightarrow> gate\<lparr>rg_OpenAlertGate := Some OpenAlertGateNotConfigured\<rparr>
           | Some alerts \<Rightarrow>
               if dedupeMD5 = []
               then gate\<lparr>rg_Held := True, rg_Cause := Some RecoveryHeldFingerprintUnknown,
                         rg_OpenAlertGate := Some OpenAlertGateHeldFingerprintUnknown\<rparr>
               else if \<not> oa_Contains alerts (rq_TenantID rq) strategyID dedupeMD5
               then gate\<lparr>rg_Held := True, rg_Cause := Some RecoveryHeldNoOpenAlert,
                         rg_OpenAlertGate := Some OpenAlertGateHeldNoOpenAlert\<rparr>
               else if oneTimeClose alerts then gate\<lparr>rg_OpenAlertGate := Some OpenAlertGatePassedOneTimeClose\<rparr>
               else gate\<lparr>rg_OpenAlertGate := Some OpenAlertGatePassed\<rparr>)"

definition EventHasMessage :: "string \<Rightarrow> LevelResult \<Rightarrow> bool" where
  "EventHasMessage format eventKind \<longleftrightarrow> format \<noteq> WireFormatPythonCompatible \<or> eventKind = LevelResultAbnormal"

definition EventHasMessageAt :: "string \<Rightarrow> LevelResult \<Rightarrow> bool \<Rightarrow> bool" where
  "EventHasMessageAt format eventKind offBoundary \<longleftrightarrow>
     EventHasMessage format eventKind \<and> \<not> (offBoundary \<and> format = WireFormatPythonCompatible)"

definition NoMessageForAt :: "string \<Rightarrow> LevelResult \<Rightarrow> bool \<Rightarrow> bool \<Rightarrow> bool" where
  "NoMessageForAt format eventKind compatibilityContext offBoundary \<longleftrightarrow>
     \<not> EventHasMessageAt format eventKind offBoundary \<and> compatibilityContext"

section \<open>The record\<close>

definition tallyCounts :: "LevelOutcomeV2 \<Rightarrow> EvaluationCountsV2 \<Rightarrow> EvaluationCountsV2 option" where
  "tallyCounts outcome c =
     (case lo_Result outcome of
        Some LevelResultAbnormal \<Rightarrow> Some (c\<lparr>ec_Evaluated := ec_Evaluated c + 1, ec_Abnormal := ec_Abnormal c + 1\<rparr>)
      | Some LevelResultNormal \<Rightarrow> Some (c\<lparr>ec_Evaluated := ec_Evaluated c + 1, ec_Normal := ec_Normal c + 1\<rparr>)
      | Some LevelResultRecovery \<Rightarrow> Some (c\<lparr>ec_Evaluated := ec_Evaluated c + 1, ec_Recovery := ec_Recovery c + 1\<rparr>)
      | None \<Rightarrow>
          if lo_SuppressedReason outcome \<noteq> [] then Some (c\<lparr>ec_Suppressed := ec_Suppressed c + 1\<rparr>)
          else if lo_UnavailableReason outcome \<noteq> [] then Some (c\<lparr>ec_Unavailable := ec_Unavailable c + 1\<rparr>)
          else None)"

text \<open>A recovery the caller holds becomes unavailable for the caller's reason.\<close>

definition holdRecovery :: "EvaluationRequestV2 \<Rightarrow> LevelOutcomeV2 \<Rightarrow> LevelOutcomeV2" where
  "holdRecovery rq outcome =
     (if lo_Result outcome = Some LevelResultRecovery
      then (case rq_HoldRecovery rq of
              None \<Rightarrow> outcome
            | Some hold \<Rightarrow>
                (let (reason, held) = hold (lo_LevelID outcome)
                 in if held then outcome\<lparr>lo_Result := None, lo_UnavailableReason := reason\<rparr> else outcome))
      else outcome)"

fun evaluateLevels ::
  "EventServices \<Rightarrow> EvaluationRequestV2
     \<Rightarrow> (CompiledLevel \<times> DetectionFact \<times> (nat \<times> LevelView option) \<times> (nat \<times> EffectiveTimeFact)) list
     \<Rightarrow> EvaluationCountsV2 \<Rightarrow> InvariantV2 + (LevelOutcomeV2 list \<times> LevelResultV1 list \<times> EvaluationCountsV2)" where
  "evaluateLevels sv rq [] counts = Inr ([], [], counts)"
| "evaluateLevels sv rq ((level, fct, history, effective) # rest) counts =
     (case EvaluateStateEligibilityV2 (sv_levelUnavailableReason sv) (rq_EvaluationTime rq) level fct (snd effective) of
        Inl e \<Rightarrow> Inl e
      | Inr eligibility \<Rightarrow>
          (case evaluateLevelV2 (rq_Record rq) (rq_LateAccepted rq) level fct (the (snd history)) (snd effective) eligibility of
             Inl e \<Rightarrow> Inl e
           | Inr (outcome0, successful) \<Rightarrow>
               if lo_StateDisposition outcome0 \<noteq> eligibility
               then Inl (AssertStateEligibility (lo_LevelID outcome0))
               else
                 (let outcome = holdRecovery rq outcome0
                  in case tallyCounts outcome counts of
                       None \<Rightarrow> Inl (ClassifyLevelOutcome (lo_LevelID outcome))
                     | Some counts' \<Rightarrow>
                         (case evaluateLevels sv rq rest counts' of
                            Inl e \<Rightarrow> Inl e
                          | Inr (outcomes, results, counts'') \<Rightarrow>
                              Inr (outcome # outcomes,
                                   (if lo_Result outcome \<noteq> None then the successful # results else results),
                                   counts'')))))"

text \<open>\<open>strconv.ParseInt\<close> in base 10 for 64 bits.\<close>

definition digitsValue :: "string \<Rightarrow> int option" where
  "digitsValue ds =
     (if ds = [] \<or> list_ex (\<lambda>c. c < CHR ''0'' \<or> c > CHR ''9'') ds then None
      else Some (fold (\<lambda>c v. 10 * v + (of_char c - 48)) ds 0))"

definition parseInt64 :: "string \<Rightarrow> int option" where
  "parseInt64 s =
     (let negative = (s \<noteq> [] \<and> hd s = CHR ''-'');
          ds = (if s \<noteq> [] \<and> (hd s = CHR ''-'' \<or> hd s = CHR ''+'') then tl s else s)
      in case digitsValue ds of
           None \<Rightarrow> None
         | Some v \<Rightarrow>
             if negative then (if v > 2 ^ 63 then None else Some (- v))
             else (if v > maxInt64 then None else Some v))"

text \<open>
  The anomaly timestamps of the primary Level for the compatibility context: every history of that
  Level is walked, for every Level result of that Level, and the number must agree with the evidence.
\<close>

fun legacyHistories :: "nat \<Rightarrow> int \<Rightarrow> int \<Rightarrow> (nat \<times> LevelView option) list \<Rightarrow> int list \<Rightarrow> int list option" where
  "legacyHistories primary windowStart untilTime [] ts = Some ts"
| "legacyHistories primary windowStart untilTime ((lid, view) # hs) ts =
     (if lid \<noteq> primary then legacyHistories primary windowStart untilTime hs ts
      else (case hvi_ForEachAnomaly (the view) of
              None \<Rightarrow> None
            | Some each \<Rightarrow> legacyHistories primary windowStart untilTime hs (ts @ each windowStart untilTime)))"

fun legacyTimestamps ::
  "EvaluationRequestV2 \<Rightarrow> nat \<Rightarrow> LevelResultV1 list \<Rightarrow> int list \<Rightarrow> InvariantV2 + int list" where
  "legacyTimestamps rq primary [] ts = Inr ts"
| "legacyTimestamps rq primary (l # ls) ts =
     (if lv_LevelID l \<noteq> primary then legacyTimestamps rq primary ls ts
      else (case legacyHistories primary (tw_WindowStart (dw_Trigger (lv_DecisionWindow l))) (rq_RefSourceTime rq)
                   (rq_Histories rq) ts of
              None \<Rightarrow> Inl (LegacyAnomalyHistory primary)
            | Some ts' \<Rightarrow>
                if length ts' \<noteq> tw_ObservedAnomalies (dw_Trigger (lv_DecisionWindow l))
                then Inl (LegacyAnomalyHistory primary)
                else legacyTimestamps rq primary ls ts'))"

definition completeEvent ::
  "EventServices \<Rightarrow> EvaluationRequestV2 \<Rightarrow> CompiledPlan \<Rightarrow> string \<Rightarrow> BuiltEvent \<Rightarrow> InvariantV2 + TriggerEventV1" where
  "completeEvent sv rq plan dedupeMD5 built =
     (case (if cp_LegacyOutput plan \<noteq> None \<and> cp_PublishesCompatibleProtocol plan
            then (case legacyTimestamps rq (be_PrimaryLevelID built) (be_LevelResults built) [] of
                    Inl e \<Rightarrow> Inl e
                  | Inr ts \<Rightarrow> Inr (Some (filter (\<lambda>t. \<not> cp_CompatibleOffBoundary plan t) ts)))
            else Inr None) of
        Inl e \<Rightarrow> Inl e
      | Inr legacy \<Rightarrow>
          (let event = \<lparr>te_Built = built, te_DedupeMD5 = dedupeMD5, te_LegacyAnomalyTimestamps = legacy,
                 te_WireFormat = cp_WireFormat plan, te_SignalType = cp_SignalType plan, te_Subject = None\<rparr>
           in case cp_OutputIdentity plan of
                None \<Rightarrow> Inr event
              | Some identity \<Rightarrow>
                  (case sv_projectSubject sv identity of
                     None \<Rightarrow> Inl ProjectEventSubject
                   | Some subject \<Rightarrow> Inr (event\<lparr>te_Subject := Some subject\<rparr>))))"

text \<open>The dedupe digest: only a Plan with a frozen snapshot revision and an output identity has one.\<close>

definition dedupeIdentity :: "EventServices \<Rightarrow> EvaluationRequestV2 \<Rightarrow> CompiledPlan \<Rightarrow> InvariantV2 + string" where
  "dedupeIdentity sv rq plan =
     (let ref = cp_StrategyRef plan
      in if sr_SnapshotRevision ref > 0
         then (if parseInt64 (sr_StrategyID ref) = None \<or> parseInt64 (rq_BusinessID rq) = None
                  \<or> sr_TenantID ref \<noteq> rq_TenantID rq
               then Inl BuildSnapshotReference
               else (case cp_OutputIdentity plan of
                       None \<Rightarrow> Inr []
                     | Some identity \<Rightarrow>
                         (case sv_dedupeMD5 sv (sr_StrategyID ref) (rq_BusinessID rq) identity of
                            None \<Rightarrow> Inl BuildDedupeIdentity
                          | Some md5 \<Rightarrow> Inr md5)))
         else Inr [])"

definition publishEvent ::
  "EventServices \<Rightarrow> EvaluationRequestV2 \<Rightarrow> CompiledPlan \<Rightarrow> LevelResult \<Rightarrow> LevelResultV1 list
     \<Rightarrow> EvaluationResultV2 \<Rightarrow> InvariantV2 + EvaluationResultV2" where
  "publishEvent sv rq plan recordResult levelResults result0 =
     (if u32 (length levelResults) > el_MaxLevelResultsPerEvent (rq_Limits rq) then Inl AdmitEventLevelResults
      else case dedupeIdentity sv rq plan of
        Inl e \<Rightarrow> Inl e
      | Inr dedupeMD5 \<Rightarrow>
          (let result = (if recordResult = LevelResultRecovery
                 then result0\<lparr>er_RecoveryGate := openAlertGateV2 (er_RecoveryGate result0) rq plan
                                 (sr_StrategyID (cp_StrategyRef plan)) dedupeMD5\<rparr>
                 else result0)
           in if recordResult = LevelResultRecovery \<and> rg_Held (er_RecoveryGate result) then Inr result
              else if NoMessageForAt (cp_WireFormat plan) recordResult
                        (cp_LegacyOutput plan \<noteq> None \<and> cp_PublishesCompatibleProtocol plan)
                        (cp_CompatibleOffBoundary plan (rq_RefSourceTime rq))
              then Inr (result\<lparr>er_WithoutMessageFormat := cp_WireFormat plan\<rparr>)
              else case sv_buildTriggerEvent sv recordResult levelResults dedupeMD5 of
                None \<Rightarrow> Inl BuildTriggerEvent
              | Some built \<Rightarrow>
                  (case completeEvent sv rq plan dedupeMD5 built of
                     Inl e \<Rightarrow> Inl e
                   | Inr event \<Rightarrow>
                       Inr (result\<lparr>er_TriggerEvent := Some event,
                                   er_Counts := (er_Counts result)\<lparr>ec_Events := 1\<rparr>\<rparr>))))"

definition EvaluateV2 :: "EventServices \<Rightarrow> EvaluationRequestV2 \<Rightarrow> InvariantV2 + EvaluationResultV2" where
  "EvaluateV2 sv rq =
     (case validateRequestV2 rq of
        Inl e \<Rightarrow> Inl e
      | Inr plan \<Rightarrow>
          (let counts = \<lparr>ec_Levels = length (cp_Levels plan), ec_Evaluated = 0, ec_Abnormal = 0, ec_Normal = 0,
                 ec_Recovery = 0, ec_Suppressed = 0, ec_Unavailable = 0, ec_Events = 0\<rparr>
           in case evaluateLevels sv rq (levelInputs rq (cp_Levels plan)) counts of
                Inl e \<Rightarrow> Inl e
              | Inr (outcomes, levelResults, counts') \<Rightarrow>
                  (let completion = (if levelResults \<noteq> [] then CompletionEvaluated
                                     else if ec_Unavailable counts' > 0 then CompletionUnavailable
                                     else CompletionSuppressed);
                       recordResult = (if levelResults \<noteq> [] then Some (aggregateRecordResultV2 levelResults) else None);
                       gate = (if recordResult = Some LevelResultRecovery then recoveryGateV2 outcomes else noGate);
                       result = \<lparr>er_Completion = completion, er_RecordResult = recordResult,
                         er_LevelOutcomes = outcomes, er_TriggerEvent = None, er_Counts = counts',
                         er_RecoveryGate = gate, er_WithoutMessageFormat = []\<rparr>
                   in case recordResult of
                        Some LevelResultAbnormal \<Rightarrow> publishEvent sv rq plan LevelResultAbnormal levelResults result
                      | Some LevelResultRecovery \<Rightarrow> publishEvent sv rq plan LevelResultRecovery levelResults result
                      | _ \<Rightarrow> Inr result)))"

end
