(* ===== verification/Detect.thy ===== *)
theory Detect
  imports Threshold Trigger Packed GapReason "HOL-Library.AList"
begin

text \<open>
  Detection of one record: the Levels of a prepared Plan, each with its algorithms joined by a
  connector (\<open>detect/evaluator.go\<close>, \<open>detect/named_input.go\<close>, \<open>detect/record_core.go\<close>).  The algorithms
  stand behind two interfaces of the code, \<open>Detector\<close> and \<open>namedInputDetector\<close>, and are functions
  of a bound Level; \<open>thresholdDetector\<close> is the one built on the modelled predicate, the others
  compute on \<open>float64\<close>.  A panic of a detector is a value, which \<open>callDetector\<close> recovers.

  Results are the constants of \<open>detect/model.go\<close>; the empty text is \<open>DetectionOther []\<close>.
\<close>

section \<open>Data\<close>

record DetectorSpec =
  dsp_Kind :: string
  dsp_Version :: nat
  dsp_ValueRef :: string
  dsp_NormalizerRef :: string
  dsp_Predicate :: Predicate
  dsp_DeclaredExecutorErrors :: "string list"

record AlgorithmFact =
  af_Matched :: bool
  af_MatchedGroup :: int
  af_PredicateDigest :: string

text \<open>What a detector fails with: the context's error, a \<open>ControlledError\<close>, or anything else.\<close>

datatype DetectorFailure = ContextFailure | ControlledFailure string | OtherFailure

datatype DetectorAnswer = DetectorReturns "DetectorFailure + AlgorithmFact" | DetectorPanics

record boundDetector =
  bd_spec :: DetectorSpec
  bd_detector :: "DetectorSpec \<Rightarrow> NormalizedNumber \<Rightarrow> DetectorAnswer"
  bd_normalizer :: NumericNormalizerSpec

record RecordView =
  rv_RecordID :: string
  rv_SourceTime :: int
  rv_DimensionIdentityDigest :: string
  rv_Values :: "string \<rightharpoonup> string"

record ConsumerRef =
  cr_Plan :: PlanIdentity
  cr_LevelID :: nat
  cr_HasLevel :: bool

text \<open>A dataset and its view are pointers; a record of a view may be missing.\<close>

record NamedInputBinding =
  nb_Consumer :: ConsumerRef
  nb_RequirementID :: string
  nb_DatasetName :: string
  nb_Role :: string
  nb_HasDataset :: bool
  nb_View :: "RecordView option list option"
  nb_Completeness :: string
  nb_DataState :: string
  nb_Disposition :: string
  nb_ReasonCode :: string
  nb_QualityFacts :: "string list"
  nb_Terminals :: "string list"

record SeriesEvaluationInputRequest =
  si_Consumer :: ConsumerRef
  si_SeriesIdentity :: string
  si_RequirementIDs :: "string list"
  si_Inputs :: "NamedInputBinding list"

record AlgorithmInputRequirement =
  ir_RequirementID :: string
  ir_DatasetName :: string
  ir_Role :: string
  ir_NamedPoints :: "(string \<times> int) list"

record CompiledAlgorithmPlan =
  ap_Kind :: string
  ap_Version :: nat
  ap_ValueField :: string
  ap_NormalizedConfigDigest :: string
  ap_InputRequirements :: "AlgorithmInputRequirement list"

record namedAlgorithmResult =
  na_result :: DetectionResult
  na_reasonCode :: string
  na_canonicalDecimal :: string
  na_predicateDigest :: string

record boundAlgorithm =
  ba_compiled :: CompiledAlgorithmPlan
  ba_standard :: "boundDetector option"
  ba_named :: "CompiledAlgorithmPlan \<Rightarrow> SeriesEvaluationInputRequest \<Rightarrow> RecordView \<Rightarrow> namedAlgorithmResult"

record boundLevel =
  bl_Definition :: LevelDefinitionV2
  bl_DetectFingerprint :: string
  bl_Connector :: string
  bl_detectors :: "boundDetector list"
  bl_algorithms :: "boundAlgorithm list"

record boundPlan =
  bp_StrategyID :: string
  bp_levels :: "boundLevel list"
  bp_namedInputCount :: nat

record DetectProjectedValue =
  dp_ValueRef :: string
  dp_NormalizerRef :: string
  dp_CanonicalDecimal :: string
  dp_Available :: bool
  dp_ReasonCode :: string

record projectionEntry =
  pj_key :: "string \<times> string"
  pj_value :: NormalizedNumber
  pj_view :: DetectProjectedValue

record ThresholdEvidence =
  te_PredicateDigest :: string
  te_ProjectedValueOrdinal :: nat
  te_HasProjectedValue :: bool
  te_MatchedAlgorithmOrdinal :: nat
  te_HasMatchedAlgorithm :: bool
  te_MatchedGroupOrdinal :: nat
  te_HasMatchedGroup :: bool
  te_ResultReason :: string

definition noEvidence :: ThresholdEvidence where
  "noEvidence = \<lparr>te_PredicateDigest = [], te_ProjectedValueOrdinal = 0, te_HasProjectedValue = False,
     te_MatchedAlgorithmOrdinal = 0, te_HasMatchedAlgorithm = False, te_MatchedGroupOrdinal = 0,
     te_HasMatchedGroup = False, te_ResultReason = []\<rparr>"

record LevelFact =
  lf_Definition :: LevelDefinitionV2
  lf_DetectFingerprint :: string
  lf_Result :: DetectionResult
  lf_ReasonCode :: string
  lf_Evidence :: ThresholdEvidence

datatype DetectError =
    DetectContext | ExecuteDetector | InvalidDetectorFact | InvalidNamedResult | PreparedRecordRequired
  | NamedInputsRequired | ForeignNamedInput | DuplicateInputLevel nat | InputsNotCovering | RequirementSetDiffers
  | UnknownRequirement | RepeatedRequirement | BindingOrderDiffers | BindingDiffers

definition LevelConnectorAND :: string where "LevelConnectorAND = ''AND''"
definition LevelConnectorOR :: string where "LevelConnectorOR = ''OR''"
definition DetectorKindThreshold :: string where "DetectorKindThreshold = ''Threshold''"
definition ReasonRecordInvalid :: string where "ReasonRecordInvalid = ''RECORD_INVALID''"
definition ReasonQueryUnavailable :: string where "ReasonQueryUnavailable = ''QUERY_UNAVAILABLE''"

section \<open>The connector\<close>

datatype algorithmTruth = TruthFalse | TruthTrue | TruthUnknown

fun combineAnd :: "bool \<Rightarrow> algorithmTruth list \<Rightarrow> bool \<times> bool" where
  "combineAnd unknown [] = (\<not> unknown, \<not> unknown)"
| "combineAnd unknown (truth # truths) =
     (if truth = TruthFalse then (False, True) else combineAnd (unknown \<or> truth = TruthUnknown) truths)"

fun combineOr :: "bool \<Rightarrow> algorithmTruth list \<Rightarrow> bool \<times> bool" where
  "combineOr unknown [] = (False, \<not> unknown)"
| "combineOr unknown (truth # truths) =
     (if truth = TruthTrue then (True, True) else combineOr (unknown \<or> truth = TruthUnknown) truths)"

text \<open>What the Level's algorithms say together, and whether that is determined.\<close>

definition combineAlgorithmTruth :: "string \<Rightarrow> algorithmTruth list \<Rightarrow> bool \<times> bool" where
  "combineAlgorithmTruth connector truths =
     (if connector = LevelConnectorAND then combineAnd False truths else combineOr False truths)"

section \<open>Values and detectors\<close>

text \<open>A missing value is normalized as no bytes at all.\<close>

definition projectedEntry :: "(string \<rightharpoonup> string) \<Rightarrow> boundDetector \<Rightarrow> projectionEntry" where
  "projectedEntry values detector =
     (let spec = bd_spec detector;
          raw = (case values (dsp_ValueRef spec) of Some bytes \<Rightarrow> bytes | None \<Rightarrow> []);
          normalized = Normalize (bd_normalizer detector) raw
      in \<lparr>pj_key = (dsp_ValueRef spec, dsp_NormalizerRef spec),
          pj_value = (if resultAvailable normalized then nr_value normalized else zeroNumber),
          pj_view = \<lparr>dp_ValueRef = dsp_ValueRef spec, dp_NormalizerRef = dsp_NormalizerRef spec,
            dp_CanonicalDecimal = (if resultAvailable normalized then CanonicalDecimal (nr_value normalized) else []),
            dp_Available = resultAvailable normalized, dp_ReasonCode = nr_reasonCode normalized\<rparr>\<rparr>)"

definition projectRecordValue ::
  "(string \<rightharpoonup> string) \<Rightarrow> boundDetector \<Rightarrow> projectionEntry list \<Rightarrow> nat \<times> projectionEntry \<times> projectionEntry list" where
  "projectRecordValue values detector projections =
     (let spec = bd_spec detector; key = (dsp_ValueRef spec, dsp_NormalizerRef spec) in
      case find (\<lambda>i. pj_key (projections ! i) = key) [0..<length projections] of
        Some ordinal \<Rightarrow> (u32 ordinal, projections ! ordinal, projections)
      | None \<Rightarrow>
          (let entry = projectedEntry values detector
           in (u32 (length projections), entry, projections @ [entry])))"

definition callDetector :: "boundDetector \<Rightarrow> NormalizedNumber \<Rightarrow> DetectorFailure + AlgorithmFact" where
  "callDetector bound v =
     (case bd_detector bound (bd_spec bound) v of
        DetectorReturns answer \<Rightarrow> answer
      | DetectorPanics \<Rightarrow> Inl OtherFailure)"

text \<open>\<open>sort.SearchStrings\<close> over the declared reasons, which are sorted bytewise.\<close>

definition declaresReason :: "DetectorSpec \<Rightarrow> string \<Rightarrow> bool" where
  "declaresReason spec reason \<longleftrightarrow>
     reason \<noteq> [] \<and>
     (let reasons = map (map of_char) (dsp_DeclaredExecutorErrors spec) :: nat list list;
          sought = map of_char reason;
          index = go_search (length reasons) (\<lambda>i. lexordp_eq sought (reasons ! i))
      in index < length reasons \<and> reasons ! index = sought)"

text \<open>\<open>thresholdDetector.Evaluate\<close>, given whether the context is done.\<close>

definition thresholdDetector :: "bool \<Rightarrow> DetectorSpec \<Rightarrow> NormalizedNumber \<Rightarrow> DetectorAnswer" where
  "thresholdDetector done spec v =
     DetectorReturns
       (if done then Inl ContextFailure
        else case evaluatePredicate (dsp_Predicate spec) v of
               Inl e \<Rightarrow> Inl OtherFailure
             | Inr e \<Rightarrow> Inr \<lparr>af_Matched = pe_matched e, af_MatchedGroup = pe_matchedGroup e,
                            af_PredicateDigest = pe_predicateDigest e\<rparr>)"

section \<open>A Level over values alone\<close>

text \<open>The variables of \<open>evaluateLevel\<close>.\<close>

record levelScan =
  sn_matched :: bool
  sn_evidenceSet :: bool
  sn_unknown :: bool
  sn_terminal :: bool
  sn_unknownReason :: string
  sn_unknownEvidence :: ThresholdEvidence
  sn_evidenceFact :: AlgorithmFact
  sn_evidenceAlgorithm :: nat
  sn_evidenceProjection :: nat
  sn_predicateEvaluations :: nat
  sn_truths :: "algorithmTruth list"

definition noAlgorithmFact :: AlgorithmFact where
  "noAlgorithmFact = \<lparr>af_Matched = False, af_MatchedGroup = 0, af_PredicateDigest = []\<rparr>"

definition startScan :: "string \<Rightarrow> levelScan" where
  "startScan connector = \<lparr>sn_matched = (connector = LevelConnectorAND), sn_evidenceSet = False, sn_unknown = False,
     sn_terminal = False, sn_unknownReason = [], sn_unknownEvidence = noEvidence, sn_evidenceFact = noAlgorithmFact,
     sn_evidenceAlgorithm = 0, sn_evidenceProjection = 0, sn_predicateEvaluations = 0, sn_truths = []\<rparr>"

definition foldUnknown :: "nat \<Rightarrow> string \<Rightarrow> levelScan \<Rightarrow> levelScan" where
  "foldUnknown ordinal reason scan =
     (let scan' = scan\<lparr>sn_unknown := True, sn_truths := sn_truths scan @ [TruthUnknown]\<rparr>
      in if strongerUnknownReason (sn_unknownReason scan) reason
         then scan'\<lparr>sn_unknownReason := reason,
                 sn_unknownEvidence := noEvidence\<lparr>te_ProjectedValueOrdinal := ordinal, te_HasProjectedValue := True,
                                                te_ResultReason := reason\<rparr>\<rparr>
         else scan')"

definition takeEvidence :: "nat \<Rightarrow> nat \<Rightarrow> AlgorithmFact \<Rightarrow> levelScan \<Rightarrow> levelScan" where
  "takeEvidence index ordinal found scan =
     (if sn_evidenceSet scan then scan
      else scan\<lparr>sn_evidenceSet := True, sn_evidenceFact := found, sn_evidenceAlgorithm := u32 index, sn_evidenceProjection := ordinal\<rparr>)"

definition invalidFact :: "string \<Rightarrow> AlgorithmFact \<Rightarrow> bool" where
  "invalidFact kind found \<longleftrightarrow>
     length (af_PredicateDigest found) \<noteq> 64 \<or> af_MatchedGroup found < - 1
     \<or> \<not> af_Matched found \<and> af_MatchedGroup found \<noteq> - 1
     \<or> kind = DetectorKindThreshold \<and> af_Matched found \<and> af_MatchedGroup found < 0"

definition foldFact :: "string \<Rightarrow> nat \<Rightarrow> nat \<Rightarrow> AlgorithmFact \<Rightarrow> levelScan \<Rightarrow> levelScan" where
  "foldFact connector index ordinal found scan =
     (let counted = scan\<lparr>sn_predicateEvaluations := sn_predicateEvaluations scan + 1,
            sn_truths := sn_truths scan @ [if af_Matched found then TruthTrue else TruthFalse]\<rparr>;
          scan' = (if index = 0 then counted\<lparr>sn_evidenceFact := found, sn_evidenceProjection := ordinal\<rparr> else counted)
      in if connector = LevelConnectorAND
         then (if \<not> af_Matched found then takeEvidence index ordinal found (scan'\<lparr>sn_matched := False\<rparr>) else scan')
         else (if af_Matched found then takeEvidence index ordinal found (scan'\<lparr>sn_matched := True\<rparr>) else scan'))"

definition scanDetector ::
  "string \<Rightarrow> (string \<rightharpoonup> string) \<Rightarrow> nat \<Rightarrow> boundDetector \<Rightarrow> levelScan \<times> projectionEntry list
     \<Rightarrow> DetectError + levelScan \<times> projectionEntry list" where
  "scanDetector connector values index bound state =
     (let (scan, projections) = state;
          (ordinal, projection, projections') = projectRecordValue values bound projections
      in if \<not> dp_Available (pj_view projection)
         then Inr (foldUnknown ordinal (dp_ReasonCode (pj_view projection)) scan, projections')
         else
           (case callDetector bound (pj_value projection) of
              Inl ContextFailure \<Rightarrow> Inl DetectContext
            | Inl OtherFailure \<Rightarrow> Inl ExecuteDetector
            | Inl (ControlledFailure reason) \<Rightarrow>
                (if \<not> declaresReason (bd_spec bound) reason then Inl ExecuteDetector
                 else Inr (foldUnknown ordinal reason (scan\<lparr>sn_terminal := True\<rparr>), projections'))
            | Inr found \<Rightarrow>
                (if invalidFact (dsp_Kind (bd_spec bound)) found then Inl InvalidDetectorFact
                 else Inr (foldFact connector index ordinal found scan, projections'))))"

fun scanDetectors ::
  "string \<Rightarrow> (string \<rightharpoonup> string) \<Rightarrow> nat \<Rightarrow> boundDetector list \<Rightarrow> levelScan \<times> projectionEntry list
     \<Rightarrow> DetectError + levelScan \<times> projectionEntry list" where
  "scanDetectors connector values index [] state = Inr state"
| "scanDetectors connector values index (bound # rest) state =
     (case scanDetector connector values index bound state of
        Inl e \<Rightarrow> Inl e
      | Inr state' \<Rightarrow> scanDetectors connector values (index + 1) rest state')"

definition emptyFact :: "boundLevel \<Rightarrow> LevelFact" where
  "emptyFact level = \<lparr>lf_Definition = bl_Definition level, lf_DetectFingerprint = bl_DetectFingerprint level,
     lf_Result = DetectionOther [], lf_ReasonCode = [], lf_Evidence = noEvidence\<rparr>"

definition decidedEvidence :: "DetectionResult \<Rightarrow> levelScan \<Rightarrow> ThresholdEvidence" where
  "decidedEvidence result scan =
     (let found = sn_evidenceFact scan;
          base = noEvidence\<lparr>te_PredicateDigest := af_PredicateDigest found,
            te_ProjectedValueOrdinal := sn_evidenceProjection scan, te_HasProjectedValue := True\<rparr>;
          algorithm = (if result = DetectionAnomalous
            then base\<lparr>te_MatchedAlgorithmOrdinal := sn_evidenceAlgorithm scan, te_HasMatchedAlgorithm := True\<rparr> else base)
      in if result = DetectionAnomalous \<and> af_MatchedGroup found \<ge> 0
         then algorithm\<lparr>te_MatchedGroupOrdinal := u32 (nat (af_MatchedGroup found)), te_HasMatchedGroup := True\<rparr>
         else algorithm)"

definition finishLevel :: "boundLevel \<Rightarrow> levelScan \<Rightarrow> LevelFact" where
  "finishLevel level scan =
     (let (combined, determined) = combineAlgorithmTruth (bl_Connector level) (sn_truths scan) in
      if \<not> determined \<and> sn_unknown scan
      then (emptyFact level)\<lparr>lf_Result := (if sn_terminal scan then DetectionError else DetectionUnavailable),
              lf_ReasonCode := sn_unknownReason scan, lf_Evidence := sn_unknownEvidence scan\<rparr>
      else
        let result = (if (if determined then combined else sn_matched scan) then DetectionAnomalous else DetectionNormal)
        in (emptyFact level)\<lparr>lf_Result := result,
              lf_Evidence := (if bl_detectors level \<noteq> [] then decidedEvidence result scan else noEvidence)\<rparr>)"

definition evaluateLevel ::
  "(string \<rightharpoonup> string) \<Rightarrow> boundLevel \<Rightarrow> projectionEntry list \<Rightarrow> DetectError + LevelFact \<times> nat \<times> projectionEntry list" where
  "evaluateLevel values level projections =
     (case scanDetectors (bl_Connector level) values 0 (bl_detectors level) (startScan (bl_Connector level), projections) of
        Inl e \<Rightarrow> Inl e
      | Inr (scan, projections') \<Rightarrow> Inr (finishLevel level scan, sn_predicateEvaluations scan, projections'))"

fun evaluateLevelsOf ::
  "(string \<rightharpoonup> string) \<Rightarrow> boundLevel list \<Rightarrow> projectionEntry list \<Rightarrow> DetectError + LevelFact list \<times> nat \<times> projectionEntry list" where
  "evaluateLevelsOf values [] projections = Inr ([], 0, projections)"
| "evaluateLevelsOf values (level # levels) projections =
     (case evaluateLevel values level projections of
        Inl e \<Rightarrow> Inl e
      | Inr (found, evaluations, projections') \<Rightarrow>
          (case evaluateLevelsOf values levels projections' of
             Inl e \<Rightarrow> Inl e
           | Inr (facts, others, projections'') \<Rightarrow> Inr (found # facts, u64 (evaluations + others), projections'')))"

definition EvaluatePreparedRecord ::
  "boundPlan option \<Rightarrow> (string \<rightharpoonup> string) option \<Rightarrow> DetectError + LevelFact list \<times> DetectProjectedValue list \<times> nat" where
  "EvaluatePreparedRecord prepared record =
     (case (prepared, record) of
        (Some bound, Some values) \<Rightarrow>
          (if bp_namedInputCount bound \<noteq> 0 then Inl NamedInputsRequired
           else case evaluateLevelsOf values (bp_levels bound) [] of
             Inl e \<Rightarrow> Inl e
           | Inr (facts, evaluations, projections) \<Rightarrow> Inr (facts, map pj_view projections, evaluations))
      | _ \<Rightarrow> Inl PreparedRecordRequired)"

section \<open>Named inputs\<close>

definition namedUnavailable :: "string \<Rightarrow> namedAlgorithmResult" where
  "namedUnavailable reason = \<lparr>na_result = DetectionUnavailable, na_reasonCode = reason, na_canonicalDecimal = [], na_predicateDigest = []\<rparr>"

definition namedTerminal :: "string \<Rightarrow> namedAlgorithmResult" where
  "namedTerminal reason = \<lparr>na_result = DetectionError, na_reasonCode = reason, na_canonicalDecimal = [], na_predicateDigest = []\<rparr>"

text \<open>The status of the pure detectors: any text but the two constants is \<open>None\<close>.\<close>

definition namedResult :: "bool option \<Rightarrow> string \<Rightarrow> string \<Rightarrow> bool \<Rightarrow> namedAlgorithmResult" where
  "namedResult status canonical predicateDigest failed =
     (if failed then namedTerminal ReasonRecordInvalid
      else case status of
        Some anomalous \<Rightarrow> \<lparr>na_result = (if anomalous then DetectionAnomalous else DetectionNormal), na_reasonCode = [],
                           na_canonicalDecimal = canonical, na_predicateDigest = predicateDigest\<rparr>
      | None \<Rightarrow> namedUnavailable ReasonHistoryGapped)"

definition namedBinding :: "SeriesEvaluationInputRequest \<Rightarrow> string \<Rightarrow> NamedInputBinding option" where
  "namedBinding input name = find (\<lambda>b. nb_DatasetName b = name) (si_Inputs input)"

definition namedInputTrusted :: "NamedInputBinding \<Rightarrow> bool" where
  "namedInputTrusted b \<longleftrightarrow>
     nb_Completeness b = ''FULL'' \<and> nb_Disposition b = ''AVAILABLE'' \<and> (nb_DataState b = ''DATA'' \<or> nb_DataState b = ''EMPTY'')
     \<and> nb_HasDataset b \<and> nb_View b \<noteq> None \<and> nb_QualityFacts b = [] \<and> nb_Terminals b = []"

definition unavailableFromBinding :: "NamedInputBinding \<Rightarrow> namedAlgorithmResult" where
  "unavailableFromBinding b =
     (if nb_Disposition b = ''TERMINAL''
      then namedTerminal (if nb_ReasonCode b = [] then ReasonRecordInvalid else nb_ReasonCode b)
      else
        let reason = (if nb_ReasonCode b = [] \<and> nb_QualityFacts b \<noteq> [] then hd (nb_QualityFacts b) else nb_ReasonCode b)
        in if reason = [] \<and> nb_Terminals b \<noteq> [] then namedTerminal (hd (nb_Terminals b))
           else namedUnavailable (if reason = [] then ReasonQueryUnavailable else reason))"

text \<open>\<open>exactPoint\<close>: \<open>Inl\<close> is one of its two errors, a record that is missing and a second one at the time.\<close>

fun exactPointLoop :: "int \<Rightarrow> RecordView option \<Rightarrow> RecordView option list \<Rightarrow> unit + RecordView option" where
  "exactPointLoop sourceTime result [] = Inr result"
| "exactPointLoop sourceTime result (None # rest) = Inl ()"
| "exactPointLoop sourceTime result (Some r # rest) =
     (if rv_SourceTime r \<noteq> sourceTime then exactPointLoop sourceTime result rest
      else if result \<noteq> None then Inl ()
      else exactPointLoop sourceTime (Some r) rest)"

definition exactPoint :: "NamedInputBinding \<Rightarrow> int \<Rightarrow> unit + RecordView option" where
  "exactPoint b sourceTime = (case nb_View b of None \<Rightarrow> Inr None | Some view \<Rightarrow> exactPointLoop sourceTime None view)"

definition algorithmOffset :: "CompiledAlgorithmPlan \<Rightarrow> string \<Rightarrow> int" where
  "algorithmOffset algorithm name =
     (case find (\<lambda>point. fst point = name) (concat (map ir_NamedPoints (ap_InputRequirements algorithm))) of
        Some point \<Rightarrow> snd point
      | None \<Rightarrow> 0)"

section \<open>A Level over named inputs\<close>

text \<open>The variables of \<open>evaluateNamedInputLevel\<close>.\<close>

record namedScan =
  ms_truths :: "algorithmTruth list"
  ms_firstUnavailable :: namedAlgorithmResult
  ms_evidence :: ThresholdEvidence
  ms_fallbackEvidence :: ThresholdEvidence
  ms_fallbackEvidenceSet :: bool
  ms_evaluations :: nat
  ms_entries :: "projectionEntry list"
  ms_projections :: "DetectProjectedValue list"

definition noNamedResult :: namedAlgorithmResult where
  "noNamedResult = \<lparr>na_result = DetectionOther [], na_reasonCode = [], na_canonicalDecimal = [], na_predicateDigest = []\<rparr>"

definition startNamed :: "DetectProjectedValue list \<Rightarrow> namedScan" where
  "startNamed projections = \<lparr>ms_truths = [], ms_firstUnavailable = noNamedResult, ms_evidence = noEvidence,
     ms_fallbackEvidence = noEvidence, ms_fallbackEvidenceSet = False, ms_evaluations = 0, ms_entries = [],
     ms_projections = projections\<rparr>"

text \<open>The result of one algorithm with its matched group and the projections after it.\<close>

definition runStandard ::
  "(string \<rightharpoonup> string) \<Rightarrow> boundDetector \<Rightarrow> namedScan \<Rightarrow> DetectError + namedAlgorithmResult \<times> int \<times> namedScan" where
  "runStandard values bound scan =
     (let (_, projected, entries) = projectRecordValue values bound (ms_entries scan);
          scan' = scan\<lparr>ms_entries := entries, ms_projections := ms_projections scan @ [pj_view projected]\<rparr>
      in if \<not> dp_Available (pj_view projected) then Inr (namedUnavailable (dp_ReasonCode (pj_view projected)), - 1, scan')
         else
           (case callDetector bound (pj_value projected) of
              Inl _ \<Rightarrow> Inl ExecuteDetector
            | Inr found \<Rightarrow>
                (if invalidFact DetectorKindThreshold found then Inl InvalidDetectorFact
                 else Inr (\<lparr>na_result = (if af_Matched found then DetectionAnomalous else DetectionNormal), na_reasonCode = [],
                            na_canonicalDecimal = CanonicalDecimal (pj_value projected),
                            na_predicateDigest = af_PredicateDigest found\<rparr>,
                           (if af_Matched found then af_MatchedGroup found else - 1), scan'))))"

definition runNamed ::
  "SeriesEvaluationInputRequest \<Rightarrow> RecordView \<Rightarrow> boundAlgorithm \<Rightarrow> namedScan \<Rightarrow> namedAlgorithmResult \<times> int \<times> namedScan" where
  "runNamed input view algorithm scan =
     (let result = ba_named algorithm (ba_compiled algorithm) input view
      in (result, - 1, scan\<lparr>ms_projections := ms_projections scan @
            [\<lparr>dp_ValueRef = ap_ValueField (ba_compiled algorithm),
              dp_NormalizerRef = ap_NormalizedConfigDigest (ba_compiled algorithm),
              dp_CanonicalDecimal = na_canonicalDecimal result,
              dp_Available = (na_result result = DetectionNormal \<or> na_result result = DetectionAnomalous),
              dp_ReasonCode = na_reasonCode result\<rparr>]\<rparr>))"

definition currentEvidence :: "nat \<Rightarrow> nat \<Rightarrow> namedAlgorithmResult \<Rightarrow> int \<Rightarrow> ThresholdEvidence" where
  "currentEvidence ordinal projectionOrdinal result matchedGroup =
     (let base = noEvidence\<lparr>te_PredicateDigest := na_predicateDigest result, te_ProjectedValueOrdinal := projectionOrdinal,
            te_HasProjectedValue := True\<rparr>;
          matched = base\<lparr>te_MatchedAlgorithmOrdinal := u32 ordinal, te_HasMatchedAlgorithm := True\<rparr>
      in if na_result result \<noteq> DetectionAnomalous then base
         else if matchedGroup \<ge> 0
         then matched\<lparr>te_MatchedGroupOrdinal := u32 (nat matchedGroup), te_HasMatchedGroup := True\<rparr>
         else matched)"

definition countTruth :: "algorithmTruth \<Rightarrow> ThresholdEvidence \<Rightarrow> namedScan \<Rightarrow> namedScan" where
  "countTruth truth evidence scan =
     (let scan' = scan\<lparr>ms_truths := ms_truths scan @ [truth], ms_evaluations := ms_evaluations scan + 1\<rparr>
      in if ms_fallbackEvidenceSet scan then scan'
         else scan'\<lparr>ms_fallbackEvidence := evidence, ms_fallbackEvidenceSet := True\<rparr>)"

definition recordAlgorithm ::
  "string \<Rightarrow> nat \<Rightarrow> nat \<Rightarrow> namedAlgorithmResult \<Rightarrow> int \<Rightarrow> namedScan \<Rightarrow> DetectError + namedScan" where
  "recordAlgorithm connector ordinal projectionOrdinal result matchedGroup scan =
     (let current = currentEvidence ordinal projectionOrdinal result matchedGroup;
          counted =
            (case na_result result of
               DetectionAnomalous \<Rightarrow> Inr (countTruth TruthTrue current scan)
             | DetectionNormal \<Rightarrow> Inr (countTruth TruthFalse current scan)
             | DetectionOther _ \<Rightarrow> Inl InvalidNamedResult
             | _ \<Rightarrow> Inr (scan\<lparr>ms_truths := ms_truths scan @ [TruthUnknown],
                         ms_firstUnavailable := (if na_result (ms_firstUnavailable scan) = DetectionOther [] then result
                                                 else ms_firstUnavailable scan)\<rparr>))
      in case counted of
           Inl e \<Rightarrow> Inl e
         | Inr scan' \<Rightarrow>
             (let (matched, determined) = combineAlgorithmTruth connector (ms_truths scan')
              in Inr (if determined \<and> (connector = LevelConnectorAND \<and> \<not> matched \<or> connector = LevelConnectorOR \<and> matched)
                      then scan'\<lparr>ms_evidence := current\<rparr> else scan')))"

text \<open>\<open>cancelled\<close>: the algorithm, by its position, before which the context is found done, if any.\<close>

fun scanAlgorithms ::
  "nat option \<Rightarrow> string \<Rightarrow> SeriesEvaluationInputRequest \<Rightarrow> RecordView \<Rightarrow> nat \<Rightarrow> boundAlgorithm list \<Rightarrow> namedScan
     \<Rightarrow> DetectError + namedScan" where
  "scanAlgorithms cancelled connector input view ordinal [] scan = Inr scan"
| "scanAlgorithms cancelled connector input view ordinal (algorithm # rest) scan =
     (if cancelled = Some ordinal then Inl DetectContext
      else
        (case (case ba_standard algorithm of
                 Some bound \<Rightarrow> runStandard (rv_Values view) bound scan
               | None \<Rightarrow> Inr (runNamed input view algorithm scan)) of
           Inl e \<Rightarrow> Inl e
         | Inr (result, matchedGroup, scan') \<Rightarrow>
             (case recordAlgorithm connector ordinal (u32 (length (ms_projections scan))) result matchedGroup scan' of
                Inl e \<Rightarrow> Inl e
              | Inr scan'' \<Rightarrow> scanAlgorithms cancelled connector input view (ordinal + 1) rest scan'')))"

definition finishNamed :: "boundLevel \<Rightarrow> namedScan \<Rightarrow> LevelFact" where
  "finishNamed level scan =
     (let (matched, determined) = combineAlgorithmTruth (bl_Connector level) (ms_truths scan) in
      if \<not> determined
      then (emptyFact level)\<lparr>lf_Result := na_result (ms_firstUnavailable scan),
              lf_ReasonCode := na_reasonCode (ms_firstUnavailable scan),
              lf_Evidence := noEvidence\<lparr>te_ResultReason := na_reasonCode (ms_firstUnavailable scan)\<rparr>\<rparr>
      else (emptyFact level)\<lparr>lf_Result := (if matched then DetectionAnomalous else DetectionNormal),
              lf_Evidence := (if te_PredicateDigest (ms_evidence scan) = [] \<and> ms_fallbackEvidenceSet scan
                              then ms_fallbackEvidence scan else ms_evidence scan)\<rparr>)"

definition evaluateNamedInputLevel ::
  "nat option \<Rightarrow> SeriesEvaluationInputRequest \<Rightarrow> RecordView \<Rightarrow> boundLevel \<Rightarrow> DetectProjectedValue list
     \<Rightarrow> DetectError + LevelFact \<times> nat \<times> DetectProjectedValue list" where
  "evaluateNamedInputLevel cancelled input view level projections =
     (case scanAlgorithms cancelled (bl_Connector level) input view 0 (bl_algorithms level) (startNamed projections) of
        Inl e \<Rightarrow> Inl e
      | Inr scan \<Rightarrow> Inr (finishNamed level scan, ms_evaluations scan, ms_projections scan))"

text \<open>\<open>validateCompiledRequirements\<close>; \<open>expected\<close> is a map, the last requirement of an id stands.\<close>

definition expectedRequirements :: "boundLevel \<Rightarrow> (string \<times> AlgorithmInputRequirement) list" where
  "expectedRequirements level =
     fold (\<lambda>r expected. AList.update (ir_RequirementID r) r expected)
       (concat (map (ap_InputRequirements \<circ> ba_compiled) (bl_algorithms level))) []"

fun checkRequirementIDs :: "(string \<times> AlgorithmInputRequirement) list \<Rightarrow> string list \<Rightarrow> string list \<Rightarrow> DetectError option" where
  "checkRequirementIDs expected seen [] = None"
| "checkRequirementIDs expected seen (ident # rest) =
     (if map_of expected ident = None then Some UnknownRequirement
      else if ident \<in> set seen then Some RepeatedRequirement
      else checkRequirementIDs expected (ident # seen) rest)"

fun checkBindings ::
  "(string \<times> AlgorithmInputRequirement) list \<Rightarrow> ConsumerRef \<Rightarrow> string list \<Rightarrow> string list \<Rightarrow> NamedInputBinding list \<Rightarrow> DetectError option" where
  "checkBindings expected consumer idents seen [] = None"
| "checkBindings expected consumer idents seen (b # rest) =
     (if nb_Consumer b \<noteq> consumer \<or> idents = [] \<or> nb_RequirementID b \<noteq> hd idents then Some BindingOrderDiffers
      else case map_of expected (nb_RequirementID b) of
        None \<Rightarrow> Some UnknownRequirement
      | Some requirement \<Rightarrow>
          (if nb_DatasetName b \<noteq> ir_DatasetName requirement \<or> nb_Role b \<noteq> ir_Role requirement then Some BindingDiffers
           else if nb_RequirementID b \<in> set seen then Some RepeatedRequirement
           else checkBindings expected consumer (tl idents) (nb_RequirementID b # seen) rest))"

definition validateCompiledRequirements :: "boundLevel \<Rightarrow> SeriesEvaluationInputRequest \<Rightarrow> DetectError option" where
  "validateCompiledRequirements level input =
     (let expected = expectedRequirements level in
      if expected = [] then None
      else if length (si_RequirementIDs input) \<noteq> length expected \<or> length (si_Inputs input) \<noteq> length expected
      then Some RequirementSetDiffers
      else case checkRequirementIDs expected [] (si_RequirementIDs input) of
        Some e \<Rightarrow> Some e
      | None \<Rightarrow> checkBindings expected (si_Consumer input) (si_RequirementIDs input) [] (si_Inputs input))"

fun indexInputs ::
  "string \<Rightarrow> string \<Rightarrow> (nat \<times> SeriesEvaluationInputRequest) list \<Rightarrow> SeriesEvaluationInputRequest list
     \<Rightarrow> DetectError + (nat \<times> SeriesEvaluationInputRequest) list" where
  "indexInputs strategyID series byLevel [] = Inr byLevel"
| "indexInputs strategyID series byLevel (input # rest) =
     (if pi_StrategyID (cr_Plan (si_Consumer input)) \<noteq> strategyID \<or> \<not> cr_HasLevel (si_Consumer input)
         \<or> si_SeriesIdentity input \<noteq> series
      then Inl ForeignNamedInput
      else if map_of byLevel (cr_LevelID (si_Consumer input)) \<noteq> None then Inl (DuplicateInputLevel (cr_LevelID (si_Consumer input)))
      else indexInputs strategyID series ((cr_LevelID (si_Consumer input), input) # byLevel) rest)"

fun evaluateNamedLevels ::
  "(nat \<Rightarrow> nat option) \<Rightarrow> (nat \<times> SeriesEvaluationInputRequest) list \<Rightarrow> RecordView \<Rightarrow> nat \<Rightarrow> boundLevel list \<Rightarrow> DetectProjectedValue list
     \<Rightarrow> DetectError + LevelFact list \<times> DetectProjectedValue list \<times> nat" where
  "evaluateNamedLevels cancelled byLevel view position [] projections = Inr ([], projections, 0)"
| "evaluateNamedLevels cancelled byLevel view position (level # levels) projections =
     (case map_of byLevel (ld_LevelID (bl_Definition level)) of
        None \<Rightarrow> Inl InputsNotCovering
      | Some input \<Rightarrow>
          (case validateCompiledRequirements level input of
             Some e \<Rightarrow> Inl e
           | None \<Rightarrow>
               (case evaluateNamedInputLevel (cancelled position) input view level projections of
                  Inl e \<Rightarrow> Inl e
                | Inr (found, evaluations, projections') \<Rightarrow>
                    (case evaluateNamedLevels cancelled byLevel view (position + 1) levels projections' of
                       Inl e \<Rightarrow> Inl e
                     | Inr (facts, projections'', others) \<Rightarrow> Inr (found # facts, projections'', u64 (evaluations + others))))))"

definition EvaluatePreparedSeriesRecord ::
  "(nat \<Rightarrow> nat option) \<Rightarrow> boundPlan option \<Rightarrow> SeriesEvaluationInputRequest list \<Rightarrow> RecordView
     \<Rightarrow> DetectError + LevelFact list \<times> DetectProjectedValue list \<times> nat" where
  "EvaluatePreparedSeriesRecord cancelled prepared inputs view =
     (case prepared of
        None \<Rightarrow> Inl PreparedRecordRequired
      | Some bound \<Rightarrow>
          (if rv_RecordID view = [] then Inl PreparedRecordRequired
           else case indexInputs (bp_StrategyID bound) (rv_DimensionIdentityDigest view) [] inputs of
             Inl e \<Rightarrow> Inl e
           | Inr byLevel \<Rightarrow>
               (if length byLevel \<noteq> length (bp_levels bound) then Inl InputsNotCovering
                else evaluateNamedLevels cancelled byLevel view 0 (bp_levels bound) [])))"

section \<open>Preparing a Plan\<close>

type_synonym Detector = "DetectorSpec \<Rightarrow> NormalizedNumber \<Rightarrow> DetectorAnswer"
type_synonym namedInputDetector = "CompiledAlgorithmPlan \<Rightarrow> SeriesEvaluationInputRequest \<Rightarrow> RecordView \<Rightarrow> namedAlgorithmResult"

text \<open>A registry holds the detectors by kind and version.\<close>

record Registry =
  rg_detectors :: "(string \<times> nat) \<rightharpoonup> Detector"
  rg_namedInputDetectors :: "(string \<times> nat) \<rightharpoonup> namedInputDetector"

datatype RegistryError = InvalidDetectorKey | DuplicateDetector "string \<times> nat" | RegistryEmpty

fun registerAll :: "(string \<times> nat \<rightharpoonup> Detector) \<Rightarrow> ((string \<times> nat) \<times> Detector) list \<Rightarrow> RegistryError + (string \<times> nat \<rightharpoonup> Detector)" where
  "registerAll registered [] = Inr registered"
| "registerAll registered ((key, detector) # rest) =
     (if fst key = [] \<or> snd key = 0 then Inl InvalidDetectorKey
      else if registered key \<noteq> None then Inl (DuplicateDetector key)
      else registerAll (registered(key \<mapsto> detector)) rest)"

definition NewRegistry :: "((string \<times> nat) \<times> Detector) list \<Rightarrow> RegistryError + Registry" where
  "NewRegistry detectors =
     (case registerAll Map.empty detectors of
        Inl e \<Rightarrow> Inl e
      | Inr registered \<Rightarrow>
          (if detectors = [] then Inl RegistryEmpty
           else Inr \<lparr>rg_detectors = registered, rg_namedInputDetectors = Map.empty\<rparr>))"

record DetectLevel =
  dl_Definition :: LevelDefinitionV2
  dl_DetectFingerprint :: string
  dl_Connector :: string
  dl_Detectors :: "DetectorSpec list"
  dl_Algorithms :: "CompiledAlgorithmPlan list"

record DetectPlan =
  dpl_StrategyID :: string
  dpl_EvaluationScope :: string
  dpl_Levels :: "DetectLevel list"
  dpl_Normalizer :: "string \<rightharpoonup> NumericNormalizerSpec"

datatype PrepareError =
    NotSeries | LevelsNotOrdered | DetectorUnavailable | NormalizerUnavailable | ThresholdUnavailable
  | NamedDetectorUnavailable | DetectorsAndAlgorithmsDiffer

fun levelsOrdered :: "DetectLevel list \<Rightarrow> bool" where
  "levelsOrdered (a # b # rest) \<longleftrightarrow>
     ld_LevelID (dl_Definition a) < ld_LevelID (dl_Definition b) \<and> levelsOrdered (b # rest)"
| "levelsOrdered _ \<longleftrightarrow> True"

fun bindDetectors :: "Registry \<Rightarrow> DetectPlan \<Rightarrow> DetectorSpec list \<Rightarrow> PrepareError + boundDetector list" where
  "bindDetectors registry plan [] = Inr []"
| "bindDetectors registry plan (spec # specs) =
     (case rg_detectors registry (dsp_Kind spec, dsp_Version spec) of
        None \<Rightarrow> Inl DetectorUnavailable
      | Some detector \<Rightarrow>
          (case dpl_Normalizer plan (dsp_NormalizerRef spec) of
             None \<Rightarrow> Inl NormalizerUnavailable
           | Some normalizer \<Rightarrow>
               (case bindDetectors registry plan specs of
                  Inl e \<Rightarrow> Inl e
                | Inr rest \<Rightarrow> Inr (\<lparr>bd_spec = spec, bd_detector = detector, bd_normalizer = normalizer\<rparr> # rest))))"

text \<open>
  The Threshold algorithms of a Level take its detectors in order; an algorithm that has a standard
  detector has no other, and \<open>unboundNamed\<close> stands for the nil of its interface.
\<close>

definition unboundNamed :: namedInputDetector where
  "unboundNamed algorithm input view = noNamedResult"

fun bindAlgorithms ::
  "Registry \<Rightarrow> boundDetector list \<Rightarrow> CompiledAlgorithmPlan list \<Rightarrow> PrepareError + boundAlgorithm list \<times> nat \<times> boundDetector list" where
  "bindAlgorithms registry detectors [] = Inr ([], 0, detectors)"
| "bindAlgorithms registry detectors (algorithm # algorithms) =
     (if ap_Kind algorithm = DetectorKindThreshold
      then (case detectors of
              [] \<Rightarrow> Inl ThresholdUnavailable
            | detector # rest \<Rightarrow>
                (case bindAlgorithms registry rest algorithms of
                   Inl e \<Rightarrow> Inl e
                 | Inr (bound, named, left) \<Rightarrow>
                     Inr (\<lparr>ba_compiled = algorithm, ba_standard = Some detector, ba_named = unboundNamed\<rparr> # bound, named, left)))
      else (case rg_namedInputDetectors registry (ap_Kind algorithm, ap_Version algorithm) of
              None \<Rightarrow> Inl NamedDetectorUnavailable
            | Some detector \<Rightarrow>
                (case bindAlgorithms registry detectors algorithms of
                   Inl e \<Rightarrow> Inl e
                 | Inr (bound, named, left) \<Rightarrow>
                     Inr (\<lparr>ba_compiled = algorithm, ba_standard = None, ba_named = detector\<rparr> # bound, named + 1, left))))"

definition bindLevel :: "Registry \<Rightarrow> DetectPlan \<Rightarrow> DetectLevel \<Rightarrow> PrepareError + boundLevel \<times> nat" where
  "bindLevel registry plan level =
     (case bindDetectors registry plan (dl_Detectors level) of
        Inl e \<Rightarrow> Inl e
      | Inr detectors \<Rightarrow>
          (case bindAlgorithms registry detectors (dl_Algorithms level) of
             Inl e \<Rightarrow> Inl e
           | Inr (algorithms, named, left) \<Rightarrow>
               (if left \<noteq> [] then Inl DetectorsAndAlgorithmsDiffer
                else Inr (\<lparr>bl_Definition = dl_Definition level, bl_DetectFingerprint = dl_DetectFingerprint level,
                           bl_Connector = dl_Connector level, bl_detectors = detectors, bl_algorithms = algorithms\<rparr>, named))))"

fun bindLevels :: "Registry \<Rightarrow> DetectPlan \<Rightarrow> DetectLevel list \<Rightarrow> PrepareError + boundLevel list \<times> nat" where
  "bindLevels registry plan [] = Inr ([], 0)"
| "bindLevels registry plan (level # levels) =
     (case bindLevel registry plan level of
        Inl e \<Rightarrow> Inl e
      | Inr (bound, named) \<Rightarrow>
          (case bindLevels registry plan levels of
             Inl e \<Rightarrow> Inl e
           | Inr (rest, others) \<Rightarrow> Inr (bound # rest, named + others)))"

definition PreparePlan :: "Registry \<Rightarrow> DetectPlan \<Rightarrow> PrepareError + boundPlan" where
  "PreparePlan registry plan =
     (if dpl_EvaluationScope plan \<noteq> ''SERIES'' then Inl NotSeries
      else if \<not> levelsOrdered (dpl_Levels plan) then Inl LevelsNotOrdered
      else case bindLevels registry plan (dpl_Levels plan) of
        Inl e \<Rightarrow> Inl e
      | Inr (levels, named) \<Rightarrow>
          Inr \<lparr>bp_StrategyID = dpl_StrategyID plan, bp_levels = levels, bp_namedInputCount = named\<rparr>)"

end
