(* ===== verification/Detect_Props.thy ===== *)
theory Detect_Props
  imports Detect Threshold_Props
begin

text \<open>
  Properties of detection: the connector is three-valued logic, a Level's fact is what its
  algorithms say one by one whatever is cached between them, and a Level of Threshold algorithms
  always gets one.  The interface \<open>fact_source\<close> states what a Level relies on of a detector.
\<close>

section \<open>The connector is three-valued logic\<close>

text \<open>The answers that are possible once the unknown ones are known.\<close>

definition completes :: "algorithmTruth list \<Rightarrow> bool list \<Rightarrow> bool" where
  "completes truths answers \<longleftrightarrow> list_all2 (\<lambda>t b. (t = TruthTrue \<longrightarrow> b) \<and> (t = TruthFalse \<longrightarrow> \<not> b)) truths answers"

definition joined :: "string \<Rightarrow> bool list \<Rightarrow> bool" where
  "joined connector answers \<longleftrightarrow> (if connector = LevelConnectorAND then list_all id answers else list_ex id answers)"

lemma combineAnd_eq:
  "combineAnd unknown truths =
     (if TruthFalse \<in> set truths then (False, True)
      else (\<not> (unknown \<or> TruthUnknown \<in> set truths), \<not> (unknown \<or> TruthUnknown \<in> set truths)))"
  by (induction truths arbitrary: unknown) auto

lemma combineOr_eq:
  "combineOr unknown truths =
     (if TruthTrue \<in> set truths then (True, True) else (False, \<not> (unknown \<or> TruthUnknown \<in> set truths)))"
  by (induction truths arbitrary: unknown) auto

lemma completes_with:
  "completes truths (map (\<lambda>t. t = TruthTrue \<or> t = TruthUnknown \<and> b) truths)"
  by (induction truths) (auto simp: completes_def)

lemma completes_fixed:
  assumes "completes truths answers"
  shows "TruthTrue \<in> set truths \<Longrightarrow> True \<in> set answers" "TruthFalse \<in> set truths \<Longrightarrow> False \<in> set answers"
    and "TruthUnknown \<notin> set truths \<Longrightarrow> answers = map (\<lambda>t. t = TruthTrue) truths"
  using assms unfolding completes_def
  by (induction truths answers rule: list_all2_induct) (auto intro: algorithmTruth.exhaust)

lemma combine_determined:
  assumes "combineAlgorithmTruth connector truths = (m, True)" "completes truths answers"
  shows "joined connector answers = m"
  using assms(1) completes_fixed [OF assms(2)]
proof (cases "TruthUnknown \<in> set truths")
  case False
  have "TruthFalse \<notin> set truths \<Longrightarrow> t \<in> set truths \<Longrightarrow> t = TruthTrue" for t using False by (cases t) auto
  then show ?thesis using assms(1) completes_fixed [OF assms(2)] False
    by (auto simp: combineAlgorithmTruth_def combineAnd_eq combineOr_eq joined_def list_all_iff list_ex_iff split: if_splits)
qed (auto simp: combineAlgorithmTruth_def combineAnd_eq combineOr_eq joined_def list_all_iff list_ex_iff split: if_splits)

lemma combine_undetermined:
  assumes "combineAlgorithmTruth connector truths = (m, False)"
  shows "joined connector (map (\<lambda>t. t = TruthTrue \<or> t = TruthUnknown \<and> b) truths) = b"
  using assms
  by (auto simp: combineAlgorithmTruth_def combineAnd_eq combineOr_eq joined_def list_all_iff list_ex_iff split: if_splits
      intro: algorithmTruth.exhaust) (metis algorithmTruth.exhaust)

lemma combine_spec:
  "snd (combineAlgorithmTruth connector truths) = (\<exists>v. \<forall>answers. completes truths answers \<longrightarrow> joined connector answers = v)
   \<and> (snd (combineAlgorithmTruth connector truths) \<longrightarrow>
      (\<forall>answers. completes truths answers \<longrightarrow> joined connector answers = fst (combineAlgorithmTruth connector truths)))"
proof (cases "combineAlgorithmTruth connector truths")
  case (Pair m d)
  show ?thesis
  proof (cases d)
    case True
    then show ?thesis using combine_determined [of connector truths m] Pair by auto
  next
    case False
    then have "\<not> (\<forall>answers. completes truths answers \<longrightarrow> joined connector answers = v)" for v
      using combine_undetermined [of connector truths m "\<not> v"] completes_with [of truths "\<not> v"] Pair by auto
    with False Pair show ?thesis by simp
  qed
qed

text \<open>
  C12: The connector of a Level says something exactly when it does not depend on the algorithms
  that could not answer: it is determined if and only if every way their answers could have come
  out gives the same, and then it is that.
\<close>

theorem connector_is_three_valued_logic:
  "snd (combineAlgorithmTruth connector truths) = (\<exists>v. \<forall>answers. completes truths answers \<longrightarrow> joined connector answers = v)
   \<and> (snd (combineAlgorithmTruth connector truths) \<longrightarrow>
      (\<forall>answers. completes truths answers \<longrightarrow> joined connector answers = fst (combineAlgorithmTruth connector truths)))"
  by (rule combine_spec)

section \<open>What one algorithm says\<close>

text \<open>An algorithm asked alone, with nothing cached before it.\<close>

definition algorithmResult ::
  "SeriesEvaluationInputRequest \<Rightarrow> RecordView \<Rightarrow> boundAlgorithm \<Rightarrow> DetectError + namedAlgorithmResult" where
  "algorithmResult input view algorithm =
     (case ba_standard algorithm of
        Some bound \<Rightarrow> (case runStandard (rv_Values view) bound (startNamed []) of Inl e \<Rightarrow> Inl e | Inr (result, _) \<Rightarrow> Inr result)
      | None \<Rightarrow> Inr (ba_named algorithm (ba_compiled algorithm) input view))"

fun truthOf :: "namedAlgorithmResult \<Rightarrow> algorithmTruth" where
  "truthOf result =
     (case na_result result of DetectionAnomalous \<Rightarrow> TruthTrue | DetectionNormal \<Rightarrow> TruthFalse | _ \<Rightarrow> TruthUnknown)"

definition projectionKeyOf :: "boundDetector \<Rightarrow> string \<times> string" where
  "projectionKeyOf bound = (dsp_ValueRef (bd_spec bound), dsp_NormalizerRef (bd_spec bound))"

text \<open>One reference, one normalizer: what \<open>PreparePlan\<close> sees to.\<close>

definition normalizers_agree :: "boundDetector list \<Rightarrow> bool" where
  "normalizers_agree bounds \<longleftrightarrow>
     (\<forall>a \<in> set bounds. \<forall>b \<in> set bounds. dsp_NormalizerRef (bd_spec a) = dsp_NormalizerRef (bd_spec b) \<longrightarrow> bd_normalizer a = bd_normalizer b)"

definition standards :: "boundAlgorithm list \<Rightarrow> boundDetector list" where
  "standards algorithms = List.map_filter ba_standard algorithms"

definition entries_ok :: "(string \<rightharpoonup> string) \<Rightarrow> boundDetector list \<Rightarrow> projectionEntry list \<Rightarrow> bool" where
  "entries_ok values bounds entries \<longleftrightarrow>
     (\<forall>e \<in> set entries. \<exists>b \<in> set bounds. e = projectedEntry values b)"

lemma projectedEntry_key [simp]: "pj_key (projectedEntry values b) = projectionKeyOf b"
  by (simp add: projectedEntry_def projectionKeyOf_def Let_def)

lemma projectedEntry_cong:
  "projectionKeyOf a = projectionKeyOf b \<Longrightarrow> bd_normalizer a = bd_normalizer b \<Longrightarrow> projectedEntry values a = projectedEntry values b"
  by (simp add: projectedEntry_def projectionKeyOf_def Let_def)

lemma find_Some_nth:
  assumes "find P [0..<n] = Some i" shows "i < n" "P i"
  using assms by (auto simp: find_Some_iff)

lemma project_cached:
  assumes "normalizers_agree bounds" "bound \<in> set bounds" "entries_ok values bounds entries"
    and "projectRecordValue values bound entries = (ordinal, entry, entries')"
  shows "entry = projectedEntry values bound" "entries_ok values bounds entries'"
proof -
  have "entry = projectedEntry values bound \<and> entries_ok values bounds entries'"
  proof (cases "find (\<lambda>i. pj_key (entries ! i) = (dsp_ValueRef (bd_spec bound), dsp_NormalizerRef (bd_spec bound))) [0..<length entries]")
    case None
    then show ?thesis using assms(2-4) by (auto simp: projectRecordValue_def Let_def entries_ok_def)
  next
    case (Some i)
    note i = find_Some_nth [OF Some]
    then obtain b where b: "b \<in> set bounds" "entries ! i = projectedEntry values b"
      using assms(3) nth_mem [OF i(1)] unfolding entries_ok_def by blast
    have key: "projectionKeyOf b = projectionKeyOf bound" using i(2) b(2) by (simp add: projectionKeyOf_def)
    have "bd_normalizer b = bd_normalizer bound"
      using assms(1,2) b(1) key unfolding normalizers_agree_def projectionKeyOf_def by blast
    then have "entries ! i = projectedEntry values bound" using b(2) projectedEntry_cong [OF key] by simp
    then show ?thesis using assms(3,4) Some by (simp add: projectRecordValue_def Let_def)
  qed
  then show "entry = projectedEntry values bound" "entries_ok values bounds entries'" by simp_all
qed

lemma runStandard_alone:
  assumes "normalizers_agree bounds" "bound \<in> set bounds" "entries_ok values bounds (ms_entries scan)"
    and "runStandard values bound scan = Inr (result, matchedGroup, scan')"
  shows "\<exists>rest. runStandard values bound (startNamed []) = Inr (result, rest)"
    and "entries_ok values bounds (ms_entries scan')"
    and "scan' = scan\<lparr>ms_entries := ms_entries scan', ms_projections := ms_projections scan'\<rparr>"
    and "length (ms_projections scan') = length (ms_projections scan) + 1"
proof -
  obtain ordinal entry entries where p: "projectRecordValue values bound (ms_entries scan) = (ordinal, entry, entries)"
    by (cases "projectRecordValue values bound (ms_entries scan)") auto
  obtain ordinal' entry' entries' where p': "projectRecordValue values bound [] = (ordinal', entry', entries')"
    by (cases "projectRecordValue values bound []") auto
  note cached = project_cached [OF assms(1-3) p]
  have "entries_ok values bounds []" by (simp add: entries_ok_def)
  note fresh = project_cached(1) [OF assms(1,2) this p']
  show "\<exists>rest. runStandard values bound (startNamed []) = Inr (result, rest)"
    using assms(4) by (auto simp: runStandard_def p p' cached(1) fresh startNamed_def Let_def split: if_splits sum.splits)
  show "entries_ok values bounds (ms_entries scan')" "scan' = scan\<lparr>ms_entries := ms_entries scan', ms_projections := ms_projections scan'\<rparr>"
    "length (ms_projections scan') = length (ms_projections scan) + 1"
    using assms(4) cached(2) by (auto simp: runStandard_def p Let_def split: if_splits sum.splits)
qed

section \<open>A Level\<close>

definition usable :: "namedAlgorithmResult \<Rightarrow> bool" where
  "usable result \<longleftrightarrow> na_result result \<in> {DetectionAnomalous, DetectionNormal, DetectionUnavailable, DetectionError}"

lemma recordAlgorithm_Inr:
  assumes "recordAlgorithm connector ordinal position result matchedGroup scan = Inr scan'"
  shows "usable result" "ms_truths scan' = ms_truths scan @ [truthOf result]" "ms_entries scan' = ms_entries scan"
    "ms_projections scan' = ms_projections scan"
    "ms_firstUnavailable scan' =
       (if truthOf result = TruthUnknown \<and> na_result (ms_firstUnavailable scan) = DetectionOther [] then result
        else ms_firstUnavailable scan)"
  using assms
  by (cases "na_result result"; auto simp: recordAlgorithm_def usable_def countTruth_def Let_def split: if_splits prod.splits)+

text \<open>The result a Level takes when it cannot decide: the first of those that are unknown.\<close>

definition firstUnknown :: "namedAlgorithmResult \<Rightarrow> namedAlgorithmResult list \<Rightarrow> namedAlgorithmResult" where
  "firstUnknown current results =
     (if na_result current \<noteq> DetectionOther [] then current
      else case find (\<lambda>r. truthOf r = TruthUnknown) results of Some r \<Rightarrow> r | None \<Rightarrow> current)"

lemma firstUnknown_Cons:
  assumes "usable r"
  shows "firstUnknown (if truthOf r = TruthUnknown \<and> na_result current = DetectionOther [] then r else current) rs
    = firstUnknown current (r # rs)"
  using assms by (auto simp: firstUnknown_def usable_def)

lemma runStandard_result:
  assumes "normalizers_agree bounds" "set (standards [algorithm]) \<subseteq> set bounds" "entries_ok (rv_Values view) bounds (ms_entries scan)"
    and "(case ba_standard algorithm of
            Some bound \<Rightarrow> runStandard (rv_Values view) bound scan
          | None \<Rightarrow> Inr (runNamed input view algorithm scan)) = Inr (result, matchedGroup, scan')"
  shows "algorithmResult input view algorithm = Inr result" "entries_ok (rv_Values view) bounds (ms_entries scan')"
    "ms_truths scan' = ms_truths scan" "ms_firstUnavailable scan' = ms_firstUnavailable scan"
    "length (ms_projections scan') = length (ms_projections scan) + 1"
proof -
  have "algorithmResult input view algorithm = Inr result \<and> entries_ok (rv_Values view) bounds (ms_entries scan')
    \<and> ms_truths scan' = ms_truths scan \<and> ms_firstUnavailable scan' = ms_firstUnavailable scan
    \<and> length (ms_projections scan') = length (ms_projections scan) + 1"
  proof (cases "ba_standard algorithm")
    case None
    then show ?thesis using assms(3,4) by (auto simp: algorithmResult_def runNamed_def Let_def)
  next
    case (Some bound)
    then have "bound \<in> set bounds" using assms(2) by (simp add: standards_def List.map_filter_simps)
    moreover have "runStandard (rv_Values view) bound scan = Inr (result, matchedGroup, scan')" using assms(4) Some by simp
    note alone = runStandard_alone [OF assms(1) _ assms(3) this]
    ultimately obtain rest where "runStandard (rv_Values view) bound (startNamed []) = Inr (result, rest)" using alone(1) by blast
    then have "algorithmResult input view algorithm = Inr result" using Some by (cases rest) (simp add: algorithmResult_def)
    moreover note alone(2,4) [OF \<open>bound \<in> set bounds\<close>]
    moreover have "ms_truths scan' = ms_truths scan \<and> ms_firstUnavailable scan' = ms_firstUnavailable scan"
      by (subst (1 2) alone(3) [OF \<open>bound \<in> set bounds\<close>]) simp
    ultimately show ?thesis by simp
  qed
  then show "algorithmResult input view algorithm = Inr result" "entries_ok (rv_Values view) bounds (ms_entries scan')"
    "ms_truths scan' = ms_truths scan" "ms_firstUnavailable scan' = ms_firstUnavailable scan"
    "length (ms_projections scan') = length (ms_projections scan) + 1" by simp_all
qed

lemma scanAlgorithms_Inr:
  assumes "normalizers_agree bounds"
    and "scanAlgorithms cancelled connector input view ordinal algorithms scan = Inr scan'"
    and "set (standards algorithms) \<subseteq> set bounds" "entries_ok (rv_Values view) bounds (ms_entries scan)"
  shows "\<exists>results. list_all2 (\<lambda>a r. algorithmResult input view a = Inr r \<and> usable r) algorithms results
    \<and> ms_truths scan' = ms_truths scan @ map truthOf results
    \<and> ms_firstUnavailable scan' = firstUnknown (ms_firstUnavailable scan) results
    \<and> length (ms_projections scan') = length (ms_projections scan) + length algorithms"
  using assms(2-4)
proof (induction cancelled connector input view ordinal algorithms scan rule: scanAlgorithms.induct)
  case (1 cancelled connector input view ordinal scan)
  then show ?case by (simp add: firstUnknown_def)
next
  case (2 cancelled connector input view ordinal algorithm rest scan)
  obtain result matchedGroup mid next' where run: "(case ba_standard algorithm of
      Some bound \<Rightarrow> runStandard (rv_Values view) bound scan
    | None \<Rightarrow> Inr (runNamed input view algorithm scan)) = Inr (result, matchedGroup, mid)"
    and rec: "recordAlgorithm connector ordinal (u32 (length (ms_projections scan))) result matchedGroup mid = Inr next'"
    and more: "cancelled \<noteq> Some ordinal" "scanAlgorithms cancelled connector input view (ordinal + 1) rest next' = Inr scan'"
    using "2.prems"(1) by (auto split: if_splits sum.splits)
  have subset: "set (standards [algorithm]) \<subseteq> set bounds" "set (standards rest) \<subseteq> set bounds"
    using "2.prems"(2) by (auto simp: standards_def List.map_filter_simps split: option.splits)
  note here = runStandard_result [OF assms(1) subset(1) "2.prems"(3) run]
  note step = recordAlgorithm_Inr [OF rec]
  have "entries_ok (rv_Values view) bounds (ms_entries next')" using here(2) step(3) by simp
  from "2.IH" [OF more(1) run refl refl rec more(2) subset(2) this] obtain results where
    "list_all2 (\<lambda>a r. algorithmResult input view a = Inr r \<and> usable r) rest results"
    "ms_truths scan' = ms_truths next' @ map truthOf results"
    "ms_firstUnavailable scan' = firstUnknown (ms_firstUnavailable next') results"
    "length (ms_projections scan') = length (ms_projections next') + length rest" by blast
  with here step show ?case
    by (intro exI [of _ "result # results"]) (simp add: firstUnknown_Cons [OF step(1), symmetric] del: truthOf.simps)
qed

lemma bindDetectors_normalizer:
  assumes "bindDetectors registry plan specs = Inr bounds" "b \<in> set bounds"
  shows "dpl_Normalizer plan (dsp_NormalizerRef (bd_spec b)) = Some (bd_normalizer b)"
  using assms by (induction registry plan specs arbitrary: bounds rule: bindDetectors.induct)
    (auto split: option.splits sum.splits)

lemma bindAlgorithms_standards:
  "bindAlgorithms registry detectors algorithms = Inr (bound, named, left) \<Longrightarrow> set (standards bound) \<subseteq> set detectors"
proof (induction registry detectors algorithms arbitrary: bound named left rule: bindAlgorithms.induct)
  case (1 registry detectors)
  then show ?case by (simp add: standards_def List.map_filter_simps)
next
  case (2 registry detectors algorithm algorithms)
  then show ?case
    by (auto simp: standards_def List.map_filter_simps split: if_splits list.splits option.splits sum.splits) (blast+)?
qed

lemma bindLevels_agree:
  "bindLevels registry plan levels = Inr (bound, named) \<Longrightarrow> level \<in> set bound \<Longrightarrow> normalizers_agree (standards (bl_algorithms level))"
proof (induction registry plan levels arbitrary: bound named rule: bindLevels.induct)
  case (2 registry plan first levels)
  show ?case
  proof (cases "bindLevel registry plan first")
    case (Inr found)
    obtain detectors algorithms count left where d: "bindDetectors registry plan (dl_Detectors first) = Inr detectors"
      and a: "bindAlgorithms registry detectors (dl_Algorithms first) = Inr (algorithms, count, left)"
      and f: "bl_algorithms (fst found) = algorithms"
      using Inr by (auto simp: bindLevel_def split: sum.splits if_splits)
    have "normalizers_agree (standards (bl_algorithms (fst found)))"
      unfolding normalizers_agree_def f
      using bindDetectors_normalizer [OF d] bindAlgorithms_standards [OF a] by (metis option.inject subsetD)
    then show ?thesis using "2.IH" [of found "fst found" "snd found"] "2.prems" Inr
      by (cases found) (auto split: sum.splits)
  qed (use "2.prems" in simp)
qed simp

lemma finishNamed_fields:
  "lf_Result (finishNamed level scan) =
     (if snd (combineAlgorithmTruth (bl_Connector level) (ms_truths scan))
      then (if fst (combineAlgorithmTruth (bl_Connector level) (ms_truths scan)) then DetectionAnomalous else DetectionNormal)
      else na_result (ms_firstUnavailable scan))"
  "lf_ReasonCode (finishNamed level scan) =
     (if snd (combineAlgorithmTruth (bl_Connector level) (ms_truths scan)) then [] else na_reasonCode (ms_firstUnavailable scan))"
  by (simp_all add: finishNamed_def emptyFact_def Let_def case_prod_beta)

lemma firstUnknown_first:
  assumes "\<not> snd (combineAlgorithmTruth connector (map truthOf results))"
  shows "\<exists>i < length results. truthOf (results ! i) = TruthUnknown \<and> (\<forall>j < i. truthOf (results ! j) \<noteq> TruthUnknown)
    \<and> firstUnknown noNamedResult results = results ! i"
proof -
  have "TruthUnknown \<in> set (map truthOf results)"
    using assms by (auto simp: combineAlgorithmTruth_def combineAnd_eq combineOr_eq simp del: truthOf.simps split: if_splits)
  then obtain r where "find (\<lambda>r. truthOf r = TruthUnknown) results = Some r"
    by (cases "find (\<lambda>r. truthOf r = TruthUnknown) results") (auto simp: find_None_iff simp del: truthOf.simps)
  moreover from this have "firstUnknown noNamedResult results = r" by (simp add: firstUnknown_def noNamedResult_def)
  ultimately show ?thesis by (auto simp: find_Some_iff simp del: truthOf.simps)
qed


section \<open>What a Level relies on of a detector\<close>

lemma projectedEntry_wf:
  assumes "0 < ns_sourceMultiplier (bd_normalizer bound)" "dp_Available (pj_view (projectedEntry values bound))"
  shows "wf_number (pj_value (projectedEntry values bound))"
proof -
  obtain raw where raw: "resultAvailable (Normalize (bd_normalizer bound) raw)"
      "pj_value (projectedEntry values bound) = nr_value (Normalize (bd_normalizer bound) raw)"
    using assms(2) by (auto simp: projectedEntry_def Let_def)
  have "\<not> resultAvailable r" if "nr_reasonCode r = ReasonRequiredValueNormalizationFailed" for r :: NormalizeResult
    using that by (simp add: resultAvailable_def ReasonRequiredValueNormalizationFailed_def)
  with Normalize_decimal [OF assms(1), of raw] raw show ?thesis by (auto split: option.splits if_splits)
qed

text \<open>A detector that answers every specification it accepts with a fact the Level takes.\<close>

locale fact_source =
  fixes detector :: Detector and accepts :: "DetectorSpec \<Rightarrow> bool"
  assumes answers: "accepts spec \<Longrightarrow> wf_number v \<Longrightarrow>
    \<exists>f. detector spec v = DetectorReturns (Inr f) \<and> \<not> invalidFact DetectorKindThreshold f"
begin

definition bound_here :: "boundDetector list \<Rightarrow> boundAlgorithm \<Rightarrow> bool" where
  "bound_here bounds algorithm \<longleftrightarrow>
     (\<exists>bound. ba_standard algorithm = Some bound \<and> bound \<in> set bounds \<and> bd_detector bound = detector \<and> accepts (bd_spec bound)
        \<and> 0 < ns_sourceMultiplier (bd_normalizer bound))"

lemma standard_answers:
  assumes "normalizers_agree bounds" "bound \<in> set bounds" "entries_ok values bounds (ms_entries scan)"
    and "bd_detector bound = detector" "accepts (bd_spec bound)" "0 < ns_sourceMultiplier (bd_normalizer bound)"
  shows "\<exists>result matchedGroup scan'. runStandard values bound scan = Inr (result, matchedGroup, scan')
    \<and> na_result result \<in> {DetectionAnomalous, DetectionNormal, DetectionUnavailable}"
proof -
  obtain ordinal entry entries where p: "projectRecordValue values bound (ms_entries scan) = (ordinal, entry, entries)"
    by (cases "projectRecordValue values bound (ms_entries scan)") auto
  note entry = project_cached(1) [OF assms(1-3) p]
  show ?thesis
  proof (cases "dp_Available (pj_view entry)")
    case True
    then have "wf_number (pj_value entry)" using projectedEntry_wf [OF assms(6)] by (simp add: entry)
    then obtain f where "callDetector bound (pj_value entry) = Inr f" "\<not> invalidFact DetectorKindThreshold f"
      using answers [OF assms(5)] by (force simp: callDetector_def assms(4))
    then show ?thesis using True by (simp add: runStandard_def p Let_def)
  qed (simp add: runStandard_def p Let_def namedUnavailable_def)
qed

lemma level_answers:
  assumes "normalizers_agree bounds" "list_all (bound_here bounds) algorithms" "entries_ok (rv_Values view) bounds (ms_entries scan)"
    and "na_result (ms_firstUnavailable scan) \<in> {DetectionOther [], DetectionUnavailable}"
  shows "\<exists>scan'. scanAlgorithms None connector input view ordinal algorithms scan = Inr scan'
    \<and> na_result (ms_firstUnavailable scan') \<in> {DetectionOther [], DetectionUnavailable}"
  using assms(2-4)
proof (induction algorithms arbitrary: ordinal scan)
  case (Cons algorithm rest)
  obtain bound where bound: "ba_standard algorithm = Some bound" "bound \<in> set bounds" "bd_detector bound = detector"
      "accepts (bd_spec bound)" "0 < ns_sourceMultiplier (bd_normalizer bound)"
    using Cons.prems(1) by (auto simp: bound_here_def)
  obtain result matchedGroup mid where run: "runStandard (rv_Values view) bound scan = Inr (result, matchedGroup, mid)"
      and result: "na_result result \<in> {DetectionAnomalous, DetectionNormal, DetectionUnavailable}"
    using standard_answers [OF assms(1) bound(2) Cons.prems(2) bound(3-5)] by blast
  note alone = runStandard_alone [OF assms(1) bound(2) Cons.prems(2) run]
  obtain next' where rec: "recordAlgorithm connector ordinal (u32 (length (ms_projections scan))) result matchedGroup mid = Inr next'"
    using result by (auto simp: recordAlgorithm_def Let_def case_prod_beta)
  note step = recordAlgorithm_Inr [OF rec]
  have "ms_firstUnavailable mid = ms_firstUnavailable scan" by (subst alone(3)) simp
  then have "na_result (ms_firstUnavailable next') \<in> {DetectionOther [], DetectionUnavailable}"
    using step(5) Cons.prems(3) result by auto
  moreover have "entries_ok (rv_Values view) bounds (ms_entries next')" using alone(2) step(3) by simp
  ultimately obtain scan' where "scanAlgorithms None connector input view (ordinal + 1) rest next' = Inr scan'"
      "na_result (ms_firstUnavailable scan') \<in> {DetectionOther [], DetectionUnavailable}"
    using Cons.IH [of next' "ordinal + 1"] Cons.prems(1) by auto
  then show ?case by (simp add: bound(1) run rec)
qed simp

end

text \<open>A detector specification with a predicate the compiler made.\<close>

definition thresholdSpec :: "DetectorSpec \<Rightarrow> bool" where
  "thresholdSpec spec \<longleftrightarrow>
     pd_validated (dsp_Predicate spec) \<and> length (pd_digest (dsp_Predicate spec)) = 64
     \<and> (\<exists>budget multiplier groups. compilePredicate budget multiplier groups = Inr (pd_root (dsp_Predicate spec)))"

interpretation threshold: fact_source "thresholdDetector False" thresholdSpec
proof
  fix spec v
  assume spec: "thresholdSpec spec" and v: "wf_number v"
  then obtain budget multiplier groups where compiled: "compilePredicate budget multiplier groups = Inr (pd_root (dsp_Predicate spec))"
    by (auto simp: thresholdSpec_def)
  have whole: "dsp_Predicate spec = \<lparr>pd_root = pd_root (dsp_Predicate spec), pd_digest = pd_digest (dsp_Predicate spec), pd_validated = True\<rparr>"
    using spec by (simp add: thresholdSpec_def)
  have "length (pd_digest (dsp_Predicate spec)) = 64" using spec by (simp add: thresholdSpec_def)
  note compiled_evaluates [OF compiled this v, folded whole]
  then show "\<exists>f. thresholdDetector False spec v = DetectorReturns (Inr f) \<and> \<not> invalidFact DetectorKindThreshold f"
    using \<open>length (pd_digest (dsp_Predicate spec)) = 64\<close>
    by (auto simp: thresholdDetector_def invalidFact_def split: option.splits)
qed

text \<open>
  C15: A Level of Threshold algorithms with compiled predicates always gets a fact, whatever the
  record holds: no missing, malformed or oversized value makes detection fail, it makes the fact
  unavailable at most, and never an error.
\<close>

theorem threshold_level_always_answers:
  assumes "PreparePlan registry plan = Inr bound" "level \<in> set (bp_levels bound)"
    and "\<forall>a \<in> set (bl_algorithms level). \<exists>b. ba_standard a = Some b \<and> bd_detector b = thresholdDetector False
      \<and> thresholdSpec (bd_spec b) \<and> 0 < ns_sourceMultiplier (bd_normalizer b)"
  shows "\<exists>found evaluations projections'.
    evaluateNamedInputLevel None input view level projections = Inr (found, evaluations, projections')
    \<and> lf_Result found \<in> {DetectionAnomalous, DetectionNormal, DetectionUnavailable}"
proof -
  have agree: "normalizers_agree (standards (bl_algorithms level))"
    using assms(1,2) bindLevels_agree by (auto simp: PreparePlan_def split: if_splits sum.splits)
  have "list_all (threshold.bound_here (standards (bl_algorithms level))) (bl_algorithms level)"
    using assms(3) by (force simp: list_all_iff threshold.bound_here_def standards_def List.map_filter_def)
  then obtain scan where scan: "scanAlgorithms None (bl_Connector level) input view 0 (bl_algorithms level) (startNamed projections) = Inr scan"
      "na_result (ms_firstUnavailable scan) \<in> {DetectionOther [], DetectionUnavailable}"
    using threshold.level_answers [OF agree, where scan = "startNamed projections"]
    by (force simp: entries_ok_def startNamed_def noNamedResult_def)
  have "entries_ok (rv_Values view) (standards (bl_algorithms level)) (ms_entries (startNamed projections))"
    by (simp add: entries_ok_def startNamed_def)
  from scanAlgorithms_Inr [OF agree scan(1) order_refl this] obtain results where
    truths: "ms_truths scan = map truthOf results" and first: "ms_firstUnavailable scan = firstUnknown noNamedResult results"
    and usable: "list_all2 (\<lambda>a r. algorithmResult input view a = Inr r \<and> usable r) (bl_algorithms level) results"
    by (auto simp: startNamed_def)
  have "na_result (ms_firstUnavailable scan) = DetectionUnavailable"
    if undetermined: "\<not> snd (combineAlgorithmTruth (bl_Connector level) (ms_truths scan))"
  proof -
    obtain i where "i < length results" "ms_firstUnavailable scan = results ! i"
      using firstUnknown_first [OF undetermined [unfolded truths]] first by auto
    then have "usable (ms_firstUnavailable scan)" using usable by (auto simp: list_all2_conv_all_nth)
    with scan(2) show ?thesis by (auto simp: usable_def)
  qed
  then have "lf_Result (finishNamed level scan) \<in> {DetectionAnomalous, DetectionNormal, DetectionUnavailable}"
    by (simp add: finishNamed_fields)
  then show ?thesis using scan(1) by (simp add: evaluateNamedInputLevel_def)
qed

section \<open>An example\<close>

text \<open>
  A Level of two algorithms, one Threshold and one that has no answer yet, and a Level of named
  algorithms with fixed answers.
\<close>

definition exampleSpec :: DetectorSpec where
  "exampleSpec = \<lparr>dsp_Kind = DetectorKindThreshold, dsp_Version = 1, dsp_ValueRef = ''value'', dsp_NormalizerRef = ''d'',
     dsp_Predicate = \<lparr>pd_root = exampleRoot, pd_digest = replicate 64 CHR ''a'', pd_validated = True\<rparr>,
     dsp_DeclaredExecutorErrors = []\<rparr>"

definition exampleAlgorithm :: "string \<Rightarrow> CompiledAlgorithmPlan" where
  "exampleAlgorithm kind = \<lparr>ap_Kind = kind, ap_Version = 1, ap_ValueField = ''value'', ap_NormalizedConfigDigest = ''c'',
     ap_InputRequirements = []\<rparr>"

definition exampleLevel :: "string \<Rightarrow> string \<Rightarrow> DetectorSpec list \<Rightarrow> string list \<Rightarrow> DetectLevel" where
  "exampleLevel code connector specs kinds = \<lparr>dl_Definition = \<lparr>ld_LevelID = 1, ld_LevelCode = code, ld_Priority = 1\<rparr>,
     dl_DetectFingerprint = ''f'', dl_Connector = connector, dl_Detectors = specs, dl_Algorithms = map exampleAlgorithm kinds\<rparr>"

definition examplePlan :: "DetectLevel \<Rightarrow> DetectPlan" where
  "examplePlan level = \<lparr>dpl_StrategyID = ''1'', dpl_EvaluationScope = ''SERIES'', dpl_Levels = [level],
     dpl_Normalizer = [''d'' \<mapsto> plainNormalizer]\<rparr>"

definition exampleNamed :: "namedAlgorithmResult \<Rightarrow> namedInputDetector" where
  "exampleNamed result algorithm input view = result"

definition exampleRegistry :: Registry where
  "exampleRegistry = \<lparr>rg_detectors = [(DetectorKindThreshold, 1) \<mapsto> thresholdDetector False],
     rg_namedInputDetectors =
       [(''Timeout'', 1) \<mapsto> exampleNamed (namedUnavailable ''QUERY_TIMEOUT''),
        (''Unavailable'', 1) \<mapsto> exampleNamed (namedUnavailable ''QUERY_UNAVAILABLE''),
        (''Yes'', 1) \<mapsto> exampleNamed (namedResult (Some True) ''7.000000'' ''yes'' False),
        (''No'', 1) \<mapsto> exampleNamed (namedResult (Some False) ''1.000000'' ''no'' False)]\<rparr>"

definition exampleRecord :: RecordView where
  "exampleRecord = \<lparr>rv_RecordID = ''r'', rv_SourceTime = 60, rv_DimensionIdentityDigest = ''s'', rv_Values = [''value'' \<mapsto> ''2'']\<rparr>"

definition exampleInput :: SeriesEvaluationInputRequest where
  "exampleInput = \<lparr>si_Consumer = \<lparr>cr_Plan = \<lparr>pi_TenantID = ''t'', pi_BusinessID = ''b'', pi_StrategyID = ''1''\<rparr>, cr_LevelID = 1,
     cr_HasLevel = True\<rparr>, si_SeriesIdentity = ''s'', si_RequirementIDs = [], si_Inputs = []\<rparr>"

definition exampleBound :: "string \<Rightarrow> DetectorSpec list \<Rightarrow> string list \<Rightarrow> boundPlan" where
  "exampleBound connector specs kinds =
     (case PreparePlan exampleRegistry (examplePlan (exampleLevel ''L'' connector specs kinds)) of
        Inr bound \<Rightarrow> bound | Inl _ \<Rightarrow> \<lparr>bp_StrategyID = [], bp_levels = [], bp_namedInputCount = 0\<rparr>)"

text \<open>
  The evidence of an anomalous Level joined by OR is taken from the last algorithm, matched or not:
  here the first algorithm matches with \<open>7\<close> and the fact carries the digest of the second, which
  did not match, and no matched algorithm at all.
\<close>

theorem or_evidence_of_unmatched_algorithm:
  "map_sum id (\<lambda>(facts, _). map (\<lambda>f. (lf_Result f, te_PredicateDigest (lf_Evidence f), te_HasMatchedAlgorithm (lf_Evidence f),
       te_ProjectedValueOrdinal (lf_Evidence f))) facts)
     (EvaluatePreparedSeriesRecord (\<lambda>_. None) (Some (exampleBound ''OR'' [] [''Yes'', ''No''])) [exampleInput] exampleRecord)
   = Inr [(DetectionAnomalous, ''no'', False, 1)]"
  by code_simp

text \<open>
  The reason of a Level that cannot decide is the first in algorithm order, not the fold of the
  reasons the gap marker carries: two orders of the same two failures give two reasons.
\<close>

theorem undecided_reason_depends_on_order:
  "map_sum id (map lf_ReasonCode \<circ> fst)
     (EvaluatePreparedSeriesRecord (\<lambda>_. None) (Some (exampleBound ''AND'' [] [''Timeout'', ''Unavailable''])) [exampleInput] exampleRecord)
   = Inr [''QUERY_TIMEOUT'']
   \<and> map_sum id (map lf_ReasonCode \<circ> fst)
     (EvaluatePreparedSeriesRecord (\<lambda>_. None) (Some (exampleBound ''AND'' [] [''Unavailable'', ''Timeout''])) [exampleInput] exampleRecord)
   = Inr [''QUERY_UNAVAILABLE'']
   \<and> FoldGapReason [''QUERY_TIMEOUT'', ''QUERY_UNAVAILABLE''] = ''QUERY_UNAVAILABLE''"
  by code_simp

theorem connector_is_three_valued_logic_witness:
  "snd (combineAlgorithmTruth ''OR'' [TruthUnknown, TruthTrue])
   \<and> joined ''OR'' [False, True] = fst (combineAlgorithmTruth ''OR'' [TruthUnknown, TruthTrue])"
proof -
  have "snd (combineAlgorithmTruth ''OR'' [TruthUnknown, TruthTrue])" by code_simp
  moreover have "completes [TruthUnknown, TruthTrue] [False, True]" by (simp add: completes_def)
  ultimately show ?thesis using connector_is_three_valued_logic [of "''OR''" "[TruthUnknown, TruthTrue]"] by blast
qed

lemma exampleBound_prepared:
  assumes "\<not> isl (PreparePlan exampleRegistry (examplePlan (exampleLevel ''L'' connector specs kinds)))"
  shows "PreparePlan exampleRegistry (examplePlan (exampleLevel ''L'' connector specs kinds)) = Inr (exampleBound connector specs kinds)"
  using assms by (cases "PreparePlan exampleRegistry (examplePlan (exampleLevel ''L'' connector specs kinds))") (simp_all add: exampleBound_def)


theorem threshold_level_always_answers_witness:
  "\<exists>found evaluations projections.
     evaluateNamedInputLevel None exampleInput (exampleRecord\<lparr>rv_Values := Map.empty\<rparr>)
       (hd (bp_levels (exampleBound ''AND'' [exampleSpec] [''Threshold'']))) [] = Inr (found, evaluations, projections)
     \<and> lf_Result found \<in> {DetectionAnomalous, DetectionNormal, DetectionUnavailable}"
proof (rule threshold_level_always_answers)
  let ?bound = "exampleBound ''AND'' [exampleSpec] [''Threshold'']"
  show "PreparePlan exampleRegistry (examplePlan (exampleLevel ''L'' ''AND'' [exampleSpec] [''Threshold''])) = Inr ?bound"
    by (rule exampleBound_prepared) code_simp
  have levels: "bp_levels ?bound = [\<lparr>bl_Definition = \<lparr>ld_LevelID = 1, ld_LevelCode = ''L'', ld_Priority = 1\<rparr>,
      bl_DetectFingerprint = ''f'', bl_Connector = ''AND'',
      bl_detectors = [\<lparr>bd_spec = exampleSpec, bd_detector = thresholdDetector False, bd_normalizer = plainNormalizer\<rparr>],
      bl_algorithms = [\<lparr>ba_compiled = exampleAlgorithm ''Threshold'',
        ba_standard = Some \<lparr>bd_spec = exampleSpec, bd_detector = thresholdDetector False, bd_normalizer = plainNormalizer\<rparr>,
        ba_named = unboundNamed\<rparr>]\<rparr>]"
    by (simp add: exampleBound_def PreparePlan_def examplePlan_def exampleLevel_def bindLevel_def exampleRegistry_def exampleSpec_def
        exampleAlgorithm_def DetectorKindThreshold_def)
  then show "hd (bp_levels ?bound) \<in> set (bp_levels ?bound)" by simp
  have "thresholdSpec exampleSpec"
    using exampleRoot_compiled by (auto simp: thresholdSpec_def exampleSpec_def)
  then show "\<forall>a \<in> set (bl_algorithms (hd (bp_levels ?bound))). \<exists>b. ba_standard a = Some b \<and> bd_detector b = thresholdDetector False
      \<and> thresholdSpec (bd_spec b) \<and> 0 < ns_sourceMultiplier (bd_normalizer b)"
    by (simp add: levels plainNormalizer_def)
qed

end
