(* ===== verification/Trigger_Correct.thy ===== *)
theory Trigger_Correct
  imports Trigger
begin

text \<open>
  Correctness of the trigger: the decision table of a Level, what a RECOVERY rests on, the counts and
  the gates of a record.  What the evaluator relies on of a history is the locale \<open>history_view\<close>.
\<close>

section \<open>Windows\<close>

lemma multiplyUint32ToInt64_Some:
  assumes "l \<le> maxUint32" "r \<le> maxUint32"
  shows "multiplyUint32ToInt64 l r = (if int (l * r) \<le> maxInt64 then Some (int (l * r)) else None)"
proof -
  have "l * r \<le> maxUint32 * maxUint32" using assms by (rule mult_le_mono)
  then have "u64 (l * r) = l * r" by (simp add: u64_def maxUint32_def)
  then show ?thesis by (auto simp: multiplyUint32ToInt64_def)
qed

lemma multiplyUint32ToInt64_range: "multiplyUint32ToInt64 l r = Some x \<Longrightarrow> 0 \<le> x \<and> x \<le> maxInt64"
  by (auto simp: multiplyUint32ToInt64_def Let_def split: if_splits)

lemma windowStartV2_bounds: "windowStartV2 e w s = Some ws \<Longrightarrow> 0 \<le> ws \<and> ws \<le> e"
  by (auto simp: windowStartV2_def split: option.splits if_splits dest: multiplyUint32ToInt64_range)

text \<open>The window the recovery walk looks at, \<open>offset\<close> steps back from the record.\<close>

definition windowAt :: "TriggerPlan \<Rightarrow> int \<Rightarrow> nat \<Rightarrow> (int \<times> int) option" where
  "windowAt t sourceTime offset =
     (case multiplyUint32ToInt64 offset (tp_StepSeconds t) of
        None \<Rightarrow> None
      | Some shift \<Rightarrow> if shift > sourceTime then None
          else map_option (\<lambda>ws. (ws, sourceTime - shift))
                 (windowStartV2 (sourceTime - shift) (tp_WindowSize t) (tp_StepSeconds t)))"

definition holesIn :: "LevelView \<Rightarrow> TriggerPlan \<Rightarrow> int \<Rightarrow> int \<Rightarrow> nat" where
  "holesIn history t a b = tp_WindowSize t - hvi_CountObserved history a b"

text \<open>
  A window that did not trigger whatever its holes held, and one that did not trigger on what it
  held.
\<close>

definition observedMiss :: "LevelView \<Rightarrow> TriggerPlan \<Rightarrow> int \<Rightarrow> nat \<Rightarrow> bool" where
  "observedMiss history t sourceTime offset \<longleftrightarrow> (\<exists>a b. windowAt t sourceTime offset = Some (a, b)
     \<and> hvi_CountAnomalies history a b < tp_RequiredAnomalies t
     \<and> u32 (hvi_CountAnomalies history a b + holesIn history t a b) < tp_RequiredAnomalies t)"

definition untriggered :: "LevelView \<Rightarrow> TriggerPlan \<Rightarrow> int \<Rightarrow> nat \<Rightarrow> bool" where
  "untriggered history t sourceTime offset \<longleftrightarrow> (\<exists>a b. windowAt t sourceTime offset = Some (a, b)
     \<and> hvi_CountAnomalies history a b < tp_RequiredAnomalies t)"

lemma windowAt_Some:
  assumes "windowAt t sourceTime offset = Some (a, b)"
  shows "\<exists>shift. multiplyUint32ToInt64 offset (tp_StepSeconds t) = Some shift \<and> \<not> sourceTime < shift
    \<and> windowStartV2 b (tp_WindowSize t) (tp_StepSeconds t) = Some a \<and> b = sourceTime - shift"
  using assms by (auto simp: windowAt_def split: option.splits if_splits)

lemma recoveryWalk_step:
  assumes "wt_misses tally < c" "offset < retained" "windowAt t sourceTime offset = Some (a, b)"
    and "hvi_CountAnomalies history a b < tp_RequiredAnomalies t"
  shows "recoveryWalk history t c sourceTime retained offset tally =
    recoveryWalk history t c sourceTime retained (offset + 1)
      (if observedMiss history t sourceTime offset
       then tally\<lparr>wt_oldest := a, wt_misses := wt_misses tally + 1\<rparr>
       else tally\<lparr>wt_oldest := a, wt_skipped := wt_skipped tally + 1\<rparr>)"
proof -
  from windowAt_Some [OF assms(3)] obtain shift where
    sh: "multiplyUint32ToInt64 offset (tp_StepSeconds t) = Some shift" "\<not> sourceTime < shift"
    "windowStartV2 b (tp_WindowSize t) (tp_StepSeconds t) = Some a" "b = sourceTime - shift" by blast
  have miss: "observedMiss history t sourceTime offset \<longleftrightarrow>
      \<not> u32 (hvi_CountAnomalies history a b + holesIn history t a b) \<ge> tp_RequiredAnomalies t"
    using assms(3,4) by (simp add: observedMiss_def not_le)
  have n: "(shift > sourceTime) = False" "(hvi_CountAnomalies history a b \<ge> tp_RequiredAnomalies t) = False"
    using sh(2) assms(4) by auto
  show ?thesis
    unfolding recoveryWalk.simps [of history t c sourceTime retained offset tally] miss holesIn_def
      sh(1) option.case n(1) if_False sh(4) [symmetric] sh(3) Let_def n(2)
    using assms(1,2) by (cases "hvi_CountObserved history a b < tp_WindowSize t") simp_all
qed

lemma recoveryWalk_stop:
  assumes "wt_misses tally < c" "offset < retained" "\<not> untriggered history t sourceTime offset"
    and "recoveryWalk history t c sourceTime retained offset tally = Some tally'"
  shows "wt_misses tally' = wt_misses tally"
  using assms(4,3,1,2) unfolding untriggered_def
  by (subst (asm) recoveryWalk.simps)
    (auto simp: windowAt_def Let_def not_less split: option.splits if_splits)

lemma recoveryWalk_sound:
  assumes "recoveryWalk history t c sourceTime retained offset tally = Some tally'" "wt_misses tally \<le> c"
  shows "\<exists>S. S \<subseteq> {offset..<retained} \<and> wt_misses tally' = wt_misses tally + card S \<and> wt_misses tally' \<le> c
    \<and> (\<forall>k \<in> S. observedMiss history t sourceTime k)
    \<and> (\<forall>k \<in> S. \<forall>j. offset \<le> j \<and> j \<le> k \<longrightarrow> untriggered history t sourceTime j)"
  using assms
proof (induction "retained - offset" arbitrary: offset tally)
  case 0
  then have "tally' = tally" by (simp add: recoveryWalk.simps [of history t c sourceTime retained offset])
  with 0 show ?case by (intro exI [of _ "{}"]) auto
next
  case (Suc n)
  have off: "offset < retained" using Suc.hyps(2) by simp
  consider (enough) "\<not> wt_misses tally < c" | (stop) "wt_misses tally < c" "\<not> untriggered history t sourceTime offset"
    | (go) "wt_misses tally < c" "untriggered history t sourceTime offset" by blast
  then show ?case
  proof cases
    case enough
    then have "tally' = tally" using Suc.prems by (simp add: recoveryWalk.simps [of history t c sourceTime retained offset])
    with Suc.prems show ?thesis by (intro exI [of _ "{}"]) auto
  next
    case stop
    from recoveryWalk_stop [OF stop(1) off stop(2) Suc.prems(1)] Suc.prems show ?thesis
      by (intro exI [of _ "{}"]) auto
  next
    case go
    then obtain a b where w: "windowAt t sourceTime offset = Some (a, b)"
      "hvi_CountAnomalies history a b < tp_RequiredAnomalies t" by (auto simp: untriggered_def)
    let ?miss = "observedMiss history t sourceTime offset"
    let ?tally = "if ?miss then tally\<lparr>wt_oldest := a, wt_misses := wt_misses tally + 1\<rparr>
        else tally\<lparr>wt_oldest := a, wt_skipped := wt_skipped tally + 1\<rparr>"
    have "recoveryWalk history t c sourceTime retained (offset + 1) ?tally = Some tally'"
      using Suc.prems(1) recoveryWalk_step [OF go(1) off w] by simp
    moreover have "n = retained - (offset + 1)" "wt_misses ?tally \<le> c" using Suc.hyps(2) go by auto
    ultimately obtain S where S: "S \<subseteq> {offset + 1..<retained}" "wt_misses tally' = wt_misses ?tally + card S"
      "wt_misses tally' \<le> c" "\<forall>k \<in> S. observedMiss history t sourceTime k"
      "\<forall>k \<in> S. \<forall>j. offset + 1 \<le> j \<and> j \<le> k \<longrightarrow> untriggered history t sourceTime j"
      using Suc.hyps(1) by blast
    have fin: "finite S" "offset \<notin> S" using S(1) finite_subset by auto
    have un: "untriggered history t sourceTime j" if "offset \<le> j" "j \<le> k" "k \<in> insert offset S" for j k
      using that go(2) S(5) by (cases "j = offset") auto
    show ?thesis
    proof (cases ?miss)
      case True
      with S fin have "wt_misses tally' = wt_misses tally + card (insert offset S)" by simp
      moreover have "insert offset S \<subseteq> {offset..<retained}" using S(1) off by auto
      ultimately show ?thesis using True S(3,4) un by (intro exI [of _ "insert offset S"]) blast
    next
      case False
      with S have "wt_misses tally' = wt_misses tally + card S" "S \<subseteq> {offset..<retained}" by auto
      then show ?thesis using S(3,4) un by (intro exI [of _ S]) blast
    qed
  qed
qed


lemma recoveryWalk_total:
  assumes "\<forall>k < retained. multiplyUint32ToInt64 k (tp_StepSeconds t) \<noteq> None"
  shows "\<exists>tally'. recoveryWalk history t c sourceTime retained offset tally = Some tally'"
  using assms
proof (induction history t c sourceTime retained offset tally rule: recoveryWalk.induct)
  case (1 history t c sourceTime retained offset tally)
  show ?case
  proof (cases "wt_misses tally < c \<and> offset < retained \<and> untriggered history t sourceTime offset")
    case False
    then show ?thesis using "1.prems"
      by (subst recoveryWalk.simps) (auto simp: Let_def untriggered_def windowAt_def split: option.splits)
  next
    case True
    then obtain a b where w: "windowAt t sourceTime offset = Some (a, b)"
      "hvi_CountAnomalies history a b < tp_RequiredAnomalies t" by (auto simp: untriggered_def)
    show ?thesis
      by (subst recoveryWalk.simps)
        (use "1.IH" "1.prems" in \<open>auto simp: Let_def split: option.splits\<close>)
  qed
qed

section \<open>Histories\<close>

text \<open>Facts that lie on the steps of the record, and histories that hold at least those facts.\<close>

definition aligned :: "(int \<Rightarrow> bool option) \<Rightarrow> int \<Rightarrow> nat \<Rightarrow> bool" where
  "aligned facts sourceTime step \<longleftrightarrow> (\<forall>\<tau>. facts \<tau> \<noteq> None \<longrightarrow> (sourceTime - \<tau>) mod int step = 0)"

text \<open>A window that has fewer anomalies than required among the given facts.\<close>

definition belowRequired :: "(int \<Rightarrow> bool option) \<Rightarrow> TriggerPlan \<Rightarrow> int \<Rightarrow> nat \<Rightarrow> bool" where
  "belowRequired facts t sourceTime offset \<longleftrightarrow> (\<exists>a b. windowAt t sourceTime offset = Some (a, b)
     \<and> card {\<tau>. a \<le> \<tau> \<and> \<tau> \<le> b \<and> facts \<tau> = Some True} < tp_RequiredAnomalies t)"

lemma card_step_positions:
  assumes "0 < step"
  shows "card {\<tau>. b - (int (w * step) - 1) \<le> \<tau> \<and> \<tau> \<le> b \<and> (b - \<tau>) mod int step = 0 \<and> P \<tau>} \<le> w"
proof -
  let ?f = "\<lambda>k. b - int k * int step"
  have "{\<tau>. b - (int (w * step) - 1) \<le> \<tau> \<and> \<tau> \<le> b \<and> (b - \<tau>) mod int step = 0 \<and> P \<tau>} \<subseteq> ?f ` {..<w}"
  proof
    fix \<tau> assume "\<tau> \<in> {\<tau>. b - (int (w * step) - 1) \<le> \<tau> \<and> \<tau> \<le> b \<and> (b - \<tau>) mod int step = 0 \<and> P \<tau>}"
    then have \<tau>: "b - \<tau> < int w * int step" "0 \<le> b - \<tau>" "(b - \<tau>) mod int step = 0" by auto
    define q where "q = (b - \<tau>) div int step"
    have q: "b - \<tau> = q * int step" using \<tau>(3) by (auto simp: q_def)
    have "0 \<le> q" "q < int w" using \<tau>(1,2) assms unfolding q by (auto simp: zero_le_mult_iff)
    then have "\<tau> = ?f (nat q)" "nat q < w" using q by auto
    then show "\<tau> \<in> ?f ` {..<w}" by blast
  qed
  then have "card {\<tau>. b - (int (w * step) - 1) \<le> \<tau> \<and> \<tau> \<le> b \<and> (b - \<tau>) mod int step = 0 \<and> P \<tau>} \<le> card (?f ` {..<w})"
    by (intro card_mono) auto
  also have "\<dots> \<le> w" using card_image_le [of "{..<w}" ?f] by simp
  finally show ?thesis .
qed

lemma windowStartV2_eq:
  assumes "windowStartV2 e w s = Some a" "w \<le> maxUint32" "s \<le> maxUint32"
  shows "a = e - (int (w * s) - 1) \<and> 0 < w \<and> 0 < s"
  using assms by (auto simp: windowStartV2_def multiplyUint32ToInt64_Some split: if_splits)

lemma aligned_window_card:
  assumes al: "aligned facts sourceTime (tp_StepSeconds t)"
    and w: "windowAt t sourceTime offset = Some (a, b)"
    and u: "tp_WindowSize t \<le> maxUint32" "tp_StepSeconds t \<le> maxUint32" "offset \<le> maxUint32"
  shows "card {\<tau>. a \<le> \<tau> \<and> \<tau> \<le> b \<and> facts \<tau> \<noteq> None} \<le> tp_WindowSize t"
proof -
  from windowAt_Some [OF w] obtain shift where
    sh: "multiplyUint32ToInt64 offset (tp_StepSeconds t) = Some shift"
    "windowStartV2 b (tp_WindowSize t) (tp_StepSeconds t) = Some a" "b = sourceTime - shift" by blast
  from sh(1) u have shift: "shift = int offset * int (tp_StepSeconds t)"
    by (simp add: multiplyUint32ToInt64_Some split: if_splits)
  have a: "a = b - (int (tp_WindowSize t * tp_StepSeconds t) - 1)" "0 < tp_StepSeconds t"
    using windowStartV2_eq [OF sh(2) u(1,2)] by auto
  have "(b - \<tau>) mod int (tp_StepSeconds t) = 0" if "facts \<tau> \<noteq> None" for \<tau>
  proof -
    have "(sourceTime - \<tau>) mod int (tp_StepSeconds t) = 0" using al that by (auto simp: aligned_def)
    then have "int (tp_StepSeconds t) dvd sourceTime - \<tau> - int offset * int (tp_StepSeconds t)"
      by (auto intro: dvd_diff)
    then show ?thesis by (simp add: sh(3) shift algebra_simps)
  qed
  then have "{\<tau>. a \<le> \<tau> \<and> \<tau> \<le> b \<and> facts \<tau> \<noteq> None}
      = {\<tau>. b - (int (tp_WindowSize t * tp_StepSeconds t) - 1) \<le> \<tau> \<and> \<tau> \<le> b
          \<and> (b - \<tau>) mod int (tp_StepSeconds t) = 0 \<and> facts \<tau> \<noteq> None}"
    unfolding a by blast
  then show ?thesis using card_step_positions [OF a(2), of b "tp_WindowSize t"] by simp
qed

text \<open>
  The contract of a history: its readers answer from one function of facts.  \<open>ok\<close> is the provider's
  own well-formedness.
\<close>

locale history_view =
  fixes view :: "'v \<Rightarrow> LevelView" and fct :: "'v \<Rightarrow> int \<Rightarrow> bool option" and ok :: "'v \<Rightarrow> bool"
  assumes CountAnomalies_law:
      "ok v \<Longrightarrow> hvi_CountAnomalies (view v) a b = card {\<tau>. a \<le> \<tau> \<and> \<tau> \<le> b \<and> fct v \<tau> = Some True}"
    and CountObserved_law:
      "ok v \<Longrightarrow> hvi_CountObserved (view v) a b = card {\<tau>. a \<le> \<tau> \<and> \<tau> \<le> b \<and> fct v \<tau> \<noteq> None}"
    and ForEachAnomaly_law:
      "ok v \<Longrightarrow> \<exists>each. hvi_ForEachAnomaly (view v) = Some each \<and> (\<forall>a b. sorted_wrt (<) (each a b)
          \<and> set (each a b) = {\<tau>. a \<le> \<tau> \<and> \<tau> \<le> b \<and> fct v \<tau> = Some True})"
begin

lemma anomalies_le_observed:
  assumes "ok v"
  shows "hvi_CountAnomalies (view v) a b \<le> hvi_CountObserved (view v) a b"
  unfolding CountAnomalies_law [OF assms] CountObserved_law [OF assms]
  by (rule card_mono) (auto intro: finite_subset [of _ "{a..b}"])

lemma each_length:
  assumes "ok v" "hvi_ForEachAnomaly (view v) = Some each"
  shows "length (each a b) = hvi_CountAnomalies (view v) a b"
proof -
  from ForEachAnomaly_law [OF assms(1)] assms(2) have each: "sorted_wrt (<) (each a b)"
    "set (each a b) = {\<tau>. a \<le> \<tau> \<and> \<tau> \<le> b \<and> fct v \<tau> = Some True}" by auto
  then have "distinct (each a b)" by (simp add: strict_sorted_iff)
  from distinct_card [OF this] each(2) show ?thesis unfolding CountAnomalies_law [OF assms(1)] by simp
qed

text \<open>
  A window counted as a recovery miss misses in every completion of the history: whatever the holes
  held on the record's steps, the window has fewer anomalies than required.
\<close>

lemma miss_in_every_completion:
  assumes v: "ok v" and miss: "observedMiss (view v) t sourceTime k"
    and u: "tp_WindowSize t \<le> maxUint32" "tp_StepSeconds t \<le> maxUint32" "k \<le> maxUint32"
    and g: "aligned facts sourceTime (tp_StepSeconds t)" "fct v \<subseteq>\<^sub>m facts"
  shows "belowRequired facts t sourceTime k"
proof -
  from miss obtain a b where w: "windowAt t sourceTime k = Some (a, b)"
    and lt: "u32 (hvi_CountAnomalies (view v) a b + holesIn (view v) t a b) < tp_RequiredAnomalies t"
    by (auto simp: observedMiss_def)
  let ?A = "{\<tau>. a \<le> \<tau> \<and> \<tau> \<le> b \<and> fct v \<tau> = Some True}" and ?O = "{\<tau>. a \<le> \<tau> \<and> \<tau> \<le> b \<and> fct v \<tau> \<noteq> None}"
    and ?G = "{\<tau>. a \<le> \<tau> \<and> \<tau> \<le> b \<and> facts \<tau> \<noteq> None}" and ?B = "{\<tau>. a \<le> \<tau> \<and> \<tau> \<le> b \<and> facts \<tau> = Some True}"
  have fin: "finite ?A" "finite ?O" "finite ?G" by (auto intro: finite_subset [of _ "{a..b}"])
  have sub: "?O \<subseteq> ?G" "?B \<subseteq> ?A \<union> (?G - ?O)" "?A \<subseteq> ?O"
    using g(2) by (auto simp: map_le_def dom_def)
  have G: "card ?G \<le> tp_WindowSize t" using aligned_window_card [OF g(1) w u] .
  have "card ?B \<le> card (?A \<union> (?G - ?O))" using fin sub(2) by (intro card_mono) auto
  also have "\<dots> \<le> card ?A + card (?G - ?O)" by (rule card_Un_le)
  also have "card (?G - ?O) = card ?G - card ?O" using fin sub(1) by (intro card_Diff_subset) auto
  finally have B: "card ?B \<le> card ?A + (card ?G - card ?O)" .
  have "card ?A \<le> card ?O" "card ?O \<le> card ?G" using fin sub by (auto intro: card_mono)
  then have "card ?A + (tp_WindowSize t - card ?O) \<le> maxUint32" using G u(1) by linarith
  then have "u32 (card ?A + (tp_WindowSize t - card ?O)) = card ?A + (tp_WindowSize t - card ?O)"
    by (rule u32_id)
  then have "card ?A + (tp_WindowSize t - card ?O) < tp_RequiredAnomalies t"
    using lt by (simp add: holesIn_def CountAnomalies_law [OF v] CountObserved_law [OF v])
  with B G have "card ?B < tp_RequiredAnomalies t" by linarith
  with w show ?thesis unfolding belowRequired_def by blast
qed

lemma untriggered_belowRequired:
  "ok v \<Longrightarrow> untriggered (view v) t sourceTime k \<longleftrightarrow> belowRequired (fct v) t sourceTime k"
  by (simp add: untriggered_def belowRequired_def CountAnomalies_law)

end

end
