(* ===== verification/Trigger_View.thy ===== *)
theory Trigger_View
  imports Window_Props Trigger_Correct
begin

text \<open>
  The history the evaluator hands to the trigger: a view of the runtime state window behind the
  adapter \<open>historyView\<close> of \<open>evaluation/evaluator.go\<close>.  The window's views meet the contract the
  trigger relies on, so what the trigger concludes holds of the facts the window holds.
\<close>

section \<open>The adapter\<close>

definition completenessOf :: "HistoryCompleteness \<Rightarrow> Completeness" where
  "completenessOf c = (case c of HistoryFull \<Rightarrow> CompleteFull | HistoryWarming \<Rightarrow> CompleteWarming
     | HistoryGapped \<Rightarrow> CompleteGapped)"

text \<open>\<open>summarizeHoles\<close>: the empty completeness, which forces nothing, is \<open>None\<close>.\<close>

definition summarizeHolesAs ::
  "(8 word list \<Rightarrow> digest) \<Rightarrow> Completeness option \<Rightarrow> HistoryView \<Rightarrow> int \<Rightarrow> nat \<Rightarrow> nat \<Rightarrow> HistorySummary \<times> WindowHoles" where
  "summarizeHolesAs sha256 forced v t n limit =
     (let (s, holes) = the (SummarizeHoles sha256 v t n limit)
      in (\<lparr>hs_Completeness = (case forced of None \<Rightarrow> completenessOf (ws_Completeness s) | Some c \<Rightarrow> c),
           hs_WindowStart = ws_WindowStart s, hs_WindowEnd = ws_WindowEnd s,
           hs_ValidPositions = ws_ValidPositions s, hs_RequiredPositions = ws_RequiredPositions s,
           hs_AnomalyCount = ws_AnomalyCount s, hs_AnomalyDigest = ws_AnomalyDigest s\<rparr>, holes))"

definition levelViewOf ::
  "(8 word list \<Rightarrow> digest) \<Rightarrow> Completeness option \<Rightarrow> HistoryView \<Rightarrow> LevelView" where
  "levelViewOf sha256 forced v =
     \<lparr>hvi_Summarize = (\<lambda>t n. fst (summarizeHolesAs sha256 forced v t n 0)),
      hvi_CountAnomalies = CountAnomalies v, hvi_FirstAnomaly = FirstAnomaly v,
      hvi_CountObserved = CountObserved v,
      hvi_ForEachAnomaly = Some (\<lambda>a b. ForEachAnomaly v a b (\<lambda>t ts. (ts @ [t], True)) [])\<rparr>"

lemma visitAll_collect: "visitAll (\<lambda>t ts. (ts @ [t], True)) xs ys = ys @ xs"
  by (induction xs arbitrary: ys) auto

interpretation window: history_view "levelViewOf sha256 forced" viewFact wf_view for sha256 forced
proof unfold_locales
  fix v a b assume "wf_view v"
  then show "hvi_CountAnomalies (levelViewOf sha256 forced v) a b = card {\<tau>. a \<le> \<tau> \<and> \<tau> \<le> b \<and> viewFact v \<tau> = Some True}"
    and "hvi_CountObserved (levelViewOf sha256 forced v) a b = card {\<tau>. a \<le> \<tau> \<and> \<tau> \<le> b \<and> viewFact v \<tau> \<noteq> None}"
    by (simp_all add: levelViewOf_def CountAnomalies_card CountObserved_card)
next
  fix v assume wf: "wf_view v"
  show "\<exists>each. hvi_ForEachAnomaly (levelViewOf sha256 forced v) = Some each \<and> (\<forall>a b. sorted_wrt (<) (each a b)
      \<and> set (each a b) = {\<tau>. a \<le> \<tau> \<and> \<tau> \<le> b \<and> viewFact v \<tau> = Some True})"
    by (simp add: levelViewOf_def ForEachAnomaly_visitAll [OF wf] visitAll_collect
        anomalyTimes_ssorted [OF wf] set_anomalyTimes [OF wf])
qed

section \<open>An example\<close>

text \<open>A Level over the example window of two minutes that recovers at the second one.\<close>

definition exampleLevel :: CompiledLevel where
  "exampleLevel = \<lparr>cl_Definition = \<lparr>ld_LevelID = 1, ld_LevelCode = ''fatal'', ld_Priority = 1\<rparr>,
     cl_DetectFingerprint = exampleFingerprint, cl_TriggerFingerprint = ''t'',
     cl_EffectiveTimeRequirementDigest = exampleFingerprint,
     cl_Trigger = \<lparr>tp_WindowSize = 2, tp_RequiredAnomalies = 2, tp_StepSeconds = 60\<rparr>,
     cl_Recovery = \<lparr>rp_Enabled = True, rp_ConsecutiveWindows = 1\<rparr>,
     cl_RequiredDetectHistoryPoints = 2, cl_RetentionPoints = 3\<rparr>"

definition exampleFact :: DetectionFact where
  "exampleFact = \<lparr>df_Definition = cl_Definition exampleLevel, df_DetectFingerprint = exampleFingerprint,
     df_Result = DetectionAnomalous, df_ReasonCode = [],
     df_Evidence = \<lparr>de_PredicateDigest = exampleFingerprint, de_ProjectedValueOrdinal = Some 0,
       de_MatchedAlgorithmOrdinal = None, de_MatchedGroupOrdinal = None, de_ResultReason = []\<rparr>\<rparr>"

definition exampleRecord :: DetectionRecord where
  "exampleRecord = \<lparr>dr_RecordID = ''r'', dr_SourceTime = 120,
     dr_ProjectedValues = [\<lparr>pv_CanonicalDecimal = ''1.000000'', pv_Available = True, pv_ReasonCode = []\<rparr>],
     dr_LevelFacts = [exampleFact]\<rparr>"

definition exampleEffective :: EffectiveTimeFact where
  "exampleEffective = \<lparr>ef_Status = EffectiveTimeActive, ef_RequirementDigest = exampleFingerprint,
     ef_FactRevision = exampleFingerprint, ef_FactDigest = exampleFingerprint, ef_ValidFrom = 0, ef_ValidUntil = 1000\<rparr>"

lemmas trigger_example_defs = exampleLevel_def exampleFact_def exampleRecord_def exampleEffective_def

lemma digest_example: "validDigestV2 exampleFingerprint"
  by (simp add: validDigestV2_def exampleFingerprint_def list_all_iff less_eq_char_def)

lemma evidence_example:
  "\<exists>e. buildDetectEvidenceV2 exampleRecord exampleFact EffectiveTimeActive = Some e"
  using digest_example
  by (simp add: buildDetectEvidenceV2_def trigger_example_defs validCanonicalDecimalV2_def Let_def list_ex_iff list_all_iff less_eq_char_def less_char_def)


lemma view_example:
  "CountAnomalies exampleView 1 120 = 1" "CountObserved exampleView 1 120 = 2" "FirstAnomaly exampleView 1 120 = (120, True)"
  by (simp_all add: CountAnomalies_def CountObserved_def FirstAnomaly_def ForEachAnomaly_def exampleView_def exampleWindow_def Let_def search_simps bitSet_def)

lemma times_example: "multiplyUint32ToInt64 0 60 = Some 0" "windowStartV2 120 2 60 = Some 1" "multiplyUint32ToInt64 1 60 = Some 60"
  by (simp_all add: windowStartV2_def multiplyUint32ToInt64_def u64_def maxInt64_def)

lemma walk_example:
  "recoveryWalk (levelViewOf h c exampleView) (cl_Trigger exampleLevel) 1 120 3 0 \<lparr>wt_misses = 0, wt_skipped = 0, wt_oldest = 1\<rparr>
    = Some \<lparr>wt_misses = 1, wt_skipped = 0, wt_oldest = 1\<rparr>"
  by (simp add: recoveryWalk.simps exampleLevel_def times_example levelViewOf_def view_example u32_def)

lemma required_example: "requiredHistoryPointsV2 (cl_Trigger exampleLevel) (cl_Recovery exampleLevel) = (2, True)"
  by (simp add: requiredHistoryPointsV2_def exampleLevel_def u32_sub_def u32_def maxUint32_def)


lemma walkPositions_numeral:
  "walkPositions (numeral k) view limit interval endTime expected s =
     (let s' = visitPosition view limit expected s
      in if expected = endTime then Some s'
         else walkPositions (pred_numeral k) view limit interval endTime (i64 (expected + interval)) s')"
  by (simp add: numeral_eq_Suc)

lemma summary_example:
  "\<exists>s. SummarizeHoles h exampleView 120 2 0 = Some s \<and> ws_Completeness (fst s) = HistoryFull \<and> ws_WindowStart (fst s) = 60
     \<and> ws_WindowEnd (fst s) = 120 \<and> ws_ValidPositions (fst s) = 2 \<and> ws_AnomalyCount (fst s) = 1"
  by (simp add: SummarizeHoles_def exampleView_def example_defs go_eval intervalSeconds_def walkPositions_numeral visitPosition_def walkInit_def pointAt_def search_simps bitSet_def noHoles_def walkCompleteness_def)

lemma recovery_example:
  "\<exists>o' r. evaluateLevelV2 exampleRecord False exampleLevel exampleFact (levelViewOf h None exampleView) exampleEffective StateAdvance
    = Inr (o', r) \<and> lo_Result o' = Some LevelResultRecovery"
proof -
  obtain e where e: "buildDetectEvidenceV2 exampleRecord exampleFact EffectiveTimeActive = Some e"
    using evidence_example by blast
  obtain s where s: "SummarizeHoles h exampleView 120 2 0 = Some s" "ws_Completeness (fst s) = HistoryFull" "ws_WindowStart (fst s) = 60"
     "ws_WindowEnd (fst s) = 120" "ws_ValidPositions (fst s) = 2" "ws_AnomalyCount (fst s) = 1" using summary_example by blast
  have lv: "dr_SourceTime exampleRecord = 120" "tp_StepSeconds (cl_Trigger exampleLevel) = 60" "tp_WindowSize (cl_Trigger exampleLevel) = 2"
    "tp_RequiredAnomalies (cl_Trigger exampleLevel) = 2" "rp_Enabled (cl_Recovery exampleLevel)" "cl_RetentionPoints exampleLevel = 3"
    "rp_ConsecutiveWindows (cl_Recovery exampleLevel) = 1" "df_Result exampleFact = DetectionAnomalous" "ef_Status exampleEffective = EffectiveTimeActive"
    by (simp_all add: trigger_example_defs)
  have v: "hvi_CountAnomalies (levelViewOf h None exampleView) = CountAnomalies exampleView"
     "hvi_FirstAnomaly (levelViewOf h None exampleView) = FirstAnomaly exampleView"
    "hs_Completeness (hvi_Summarize (levelViewOf h None exampleView) 120 2) = CompleteFull"
    "validateHistorySummaryV2 120 2 60 (hvi_Summarize (levelViewOf h None exampleView) 120 2)"
    using s times_example
    by (simp_all add: levelViewOf_def summarizeHolesAs_def split_beta completenessOf_def validateHistorySummaryV2_def u32_sub_def)
  show ?thesis
    by (simp add: evaluateLevelV2_def decideLevelV2_def lv e required_example Let_def v view_example times_example runRecoveryWalk_def
      walk_example decidedLevel_def del: One_nat_def)
qed

section \<open>A RECOVERY rests on observed misses\<close>

lemma decideLevelV2_recovery:
  assumes "decideLevelV2 record late level f history outcome evidence = Inr (o', r)"
    and "lo_Result outcome = None" "lo_Result o' = Some LevelResultRecovery"
  shows "rp_Enabled (cl_Recovery level) \<and> (\<exists>tally ws.
    recoveryWalk history (cl_Trigger level) (rp_ConsecutiveWindows (cl_Recovery level)) (dr_SourceTime record)
      (cl_RetentionPoints level) 0 \<lparr>wt_misses = 0, wt_skipped = 0, wt_oldest = ws\<rparr> = Some tally
    \<and> wt_misses tally \<ge> rp_ConsecutiveWindows (cl_Recovery level))"
  using assms
  by (auto simp: decideLevelV2_def Let_def decidedLevel_def runRecoveryWalk_def
      split: if_splits option.splits sum.splits)

lemma evaluateLevelV2_recovery:
  assumes "evaluateLevelV2 record late level f history eff elig = Inr (o', r)"
    and "lo_Result o' = Some LevelResultRecovery"
  shows "\<exists>evidence. decideLevelV2 record late level f history (initialOutcome level elig) evidence = Inr (o', r)"
  using assms
  by (auto simp: evaluateLevelV2_def Let_def initialOutcome_def split: if_splits option.splits EffectiveStatus.splits)

lemma recovery_walk_misses:
  assumes "evaluateLevelV2 record late level f history eff elig = Inr (o', r)"
    and "lo_Result o' = Some LevelResultRecovery"
  shows "rp_Enabled (cl_Recovery level) \<and> (\<exists>S \<subseteq> {..<cl_RetentionPoints level}.
    card S = rp_ConsecutiveWindows (cl_Recovery level)
    \<and> (\<forall>k \<in> S. observedMiss history (cl_Trigger level) (dr_SourceTime record) k)
    \<and> (\<forall>k \<in> S. \<forall>j \<le> k. untriggered history (cl_Trigger level) (dr_SourceTime record) j))"
proof -
  let ?c = "rp_ConsecutiveWindows (cl_Recovery level)"
  from evaluateLevelV2_recovery [OF assms] obtain evidence where
    d: "decideLevelV2 record late level f history (initialOutcome level elig) evidence = Inr (o', r)" by blast
  have "lo_Result (initialOutcome level elig) = None" by (simp add: initialOutcome_def)
  from decideLevelV2_recovery [OF d this assms(2)] obtain tally ws where
    en: "rp_Enabled (cl_Recovery level)" and
    walk: "recoveryWalk history (cl_Trigger level) ?c (dr_SourceTime record) (cl_RetentionPoints level) 0
      \<lparr>wt_misses = 0, wt_skipped = 0, wt_oldest = ws\<rparr> = Some tally" "wt_misses tally \<ge> ?c" by blast
  have "wt_misses \<lparr>wt_misses = 0, wt_skipped = 0, wt_oldest = ws\<rparr> \<le> ?c" by simp
  from recoveryWalk_sound [OF walk(1) this] obtain S where
    S: "S \<subseteq> {0..<cl_RetentionPoints level}" "wt_misses tally = card S" "wt_misses tally \<le> ?c"
    "\<forall>k \<in> S. observedMiss history (cl_Trigger level) (dr_SourceTime record) k"
    "\<forall>k \<in> S. \<forall>j. 0 \<le> j \<and> j \<le> k \<longrightarrow> untriggered history (cl_Trigger level) (dr_SourceTime record) j"
    by auto
  have "card S = ?c" "S \<subseteq> {..<cl_RetentionPoints level}" using S(1,2,3) walk(2) by (auto simp: subset_iff)
  with en S(4,5) show ?thesis by blast
qed

text \<open>
  C17: a RECOVERY is never an artefact of missing data.  When the trigger of a Level says RECOVERY on
  a reachable window, recovery is enabled and there are as many windows as the Plan demands, within
  the retention, each of which stays below the required anomalies in every completion of the
  window's facts on the record's steps; and no window from the newest to the oldest of them has triggered.
\<close>

theorem recovery_rests_on_observed_misses:
  assumes "windowReach w" and "History (Some w) lid = Some v"
    and "evaluateLevelV2 record late level f (levelViewOf sha256 forced v) eff elig = Inr (o', r)"
    and "lo_Result o' = Some LevelResultRecovery"
    and "tp_WindowSize (cl_Trigger level) \<le> maxUint32" and "tp_StepSeconds (cl_Trigger level) \<le> maxUint32"
    and "cl_RetentionPoints level \<le> maxUint32"
  shows "rp_Enabled (cl_Recovery level) \<and> (\<exists>S \<subseteq> {..<cl_RetentionPoints level}.
    card S = rp_ConsecutiveWindows (cl_Recovery level)
    \<and> (\<forall>k \<in> S. \<forall>facts. aligned facts (dr_SourceTime record) (tp_StepSeconds (cl_Trigger level))
          \<and> windowFact w lid \<subseteq>\<^sub>m facts \<longrightarrow> belowRequired facts (cl_Trigger level) (dr_SourceTime record) k)
    \<and> (\<forall>k \<in> S. \<forall>j \<le> k. belowRequired (windowFact w lid) (cl_Trigger level) (dr_SourceTime record) j))"
proof -
  note h = History_spec [OF windowReach_wf [OF assms(1)] assms(2)]
  have vf: "viewFact v = windowFact w lid" by (rule ext) (rule h(2))
  from recovery_walk_misses [OF assms(3,4)] obtain S where en: "rp_Enabled (cl_Recovery level)"
    and S: "S \<subseteq> {..<cl_RetentionPoints level}" "card S = rp_ConsecutiveWindows (cl_Recovery level)"
    "\<forall>k \<in> S. observedMiss (levelViewOf sha256 forced v) (cl_Trigger level) (dr_SourceTime record) k"
    "\<forall>k \<in> S. \<forall>j \<le> k. untriggered (levelViewOf sha256 forced v) (cl_Trigger level) (dr_SourceTime record) j"
    by blast
  have "belowRequired facts (cl_Trigger level) (dr_SourceTime record) k"
    if "k \<in> S" "aligned facts (dr_SourceTime record) (tp_StepSeconds (cl_Trigger level))"
      "windowFact w lid \<subseteq>\<^sub>m facts" for k facts
  proof -
    have "k \<le> maxUint32" using S(1) that(1) assms(7) by (auto simp: subset_iff)
    with S(3) that assms(5,6) show ?thesis
      by (intro window.miss_in_every_completion [OF h(1)]) (auto simp: vf)
  qed
  with en S(1,2,4) show ?thesis
    unfolding window.untriggered_belowRequired [OF h(1)] vf by (intro conjI exI [of _ S]) auto
qed

theorem recovery_rests_on_observed_misses_witness:
  "\<exists>S \<subseteq> {..<3}. card S = 1 \<and> (\<forall>k \<in> S. \<forall>facts. aligned facts 120 60 \<and> windowFact exampleWindow 1 \<subseteq>\<^sub>m facts
     \<longrightarrow> belowRequired facts (cl_Trigger exampleLevel) 120 k)"
proof -
  from recovery_example [of "\<lambda>_. []"] obtain o' r where
    e: "evaluateLevelV2 exampleRecord False exampleLevel exampleFact (levelViewOf (\<lambda>_. []) None exampleView)
      exampleEffective StateAdvance = Inr (o', r)" "lo_Result o' = Some LevelResultRecovery" by blast
  have lv: "tp_WindowSize (cl_Trigger exampleLevel) \<le> maxUint32" "tp_StepSeconds (cl_Trigger exampleLevel) \<le> maxUint32"
    "cl_RetentionPoints exampleLevel \<le> maxUint32" by (simp_all add: exampleLevel_def maxUint32_def)
  have "dr_SourceTime exampleRecord = 120" "tp_StepSeconds (cl_Trigger exampleLevel) = 60"
    "cl_RetentionPoints exampleLevel = 3" "rp_ConsecutiveWindows (cl_Recovery exampleLevel) = 1"
    by (simp_all add: trigger_example_defs)
  with recovery_rests_on_observed_misses [OF exampleWindow_reach(2) exampleView_History e lv] show ?thesis by auto
qed

section \<open>A window's history never breaks the trigger\<close>

lemma requiredHistoryPointsV2_eq:
  assumes "requiredHistoryPointsV2 t r = (n, True)"
    and "tp_WindowSize t \<le> maxUint32" "rp_ConsecutiveWindows r \<le> maxUint32"
  shows "n = tp_WindowSize t + (if rp_Enabled r then rp_ConsecutiveWindows r - 1 else 0)"
    and "0 < tp_WindowSize t" "0 < tp_StepSeconds t"
proof -
  show "0 < tp_WindowSize t" "0 < tp_StepSeconds t"
    using assms(1) by (auto simp: requiredHistoryPointsV2_def split: if_splits)
  show "n = tp_WindowSize t + (if rp_Enabled r then rp_ConsecutiveWindows r - 1 else 0)"
    using assms
    by (auto simp: requiredHistoryPointsV2_def u32_sub_def u32_def maxUint32_def mod_if split: if_splits)
qed

lemma summaryOf_counts:
  assumes "wf_view v" "0 < n"
  shows "ws_ValidPositions (summaryOf h v e n lim) \<le> n"
    and "ws_AnomalyCount (summaryOf h v e n lim) \<le> ws_ValidPositions (summaryOf h v e n lim)"
    and "ws_Completeness (summaryOf h v e n lim) = HistoryFull \<Longrightarrow> ws_ValidPositions (summaryOf h v e n lim) = n"
proof -
  let ?xs = "summaryPositions v e n"
  note fs = fold_visit_spec [OF assms(1), of lim ?xs, folded summaryWalk_def]
  show le: "ws_ValidPositions (summaryOf h v e n lim) \<le> n"
    using length_filter_le [of "\<lambda>t. viewFact v t \<noteq> None" ?xs] by (simp add: summaryOf_def fs)
  have "filter (\<lambda>t. viewFact v t = Some True) ?xs
      = filter (\<lambda>t. viewFact v t = Some True) (filter (\<lambda>t. viewFact v t \<noteq> None) ?xs)"
    by (auto intro: filter_cong)
  then have "length (filter (\<lambda>t. viewFact v t = Some True) ?xs) \<le> length (filter (\<lambda>t. viewFact v t \<noteq> None) ?xs)"
    by (metis length_filter_le)
  then show "ws_AnomalyCount (summaryOf h v e n lim) \<le> ws_ValidPositions (summaryOf h v e n lim)"
    by (simp add: summaryOf_def fs)
  show "ws_Completeness (summaryOf h v e n lim) = HistoryFull \<Longrightarrow> ws_ValidPositions (summaryOf h v e n lim) = n"
    using le by (auto simp: summaryOf_def walkCompleteness_def split: if_splits)
qed

lemma window_summary_valid:
  assumes v: "wf_view v" and n: "0 < n" "n \<le> lr_RetentionPoints (hv_requirement v)"
    and ret: "lr_RetentionPoints (hv_requirement v) \<le> maxUint32" and e: "e \<le> maxInt64"
    and s: "intervalSeconds (hv_requirement v) = int step" "step \<le> maxUint32" "int (n * step) - 1 \<le> e" "0 < step"
    and f: "forced \<noteq> Some CompleteFull" "\<And>x. forced \<noteq> Some (CompleteOther x)"
  shows "validateHistorySummaryV2 e n step (hvi_Summarize (levelViewOf sha256 forced v) e n)"
proof -
  have span: "int (n - 1) * int step \<le> e"
  proof -
    have "int (n * step) = int (n - 1) * int step + int step" using n(1) by (cases n) (auto simp: algebra_simps)
    with s(3,4) show ?thesis by linarith
  qed
  note so = SummarizeHoles_summaryOf [OF v n ret e, unfolded s(1), OF span, of sha256 0]
  note sc = summaryOf_counts [OF v n(1), of sha256 e 0]
  have sm: "hvi_Summarize (levelViewOf sha256 forced v) e n =
    \<lparr>hs_Completeness = (case forced of None \<Rightarrow> completenessOf (ws_Completeness (summaryOf sha256 v e n 0)) | Some c \<Rightarrow> c),
     hs_WindowStart = e - int (n - 1) * int step, hs_WindowEnd = e,
     hs_ValidPositions = ws_ValidPositions (summaryOf sha256 v e n 0), hs_RequiredPositions = n,
     hs_AnomalyCount = ws_AnomalyCount (summaryOf sha256 v e n 0), hs_AnomalyDigest = ws_AnomalyDigest (summaryOf sha256 v e n 0)\<rparr>"
    by (simp add: levelViewOf_def summarizeHolesAs_def so) (simp add: summaryOf_def s(1))
  have u: "u32_sub n 1 = n - 1" using n ret by (intro u32_sub_id) auto
  have m: "multiplyUint32ToInt64 (n - 1) step = Some (int (n - 1) * int step)"
    using span e s(2) n ret by (subst multiplyUint32ToInt64_Some) auto
  have full: "hs_Completeness (hvi_Summarize (levelViewOf sha256 forced v) e n) = CompleteFull \<longrightarrow>
      ws_ValidPositions (summaryOf sha256 v e n 0) = n"
    unfolding sm using f(1) sc(3)
    by (auto simp: completenessOf_def split: option.splits HistoryCompleteness.splits)
  have known: "hs_Completeness (hvi_Summarize (levelViewOf sha256 forced v) e n) \<in> {CompleteFull, CompleteWarming, CompleteGapped}"
    unfolding sm using f
    by (auto simp: completenessOf_def split: option.splits HistoryCompleteness.splits) (metis Completeness.exhaust)+
  define d where "d = int (n - 1) * int step"
  have "0 \<le> d" by (simp add: d_def)
  with span sc(1,2) full known show ?thesis
    unfolding validateHistorySummaryV2_def u m sm option.case d_def [symmetric] by auto
qed

lemma retention_steps:
  assumes "valid_requirement q" "lr_RetentionPoints q \<le> maxUint32" "intervalSeconds q = int step" "step \<le> maxUint32"
    and "k < lr_RetentionPoints q"
  shows "multiplyUint32ToInt64 k step \<noteq> None"
proof -
  note rd = valid_requirementD [OF assms(1)]
  have "u32_sub (lr_RetentionPoints q) 1 = lr_RetentionPoints q - 1" using rd(2,3) assms(2) by (intro u32_sub_id) auto
  then have "int k \<le> maxInt64 div int step"
    using rd(4,7) assms(3,5) by (simp add: sdiv_pos maxInt64_def)
  then have "int k * int step \<le> maxInt64 div int step * int step" by (rule mult_right_mono) simp
  also have "\<dots> \<le> maxInt64" using rd(4) assms(3) by (simp add: minus_mod_eq_div_mult [symmetric])
  finally show ?thesis using assms by (subst multiplyUint32ToInt64_Some) auto
qed

lemma windowAt_0:
  assumes "0 \<le> sourceTime"
  shows "windowAt t sourceTime 0 = map_option (\<lambda>a. (a, sourceTime)) (windowStartV2 sourceTime (tp_WindowSize t) (tp_StepSeconds t))"
  using assms by (simp add: windowAt_def multiplyUint32ToInt64_def u64_def maxInt64_def)



end
