(* ===== verification/Trigger_Props.thy ===== *)
theory Trigger_Props
  imports Trigger_View
begin

text \<open>
  The record as a whole: what \<open>EvaluateV2\<close> reports of its Levels, which result it gives the record and
  when it publishes an event.
\<close>

section \<open>From Level to record\<close>

lemma decideLevelV2_result:
  assumes "decideLevelV2 record late level f history outcome evidence = Inr (o', r)" "lo_Result outcome = None"
  shows "lo_Result o' = map_option lv_Result r"
  using assms by (auto simp: decideLevelV2_def Let_def decidedLevel_def split: if_splits option.splits sum.splits)

lemma evaluateLevelV2_result:
  assumes "evaluateLevelV2 record late level f history eff elig = Inr (o', r)"
  shows "lo_Result o' = map_option lv_Result r"
proof (cases "\<exists>evidence. decideLevelV2 record late level f history (initialOutcome level elig) evidence = Inr (o', r)")
  case True
  then show ?thesis using decideLevelV2_result by (auto simp: initialOutcome_def)
next
  case False
  with assms show ?thesis
    by (auto simp: evaluateLevelV2_def Let_def initialOutcome_def split: if_splits option.splits EffectiveStatus.splits)
qed

lemma evaluateLevelV2_disposition:
  assumes "evaluateLevelV2 record late level f history eff elig = Inr (o', r)"
  shows "lo_StateDisposition o' = elig"
  using assms
  by (auto simp: evaluateLevelV2_def decideLevelV2_def Let_def initialOutcome_def decidedLevel_def
      split: if_splits option.splits EffectiveStatus.splits sum.splits)

definition withResult :: "LevelResult \<Rightarrow> LevelOutcomeV2 list \<Rightarrow> nat" where
  "withResult r os = length (filter (\<lambda>o'. lo_Result o' = Some r) os)"

text \<open>The Levels without a result: suppressed when they have a reason for it, unavailable otherwise.\<close>

definition suppressedOf :: "LevelOutcomeV2 list \<Rightarrow> nat" where
  "suppressedOf os = length (filter (\<lambda>o'. lo_Result o' = None \<and> lo_SuppressedReason o' \<noteq> []) os)"

definition unavailableOf :: "LevelOutcomeV2 list \<Rightarrow> nat" where
  "unavailableOf os = length (filter (\<lambda>o'. lo_Result o' = None \<and> lo_SuppressedReason o' = [] \<and> lo_UnavailableReason o' \<noteq> []) os)"

lemmas tally_defs = withResult_def suppressedOf_def unavailableOf_def

definition addTally :: "LevelOutcomeV2 list \<Rightarrow> EvaluationCountsV2 \<Rightarrow> EvaluationCountsV2" where
  "addTally os c = c\<lparr>
     ec_Evaluated := ec_Evaluated c + withResult LevelResultAbnormal os + withResult LevelResultNormal os
        + withResult LevelResultRecovery os,
     ec_Abnormal := ec_Abnormal c + withResult LevelResultAbnormal os,
     ec_Normal := ec_Normal c + withResult LevelResultNormal os,
     ec_Recovery := ec_Recovery c + withResult LevelResultRecovery os,
     ec_Suppressed := ec_Suppressed c + suppressedOf os,
     ec_Unavailable := ec_Unavailable c + unavailableOf os\<rparr>"

definition classified :: "LevelOutcomeV2 \<Rightarrow> bool" where
  "classified o' \<longleftrightarrow> lo_Result o' \<noteq> None \<or> lo_SuppressedReason o' \<noteq> [] \<or> lo_UnavailableReason o' \<noteq> []"

lemma tallyCounts_addTally:
  "tallyCounts o' c = Some c' \<longleftrightarrow> classified o' \<and> c' = addTally [o'] c"
  by (cases c) (auto simp: tallyCounts_def addTally_def tally_defs classified_def split: option.splits LevelResult.splits)

lemma addTally_Cons: "addTally os (addTally [o'] c) = addTally (o' # os) c"
  by (cases c) (simp add: addTally_def tally_defs)

lemma evaluateLevels_spec:
  assumes "evaluateLevels sv rq ins c = Inr (os, rs, c')"
  shows "length os = length ins \<and> c' = addTally os c \<and> list_all classified os
    \<and> map (Some \<circ> lv_Result) rs = filter (\<lambda>x. x \<noteq> None) (map lo_Result os)"
  using assms
proof (induction ins arbitrary: c os rs c')
  case Nil
  then show ?case by (cases c) (simp add: addTally_def tally_defs)
next
  case (Cons i ins)
  obtain level f history eff where i: "i = (level, f, history, eff)" by (cases i) auto
  from Cons.prems obtain elig o0 s os' rs' c1 where
    ev: "evaluateLevelV2 (rq_Record rq) (rq_LateAccepted rq) level f (the (snd history)) (snd eff) elig = Inr (o0, s)"
    and tl: "tallyCounts (holdRecovery rq o0) c = Some c1"
    and rest: "evaluateLevels sv rq ins c1 = Inr (os', rs', c')"
    and os: "os = holdRecovery rq o0 # os'"
    and rs: "rs = (if lo_Result (holdRecovery rq o0) \<noteq> None then the s # rs' else rs')"
    unfolding i by (auto simp: Let_def split: sum.splits prod.splits option.splits if_splits)
  have held: "lo_Result (holdRecovery rq o0) \<noteq> None \<Longrightarrow> lo_Result (holdRecovery rq o0) = map_option lv_Result s"
    using evaluateLevelV2_result [OF ev] by (auto simp: holdRecovery_def Let_def split: if_splits option.splits prod.splits)
  from Cons.IH [OF rest] tl held show ?case
    unfolding os rs tallyCounts_addTally by (cases s) (auto simp: addTally_Cons)
qed

lemma outcomes_partition:
  "list_all classified os \<Longrightarrow> length os = withResult LevelResultAbnormal os + withResult LevelResultNormal os
     + withResult LevelResultRecovery os + suppressedOf os + unavailableOf os"
proof (induction os)
  case (Cons o' os)
  then show ?case by (cases "lo_Result o'"; cases "the (lo_Result o')") (auto simp: tally_defs classified_def)
qed (simp add: tally_defs)

lemma results_length:
  "length (filter (\<lambda>x. x \<noteq> None) (map lo_Result os)) = withResult LevelResultAbnormal os
     + withResult LevelResultNormal os + withResult LevelResultRecovery os"
proof (induction os)
  case (Cons o' os)
  then show ?case by (cases "lo_Result o'"; cases "the (lo_Result o')") (auto simp: tally_defs)
qed (simp add: tally_defs)

lemma aggregateLoop_cases:
  "aggregateLoop r ls =
     (if LevelResultAbnormal \<in> lv_Result ` set ls then LevelResultAbnormal
      else if LevelResultRecovery \<in> lv_Result ` set ls then LevelResultRecovery else r)"
  by (induction ls arbitrary: r) auto

lemma results_of_outcomes:
  assumes "map (Some \<circ> lv_Result) rs = filter (\<lambda>x. x \<noteq> None) (map lo_Result os)"
  shows "r \<in> lv_Result ` set rs \<longleftrightarrow> Some r \<in> lo_Result ` set os"
    and "rs = [] \<longleftrightarrow> (\<forall>o' \<in> set os. lo_Result o' = None)"
proof -
  have "Some r \<in> set (map (Some \<circ> lv_Result) rs) \<longleftrightarrow> Some r \<in> lo_Result ` set os" for r
    unfolding assms by simp
  moreover have "Some r \<in> set (map (Some \<circ> lv_Result) rs) \<longleftrightarrow> r \<in> lv_Result ` set rs" for r by auto
  ultimately show "r \<in> lv_Result ` set rs \<longleftrightarrow> Some r \<in> lo_Result ` set os" by blast
  have "rs = [] \<longleftrightarrow> map (Some \<circ> lv_Result) rs = []" by simp
  then show "rs = [] \<longleftrightarrow> (\<forall>o' \<in> set os. lo_Result o' = None)"
    unfolding assms by (auto simp: filter_empty_conv)
qed

text \<open>The walk over the outcomes names what stood beside a recovery; only the open alert gate holds one.\<close>

lemma recoveryGateLoop_held: "rg_Held (fst (recoveryGateLoop os acc)) = rg_Held (fst acc)"
proof (induction os arbitrary: acc)
  case (Cons o' os)
  then show ?case by (cases acc) simp
qed simp

lemma recoveryGateV2_held: "rg_Held (recoveryGateV2 os) = False"
  using recoveryGateLoop_held [of os "(noGate, 0)"] by (auto simp: recoveryGateV2_def noGate_def split: prod.split)

text \<open>What \<open>publishEvent\<close> may change of a result, and what an event it published says.\<close>

lemma publishEvent_frame:
  assumes "publishEvent sv rq plan rr rs res0 = Inr res" "er_TriggerEvent res0 = None"
  shows "er_Completion res = er_Completion res0" "er_RecordResult res = er_RecordResult res0"
    "er_LevelOutcomes res = er_LevelOutcomes res0"
    "er_Counts res = (if er_TriggerEvent res = None then er_Counts res0 else (er_Counts res0)\<lparr>ec_Events := 1\<rparr>)"
  using assms by (auto simp: publishEvent_def Let_def split: if_splits sum.splits option.splits)

lemma completeEvent_dedupe: "completeEvent sv rq plan md5 built = Inr e \<Longrightarrow> te_DedupeMD5 e = md5"
  by (auto simp: completeEvent_def Let_def split: sum.splits option.splits if_splits)

lemma publishEvent_recovery:
  assumes "publishEvent sv rq plan LevelResultRecovery rs res0 = Inr res" "er_TriggerEvent res0 = None"
    and "er_TriggerEvent res = Some e"
  shows "\<not> rg_Held (openAlertGateV2 (er_RecoveryGate res0) rq plan (sr_StrategyID (cp_StrategyRef plan)) (te_DedupeMD5 e))"
  using assms
  by (auto simp: publishEvent_def Let_def dest: completeEvent_dedupe split: if_splits sum.splits option.splits)

definition startCounts :: "CompiledPlan \<Rightarrow> EvaluationCountsV2" where
  "startCounts plan = \<lparr>ec_Levels = length (cp_Levels plan), ec_Evaluated = 0, ec_Abnormal = 0, ec_Normal = 0,
     ec_Recovery = 0, ec_Suppressed = 0, ec_Unavailable = 0, ec_Events = 0\<rparr>"

definition startResult :: "LevelOutcomeV2 list \<Rightarrow> LevelResultV1 list \<Rightarrow> EvaluationCountsV2 \<Rightarrow> EvaluationResultV2" where
  "startResult os rs c = \<lparr>
     er_Completion = (if rs \<noteq> [] then CompletionEvaluated
                      else if ec_Unavailable c > 0 then CompletionUnavailable else CompletionSuppressed),
     er_RecordResult = (if rs \<noteq> [] then Some (aggregateRecordResultV2 rs) else None),
     er_LevelOutcomes = os, er_TriggerEvent = None, er_Counts = c,
     er_RecoveryGate = (if rs \<noteq> [] \<and> aggregateRecordResultV2 rs = LevelResultRecovery then recoveryGateV2 os else noGate),
     er_WithoutMessageFormat = []\<rparr>"

lemma validateRequestV2_levels:
  "validateRequestV2 rq = Inr plan \<Longrightarrow> length (levelInputs rq (cp_Levels plan)) = length (cp_Levels plan)"
  by (auto simp: validateRequestV2_def Let_def levelInputs_def split: option.splits if_splits sum.splits)

lemma EvaluateV2_cases:
  assumes "EvaluateV2 sv rq = Inr res"
  obtains plan os rs c where "validateRequestV2 rq = Inr plan"
    and "evaluateLevels sv rq (levelInputs rq (cp_Levels plan)) (startCounts plan) = Inr (os, rs, c)"
    and "res = startResult os rs c
      \<or> er_RecordResult (startResult os rs c) \<in> {Some LevelResultAbnormal, Some LevelResultRecovery}
        \<and> publishEvent sv rq plan (the (er_RecordResult (startResult os rs c))) rs (startResult os rs c) = Inr res"
proof -
  from assms obtain plan where plan: "validateRequestV2 rq = Inr plan"
    by (auto simp: EvaluateV2_def split: sum.splits)
  from assms obtain os rs c where
    ev: "evaluateLevels sv rq (levelInputs rq (cp_Levels plan)) (startCounts plan) = Inr (os, rs, c)"
    unfolding EvaluateV2_def plan startCounts_def by (auto split: sum.splits)
  show thesis
  proof (rule that [OF plan ev])
    have g: "(if (if rs \<noteq> [] then Some (aggregateRecordResultV2 rs) else None) = Some LevelResultRecovery
        then recoveryGateV2 os else noGate) = er_RecoveryGate (startResult os rs c)"
      by (simp add: startResult_def)
    show "res = startResult os rs c
      \<or> er_RecordResult (startResult os rs c) \<in> {Some LevelResultAbnormal, Some LevelResultRecovery}
        \<and> publishEvent sv rq plan (the (er_RecordResult (startResult os rs c))) rs (startResult os rs c) = Inr res"
      using assms unfolding EvaluateV2_def plan startCounts_def [symmetric] sum.case Let_def ev prod.case
      by (cases "rs = []"; cases "aggregateRecordResultV2 rs") (simp_all add: startResult_def)
  qed
qed

lemma EvaluateV2_frame:
  assumes "EvaluateV2 sv rq = Inr res"
  obtains plan os rs c where "validateRequestV2 rq = Inr plan"
    and "evaluateLevels sv rq (levelInputs rq (cp_Levels plan)) (startCounts plan) = Inr (os, rs, c)"
    and "er_LevelOutcomes res = os" and "er_RecordResult res = er_RecordResult (startResult os rs c)"
    and "er_Completion res = er_Completion (startResult os rs c)"
    and "er_Counts res = (if er_TriggerEvent res = None then c else c\<lparr>ec_Events := 1\<rparr>)"
proof (rule EvaluateV2_cases [OF assms])
  fix plan os rs c
  let ?s = "startResult os rs c"
  assume v: "validateRequestV2 rq = Inr plan"
    and ev: "evaluateLevels sv rq (levelInputs rq (cp_Levels plan)) (startCounts plan) = Inr (os, rs, c)"
    and "res = ?s \<or> er_RecordResult ?s \<in> {Some LevelResultAbnormal, Some LevelResultRecovery}
        \<and> publishEvent sv rq plan (the (er_RecordResult ?s)) rs ?s = Inr res"
  then consider "res = ?s" | "publishEvent sv rq plan (the (er_RecordResult ?s)) rs ?s = Inr res" by blast
  moreover have s: "er_TriggerEvent ?s = None" "er_LevelOutcomes ?s = os" "er_Counts ?s = c"
    by (simp_all add: startResult_def)
  ultimately have "er_LevelOutcomes res = os \<and> er_RecordResult res = er_RecordResult ?s
    \<and> er_Completion res = er_Completion ?s \<and> er_Counts res = (if er_TriggerEvent res = None then c else c\<lparr>ec_Events := 1\<rparr>)"
    by cases (simp_all add: s publishEvent_frame [OF _ s(1)])
  then show thesis using that [OF v ev] by blast
qed

section \<open>Properties\<close>

text \<open>
  C20: the counts of an evaluated record are exact: one outcome per Level of the Plan, each counted once
  as evaluated, suppressed or unavailable; the counts of results are the numbers of Levels with that
  result; the completion says whether any Level was evaluated and, if none, whether one was
  unavailable; an event is counted iff one is published.
\<close>

theorem evaluation_counts_exact:
  assumes "EvaluateV2 sv rq = Inr res"
  shows "ec_Levels (er_Counts res) = length (er_LevelOutcomes res)
    \<and> ec_Levels (er_Counts res) = ec_Evaluated (er_Counts res) + ec_Suppressed (er_Counts res) + ec_Unavailable (er_Counts res)
    \<and> ec_Evaluated (er_Counts res) = ec_Abnormal (er_Counts res) + ec_Normal (er_Counts res) + ec_Recovery (er_Counts res)
    \<and> ec_Abnormal (er_Counts res) = withResult LevelResultAbnormal (er_LevelOutcomes res)
    \<and> ec_Recovery (er_Counts res) = withResult LevelResultRecovery (er_LevelOutcomes res)
    \<and> er_Completion res = (if ec_Evaluated (er_Counts res) > 0 then CompletionEvaluated
         else if ec_Unavailable (er_Counts res) > 0 then CompletionUnavailable else CompletionSuppressed)
    \<and> ec_Events (er_Counts res) = (if er_TriggerEvent res = None then 0 else 1)"
proof (rule EvaluateV2_frame [OF assms])
  fix plan os rs c
  assume v: "validateRequestV2 rq = Inr plan"
    and ev: "evaluateLevels sv rq (levelInputs rq (cp_Levels plan)) (startCounts plan) = Inr (os, rs, c)"
    and r: "er_LevelOutcomes res = os" "er_RecordResult res = er_RecordResult (startResult os rs c)"
      "er_Completion res = er_Completion (startResult os rs c)"
      "er_Counts res = (if er_TriggerEvent res = None then c else c\<lparr>ec_Events := 1\<rparr>)"
  note es = evaluateLevels_spec [OF ev, unfolded validateRequestV2_levels [OF v]]
  have len: "length os = withResult LevelResultAbnormal os + withResult LevelResultNormal os
      + withResult LevelResultRecovery os + suppressedOf os + unavailableOf os"
    using es [THEN conjunct2, THEN conjunct2, THEN conjunct1] by (rule outcomes_partition)
  have "length rs = withResult LevelResultAbnormal os + withResult LevelResultNormal os + withResult LevelResultRecovery os"
    using arg_cong [OF es [THEN conjunct2, THEN conjunct2, THEN conjunct2], of length]
    unfolding results_length by simp
  then have "rs \<noteq> [] \<longleftrightarrow> withResult LevelResultAbnormal os + withResult LevelResultNormal os + withResult LevelResultRecovery os > 0"
    by (metis length_greater_0_conv)
  moreover have "c = addTally os (startCounts plan)" "length os = length (cp_Levels plan)" using es by auto
  ultimately show ?thesis using len unfolding r by (simp add: addTally_def startCounts_def startResult_def)
qed

lemma record_result_cases:
  assumes "EvaluateV2 sv rq = Inr res"
  shows "er_RecordResult res =
    (if Some LevelResultAbnormal \<in> lo_Result ` set (er_LevelOutcomes res) then Some LevelResultAbnormal
     else if Some LevelResultRecovery \<in> lo_Result ` set (er_LevelOutcomes res) then Some LevelResultRecovery
     else if Some LevelResultNormal \<in> lo_Result ` set (er_LevelOutcomes res) then Some LevelResultNormal else None)"
proof (rule EvaluateV2_frame [OF assms])
  fix plan os rs c
  assume ev: "evaluateLevels sv rq (levelInputs rq (cp_Levels plan)) (startCounts plan) = Inr (os, rs, c)"
    and r: "er_LevelOutcomes res = os" "er_RecordResult res = er_RecordResult (startResult os rs c)"
  have m: "map (Some \<circ> lv_Result) rs = filter (\<lambda>x. x \<noteq> None) (map lo_Result os)"
    using evaluateLevels_spec [OF ev] by blast
  have "rs = [] \<longleftrightarrow> (\<forall>r. Some r \<notin> lo_Result ` set os)"
    unfolding results_of_outcomes(2) [OF m] by (metis imageE image_eqI not_None_eq)
  moreover have "(\<forall>r. Some r \<notin> lo_Result ` set os) \<longleftrightarrow> Some LevelResultAbnormal \<notin> lo_Result ` set os
      \<and> Some LevelResultRecovery \<notin> lo_Result ` set os \<and> Some LevelResultNormal \<notin> lo_Result ` set os"
    by (metis LevelResult.exhaust)
  ultimately show ?thesis unfolding r
    by (auto simp: startResult_def aggregateRecordResultV2_def aggregateLoop_cases results_of_outcomes(1) [OF m])
qed

text \<open>A request for the example Level under a Plan of the standard protocol with one open alert.\<close>

definition examplePlan :: CompiledPlan where
  "examplePlan = \<lparr>cp_Levels = [exampleLevel],
     cp_StrategyRef = \<lparr>sr_TenantID = ''t'', sr_StrategyID = ''7'', sr_SnapshotRevision = 1\<rparr>,
     cp_OutputIdentity = Some ''id'', cp_LegacyOutput = None, cp_PublishesCompatibleProtocol = False,
     cp_WireFormat = WireFormatStandardRawEvent, cp_CompatibleOffBoundary = (\<lambda>_. False), cp_SignalType = ''event''\<rparr>"

definition exampleLimits :: EvaluationLimitsV2 where
  "exampleLimits = \<lparr>el_MaxLevels = 3, el_MaxTriggerWindowSize = 5, el_MaxRecoveryConsecutiveWindows = 5,
     el_MaxRequiredHistoryPoints = 9, el_MaxLevelResultsPerEvent = 3, el_MaxEvidenceBytesPerEvent = 100, el_MaxComputeCost = 100\<rparr>"

definition exampleRequest :: EvaluationRequestV2 where
  "exampleRequest = \<lparr>rq_TenantID = ''t'', rq_BusinessID = ''2'', rq_Plan = Some examplePlan, rq_Record = exampleRecord,
     rq_RefRecordID = ''r'', rq_RefSourceTime = 120, rq_Dimensions = Some [], rq_ObservedValues = Some [],
     rq_Histories = [(1, Some (levelViewOf (\<lambda>_. []) None exampleView))], rq_EffectiveTimeFacts = [(1, exampleEffective)],
     rq_EvaluationTime = 130, rq_ExecutionID = ''x'', rq_LateAccepted = False, rq_Limits = exampleLimits,
     rq_OpenAlerts = Some \<lparr>oa_Contains = (\<lambda>tenant strategy md5. md5 = ''abc''), oa_OneTimeClose = None\<rparr>,
     rq_HoldRecovery = None\<rparr>"

definition exampleServices :: EventServices where
  "exampleServices = \<lparr>sv_levelUnavailableReason = (\<lambda>_. False), sv_dedupeMD5 = (\<lambda>_ _ _. Some ''abc''),
     sv_buildTriggerEvent = (\<lambda>_ rs _. Some \<lparr>be_PrimaryLevelID = 1, be_LevelResults = rs\<rparr>),
     sv_projectSubject = (\<lambda>identity. Some identity)\<rparr>"

lemma exampleRequest_valid: "validateRequestV2 exampleRequest = Inr examplePlan"
  by (simp add: validateRequestV2_def exampleRequest_def examplePlan_def exampleLimits_def validLimits_def Let_def
      levelInputs_def u32_def maxUint64_def trigger_example_defs required_example [unfolded exampleLevel_def, simplified])

lemma exampleRequest_evaluates:
  "\<exists>res. EvaluateV2 exampleServices exampleRequest = Inr res \<and> er_RecordResult res = Some LevelResultRecovery
    \<and> er_TriggerEvent res \<noteq> None"
proof -
  obtain o' r where e: "evaluateLevelV2 exampleRecord False exampleLevel exampleFact (levelViewOf (\<lambda>_. []) None exampleView)
      exampleEffective StateAdvance = Inr (o', r)" "lo_Result o' = Some LevelResultRecovery"
    using recovery_example by blast
  have r: "lo_Result o' = map_option lv_Result r" by (rule evaluateLevelV2_result [OF e(1)])
  have dp: "lo_StateDisposition o' = StateAdvance"
    using e(1) by (rule evaluateLevelV2_disposition)
  have el: "EvaluateStateEligibilityV2 p 130 exampleLevel exampleFact exampleEffective = Inr StateAdvance" for p
    using digest_example by (simp add: EvaluateStateEligibilityV2_def validateEffectiveTimeFactV2_def trigger_example_defs)
  have ev: "evaluateLevels exampleServices exampleRequest (levelInputs exampleRequest [exampleLevel]) c
      = Inr ([o'], [the r], addTally [o'] c)" for c
  proof -
    have "levelInputs exampleRequest [exampleLevel]
        = [(exampleLevel, exampleFact, (1, Some (levelViewOf (\<lambda>_. []) None exampleView)), (1, exampleEffective))]"
      by (simp add: levelInputs_def exampleRequest_def exampleRecord_def)
    moreover have "tallyCounts o' c = Some (addTally [o'] c)"
      unfolding tallyCounts_addTally using e(2) by (simp add: classified_def)
    ultimately show ?thesis using e el dp by (simp add: exampleRequest_def holdRecovery_def)
  qed
  have "lv_Result (the r) = LevelResultRecovery" using r e(2) by (cases r) auto
  then have ag: "aggregateRecordResultV2 [the r] = LevelResultRecovery" by (simp add: aggregateRecordResultV2_def)
  have dd: "dedupeIdentity exampleServices exampleRequest examplePlan = Inr ''abc''"
    by (simp add: dedupeIdentity_def examplePlan_def exampleRequest_def exampleServices_def parseInt64_def digitsValue_def
        Let_def less_char_def maxInt64_def)
  note d = examplePlan_def exampleRequest_def exampleLimits_def exampleServices_def
  have lv: "cp_Levels examplePlan = [exampleLevel]" "cp_WireFormat examplePlan = WireFormatStandardRawEvent"
    "cp_LegacyOutput examplePlan = None" "cp_OutputIdentity examplePlan = Some ''id''"
    by (simp_all add: d)
  have og: "rg_Held (openAlertGateV2 (recoveryGateV2 os) exampleRequest examplePlan strategy ''abc'') = False" for os strategy
    by (simp add: openAlertGateV2_def lv) (simp add: d oneTimeClose_def recoveryGateV2_held)
  have sv: "sv_buildTriggerEvent exampleServices k rs x = Some \<lparr>be_PrimaryLevelID = 1, be_LevelResults = rs\<rparr>"
    "sv_projectSubject exampleServices i = Some i" "el_MaxLevelResultsPerEvent (rq_Limits exampleRequest) = 3" for k rs x i
    by (simp_all add: d)
  show ?thesis
    unfolding EvaluateV2_def exampleRequest_valid sum.case Let_def lv(1) ev prod.case
    by (simp add: ag publishEvent_def dd Let_def u32_def og NoMessageForAt_def completeEvent_def lv sv)
qed

theorem evaluation_counts_exact_witness:
  "\<exists>res. EvaluateV2 exampleServices exampleRequest = Inr res
     \<and> ec_Levels (er_Counts res) = ec_Evaluated (er_Counts res) + ec_Suppressed (er_Counts res) + ec_Unavailable (er_Counts res)
     \<and> ec_Events (er_Counts res) = 1"
proof -
  obtain res where res: "EvaluateV2 exampleServices exampleRequest = Inr res" "er_TriggerEvent res \<noteq> None"
    using exampleRequest_evaluates by blast
  from evaluation_counts_exact [OF res(1)] res show ?thesis by (intro exI [of _ res]) simp
qed

text \<open>
  C19: an event is never published without cause.  The record's result is ABNORMAL with an ABNORMAL
  Level, or it is RECOVERY with a recovered Level and no ABNORMAL one; and under the standard
  protocol a RECOVERY event is published only for a fingerprint the open alerts contain, never when
  the fingerprint is unknown.
\<close>

theorem event_has_cause:
  assumes "EvaluateV2 sv rq = Inr res" and "er_TriggerEvent res = Some e"
  shows "(er_RecordResult res = Some LevelResultAbnormal \<and> Some LevelResultAbnormal \<in> lo_Result ` set (er_LevelOutcomes res))
    \<or> (er_RecordResult res = Some LevelResultRecovery \<and> Some LevelResultRecovery \<in> lo_Result ` set (er_LevelOutcomes res)
       \<and> Some LevelResultAbnormal \<notin> lo_Result ` set (er_LevelOutcomes res)
       \<and> (\<forall>plan alerts. rq_Plan rq = Some plan \<and> cp_WireFormat plan = WireFormatStandardRawEvent
             \<and> rq_OpenAlerts rq = Some alerts \<longrightarrow> te_DedupeMD5 e \<noteq> []
             \<and> oa_Contains alerts (rq_TenantID rq) (sr_StrategyID (cp_StrategyRef plan)) (te_DedupeMD5 e)))"
proof (rule EvaluateV2_cases [OF assms(1)])
  fix plan os rs c
  let ?s = "startResult os rs c"
  assume v: "validateRequestV2 rq = Inr plan" and
    p: "res = ?s \<or> er_RecordResult ?s \<in> {Some LevelResultAbnormal, Some LevelResultRecovery}
        \<and> publishEvent sv rq plan (the (er_RecordResult ?s)) rs ?s = Inr res"
  have s: "er_TriggerEvent ?s = None" by (simp add: startResult_def)
  with p assms(2) have pub: "er_RecordResult ?s \<in> {Some LevelResultAbnormal, Some LevelResultRecovery}"
    "publishEvent sv rq plan (the (er_RecordResult ?s)) rs ?s = Inr res" by auto
  have rr: "er_RecordResult res = er_RecordResult ?s" by (rule publishEvent_frame(2) [OF pub(2) s])
  have plan: "rq_Plan rq = Some plan" using v by (auto simp: validateRequestV2_def Let_def split: option.splits if_splits sum.splits)
  have "\<not> rg_Held (openAlertGateV2 (er_RecoveryGate ?s) rq plan (sr_StrategyID (cp_StrategyRef plan)) (te_DedupeMD5 e))"
    if "er_RecordResult ?s = Some LevelResultRecovery"
    using publishEvent_recovery [OF _ s assms(2)] pub(2) that by simp
  then have "te_DedupeMD5 e \<noteq> [] \<and> oa_Contains alerts (rq_TenantID rq) (sr_StrategyID (cp_StrategyRef plan)) (te_DedupeMD5 e)"
    if "er_RecordResult ?s = Some LevelResultRecovery" "cp_WireFormat plan = WireFormatStandardRawEvent"
      "rq_OpenAlerts rq = Some alerts" for alerts
    using that by (auto simp: openAlertGateV2_def split: if_splits)
  with pub(1) rr plan record_result_cases [OF assms(1)] show ?thesis by (auto split: if_splits)
qed

theorem event_has_cause_witness:
  "\<exists>res e. EvaluateV2 exampleServices exampleRequest = Inr res \<and> er_TriggerEvent res = Some e \<and> te_DedupeMD5 e = ''abc''"
proof -
  obtain res e where res: "EvaluateV2 exampleServices exampleRequest = Inr res" "er_TriggerEvent res = Some e"
    "er_RecordResult res = Some LevelResultRecovery"
    using exampleRequest_evaluates by blast
  from event_has_cause [OF res(1,2)] res show ?thesis by (auto simp: exampleRequest_def examplePlan_def)
qed

text \<open>
  The record's result is the worst of its Levels: ABNORMAL if any Level is ABNORMAL, else RECOVERY
  if any recovered, else NORMAL if any was evaluated, else none.
\<close>

theorem record_result_dominance:
  assumes "EvaluateV2 sv rq = Inr res"
  shows "er_RecordResult res =
    (if Some LevelResultAbnormal \<in> lo_Result ` set (er_LevelOutcomes res) then Some LevelResultAbnormal
     else if Some LevelResultRecovery \<in> lo_Result ` set (er_LevelOutcomes res) then Some LevelResultRecovery
     else if Some LevelResultNormal \<in> lo_Result ` set (er_LevelOutcomes res) then Some LevelResultNormal else None)"
  by (rule record_result_cases [OF assms])

theorem record_result_dominance_witness:
  "\<exists>res. EvaluateV2 exampleServices exampleRequest = Inr res
     \<and> Some LevelResultAbnormal \<notin> lo_Result ` set (er_LevelOutcomes res)
     \<and> Some LevelResultRecovery \<in> lo_Result ` set (er_LevelOutcomes res)"
proof -
  obtain res where res: "EvaluateV2 exampleServices exampleRequest = Inr res" "er_RecordResult res = Some LevelResultRecovery"
    using exampleRequest_evaluates by blast
  from record_result_dominance [OF res(1)] res show ?thesis by (auto split: if_splits)
qed

end
