(* ===== verification/KeyGate.thy ===== *)
theory KeyGate
  imports Prelude
begin

text \<open>
  The gate of \<open>worker/ordered_key_gate.go\<close>: tasks register the runtime keys they will touch in
  receive order; a task enters its stateful phase when it heads the queue of each of its keys.

  A reservation is an object with identity.  A sequence number is registered once, so the object a
  pointer names is the one with that number, and the heap of reservations is a map from numbers to
  objects: it keeps an object after the gate has forgotten it, as its owner does.  An absent queue and
  an empty one read the same.  The keys of the map \<open>reservations\<close> are a list without duplicates.
  Every operation runs under the gate's mutex, so operations are atomic steps.  Closing a closed
  channel panics in Go and is \<open>None\<close> here.
\<close>

section \<open>Data\<close>

record RuntimeKey =
  rk_TenantID :: string
  rk_BusinessID :: string
  rk_StrategyID :: string
  rk_StateCompatibilityHash :: string
  rk_DimensionIdentityDigest :: string

record KeyReservation =
  kr_keys :: "RuntimeKey list"
  kr_ready :: bool
  kr_canceled :: bool
  kr_granted :: bool
  kr_done :: bool

record OrderedKeyGate =
  og_objects :: "nat \<rightharpoonup> KeyReservation"
  og_queues :: "RuntimeKey \<Rightarrow> nat list"
  og_held :: "RuntimeKey \<rightharpoonup> nat"
  og_reservations :: "nat list"
  og_lastSequence :: nat
  og_hasSequence :: bool

datatype GateError = GateRequired | NotInReceiveOrder

section \<open>Canonical keys\<close>

definition runtimeKeyLess :: "RuntimeKey \<Rightarrow> RuntimeKey \<Rightarrow> bool" where
  "runtimeKeyLess l r =
     (if rk_TenantID l \<noteq> rk_TenantID r then rk_TenantID l < rk_TenantID r
      else if rk_BusinessID l \<noteq> rk_BusinessID r then rk_BusinessID l < rk_BusinessID r
      else if rk_StrategyID l \<noteq> rk_StrategyID r then rk_StrategyID l < rk_StrategyID r
      else if rk_StateCompatibilityHash l \<noteq> rk_StateCompatibilityHash r
      then rk_StateCompatibilityHash l < rk_StateCompatibilityHash r
      else rk_DimensionIdentityDigest l < rk_DimensionIdentityDigest r)"

text \<open>
  The comparison is the lexicographic order of the five fields, so a key is determined by them and
  \<open>sort.Slice\<close> with it has one result.
\<close>

definition keyFields :: "RuntimeKey \<Rightarrow> string list" where
  "keyFields k = [rk_TenantID k, rk_BusinessID k, rk_StrategyID k, rk_StateCompatibilityHash k,
     rk_DimensionIdentityDigest k]"

lemma runtimeKeyLess_fields: "runtimeKeyLess l r \<longleftrightarrow> keyFields l < keyFields r"
  by (simp add: runtimeKeyLess_def keyFields_def)

lemma keyFields_inject [simp]: "keyFields l = keyFields r \<longleftrightarrow> l = r"
  by (cases l; cases r) (auto simp: keyFields_def)

fun compactKeys :: "RuntimeKey list \<Rightarrow> RuntimeKey list \<Rightarrow> RuntimeKey list" where
  "compactKeys written [] = written"
| "compactKeys written (k # ks) =
     (if written \<noteq> [] \<and> last written = k then compactKeys written ks else compactKeys (written @ [k]) ks)"

definition canonicalRuntimeKeys :: "RuntimeKey list \<Rightarrow> RuntimeKey list" where
  "canonicalRuntimeKeys keys = compactKeys [] (sort_key keyFields keys)"

section \<open>The gate\<close>

definition NewOrderedKeyGate :: OrderedKeyGate where
  "NewOrderedKeyGate = \<lparr>og_objects = Map.empty, og_queues = (\<lambda>_. []), og_held = Map.empty,
     og_reservations = [], og_lastSequence = 0, og_hasSequence = False\<rparr>"

definition canGrantLocked :: "OrderedKeyGate \<Rightarrow> nat \<Rightarrow> KeyReservation \<Rightarrow> bool" where
  "canGrantLocked gate s r =
     list_all (\<lambda>k. og_queues gate k \<noteq> [] \<and> hd (og_queues gate k) = s \<and> og_held gate k = None) (kr_keys r)"

definition grantReservation :: "OrderedKeyGate \<Rightarrow> nat \<Rightarrow> KeyReservation \<Rightarrow> OrderedKeyGate option" where
  "grantReservation gate s r =
     (if kr_ready r then None
      else Some (gate\<lparr>og_objects := (og_objects gate)(s \<mapsto> r\<lparr>kr_granted := True, kr_ready := True\<rparr>),
                      og_held := fold (\<lambda>k held. held(k \<mapsto> s)) (kr_keys r) (og_held gate)\<rparr>))"

fun tryGrantLoop :: "nat list \<Rightarrow> OrderedKeyGate \<Rightarrow> OrderedKeyGate option" where
  "tryGrantLoop [] gate = Some gate"
| "tryGrantLoop (s # ss) gate =
     (case og_objects gate s of
        None \<Rightarrow> tryGrantLoop ss gate
      | Some r \<Rightarrow>
          if kr_done r \<or> kr_granted r \<or> \<not> canGrantLocked gate s r then tryGrantLoop ss gate
          else (case grantReservation gate s r of
                  None \<Rightarrow> None
                | Some gate' \<Rightarrow> tryGrantLoop ss gate'))"

definition tryGrantLocked :: "OrderedKeyGate \<Rightarrow> OrderedKeyGate option" where
  "tryGrantLocked gate = tryGrantLoop (sort (og_reservations gate)) gate"

definition enqueueKeys :: "nat \<Rightarrow> RuntimeKey list \<Rightarrow> (RuntimeKey \<Rightarrow> nat list) \<Rightarrow> (RuntimeKey \<Rightarrow> nat list)" where
  "enqueueKeys s ks queues = fold (\<lambda>k q. q(k := q k @ [s])) ks queues"

definition Register :: "OrderedKeyGate option \<Rightarrow> nat \<Rightarrow> RuntimeKey list \<Rightarrow> (GateError + OrderedKeyGate) option" where
  "Register nilable s keys0 =
     (case nilable of
        None \<Rightarrow> Some (Inl GateRequired)
      | Some gate \<Rightarrow>
          (let keys = canonicalRuntimeKeys keys0;
               r = \<lparr>kr_keys = keys, kr_ready = False, kr_canceled = False, kr_granted = False, kr_done = False\<rparr>
           in if og_hasSequence gate \<and> s \<le> og_lastSequence gate then Some (Inl NotInReceiveOrder)
              else map_option Inr (tryGrantLocked (gate\<lparr>og_lastSequence := s, og_hasSequence := True,
                     og_objects := (og_objects gate)(s \<mapsto> r),
                     og_reservations := og_reservations gate @ [s],
                     og_queues := enqueueKeys s keys (og_queues gate)\<rparr>))))"

definition dequeueKeys ::
  "nat \<Rightarrow> RuntimeKey list \<Rightarrow> (RuntimeKey \<Rightarrow> nat list) \<times> (RuntimeKey \<rightharpoonup> nat) \<Rightarrow> (RuntimeKey \<Rightarrow> nat list) \<times> (RuntimeKey \<rightharpoonup> nat)" where
  "dequeueKeys s ks qh =
     fold (\<lambda>k (queues, held). (queues(k := remove1 s (queues k)),
                               if held k = Some s then held(k := None) else held)) ks qh"

definition finishReservation :: "OrderedKeyGate \<Rightarrow> nat \<Rightarrow> bool \<Rightarrow> OrderedKeyGate option" where
  "finishReservation gate s canceled =
     (case og_objects gate s of
        None \<Rightarrow> Some gate
      | Some r \<Rightarrow>
          if kr_done r \<or> s \<notin> set (og_reservations gate) then Some gate
          else
            (let (queues, held) = dequeueKeys s (kr_keys r) (og_queues gate, og_held gate)
             in if canceled \<and> kr_canceled r then None
                else tryGrantLocked (gate\<lparr>
                  og_objects := (og_objects gate)(s \<mapsto> r\<lparr>kr_done := True, kr_canceled := kr_canceled r \<or> canceled\<rparr>),
                  og_reservations := removeAll s (og_reservations gate), og_queues := queues, og_held := held\<rparr>)))"

text \<open>A nil handle is \<open>None\<close>.\<close>

definition Release :: "OrderedKeyGate \<Rightarrow> nat option \<Rightarrow> OrderedKeyGate option" where
  "Release gate handle = (case handle of None \<Rightarrow> Some gate | Some s \<Rightarrow> finishReservation gate s False)"

definition Cancel :: "OrderedKeyGate \<Rightarrow> nat option \<Rightarrow> OrderedKeyGate option" where
  "Cancel gate handle = (case handle of None \<Rightarrow> Some gate | Some s \<Rightarrow> finishReservation gate s True)"

datatype WaitResult = WaitEntered | WaitCanceled | WaitContextError | WaitHandleRequired | WaitContextRequired

text \<open>
  What \<open>Wait\<close> may return: \<open>err\<close> is \<open>ctx.Err() \<noteq> nil\<close> at the call and \<open>late\<close> when the select wakes; a
  select with several ready cases may take any of them, and with none it blocks and returns nothing.
\<close>

definition WaitOutcomes :: "KeyReservation option \<Rightarrow> (bool \<times> bool) option \<Rightarrow> WaitResult list" where
  "WaitOutcomes reservation ctx =
     (case reservation of
        None \<Rightarrow> [WaitHandleRequired]
      | Some r \<Rightarrow>
          (case ctx of
             None \<Rightarrow> [WaitContextRequired]
           | Some (err, late) \<Rightarrow>
               if err then [WaitContextError]
               else (if kr_ready r then [if late then WaitContextError else WaitEntered] else [])
                  @ (if kr_canceled r then [WaitCanceled] else [])
                  @ (if late then [WaitContextError] else [])))"

end
