(* ===== verification/KeyGate_Correct.thy ===== *)
theory KeyGate_Correct
  imports KeyGate
begin

text \<open>
  Correctness of the key gate.  The queues are a function of the live reservations, and in every
  reachable gate a live reservation is granted exactly when no earlier live one shares a key with it:
  mutual exclusion, receive order and progress follow.
\<close>

section \<open>Canonical keys\<close>

lemma compactKeys_set: "set (compactKeys written ks) = set written \<union> set ks"
  by (induction written ks rule: compactKeys.induct) auto

lemma strict_snoc:
  fixes f :: "'a \<Rightarrow> 'b :: linorder"
  assumes "sorted_wrt (<) (map f xs)" "sorted (map f (xs @ [k]))" "xs = [] \<or> f (last xs) \<noteq> f k"
  shows "sorted_wrt (<) (map f (xs @ [k]))"
proof (cases xs rule: rev_cases)
  case (snoc ws w)
  have "f w < f k" using assms(2,3) snoc by (auto simp: sorted_append)
  moreover have "\<forall>x \<in> set ws. f x < f w" using assms(1) snoc by (auto simp: sorted_wrt_append)
  ultimately show ?thesis using assms(1) snoc by (auto simp: sorted_wrt_append intro: less_trans)
qed simp

lemma compactKeys_sorted:
  assumes "sorted (map keyFields (written @ ks))" "sorted_wrt (<) (map keyFields written)"
  shows "sorted_wrt (<) (map keyFields (compactKeys written ks))"
  using assms
proof (induction written ks rule: compactKeys.induct)
  case (2 written k ks)
  show ?case
  proof (cases "written \<noteq> [] \<and> last written = k")
    case True
    have "sorted (map keyFields (written @ ks))" using "2.prems"(1) by (simp add: sorted_append)
    from "2.IH"(1) [OF True this "2.prems"(2)] True show ?thesis by simp
  next
    case False
    have "sorted (map keyFields (written @ [k]))" using "2.prems"(1) by (simp add: sorted_append)
    from strict_snoc [OF "2.prems"(2) this] False have "sorted_wrt (<) (map keyFields (written @ [k]))"
      unfolding keyFields_inject by blast
    from "2.IH"(2) [OF False _ this] "2.prems"(1) False show ?thesis by auto
  qed
qed simp

lemma canonicalRuntimeKeys_spec:
  "sorted_wrt (<) (map keyFields (canonicalRuntimeKeys keys))" "set (canonicalRuntimeKeys keys) = set keys"
  "distinct (canonicalRuntimeKeys keys)"
proof -
  show s: "sorted_wrt (<) (map keyFields (canonicalRuntimeKeys keys))" and "set (canonicalRuntimeKeys keys) = set keys"
    using compactKeys_sorted [of "[]" "sort_key keyFields keys"] by (simp_all add: canonicalRuntimeKeys_def compactKeys_set)
  from s have "distinct (map keyFields (canonicalRuntimeKeys keys))" by (simp add: strict_sorted_iff)
  then show "distinct (canonicalRuntimeKeys keys)" by (simp add: distinct_map)
qed

section \<open>The invariant\<close>

abbreviation live :: "OrderedKeyGate \<Rightarrow> nat set" where "live g \<equiv> set (og_reservations g)"

definition keysOf :: "OrderedKeyGate \<Rightarrow> nat \<Rightarrow> RuntimeKey set" where
  "keysOf g s = (case og_objects g s of None \<Rightarrow> {} | Some r \<Rightarrow> set (kr_keys r))"

definition grantedIn :: "OrderedKeyGate \<Rightarrow> nat \<Rightarrow> bool" where
  "grantedIn g s = (case og_objects g s of None \<Rightarrow> False | Some r \<Rightarrow> kr_granted r)"

text \<open>No live reservation registered before \<open>s\<close> shares a key with it.\<close>

definition clear :: "OrderedKeyGate \<Rightarrow> nat \<Rightarrow> bool" where
  "clear g s \<longleftrightarrow> (\<forall>s' \<in> live g. s' < s \<longrightarrow> keysOf g s' \<inter> keysOf g s = {})"

definition object_ok :: "KeyReservation \<Rightarrow> bool" where
  "object_ok r \<longleftrightarrow> distinct (kr_keys r) \<and> kr_ready r = kr_granted r"

definition inv_gate :: "OrderedKeyGate \<Rightarrow> bool" where
  "inv_gate g \<longleftrightarrow> sorted_wrt (<) (og_reservations g)
     \<and> (\<forall>s \<in> live g. \<exists>r. og_objects g s = Some r \<and> object_ok r \<and> \<not> kr_done r \<and> \<not> kr_canceled r)
     \<and> (\<forall>k. og_queues g k = filter (\<lambda>s. k \<in> keysOf g s) (og_reservations g))
     \<and> (\<forall>k s. og_held g k = Some s \<longleftrightarrow> s \<in> live g \<and> grantedIn g s \<and> k \<in> keysOf g s)
     \<and> (\<forall>s \<in> live g. grantedIn g s \<longrightarrow> clear g s)
     \<and> (\<forall>s. og_objects g s \<noteq> None \<longrightarrow> og_hasSequence g \<and> s \<le> og_lastSequence g)"

lemma inv_gateD:
  assumes "inv_gate g"
  shows "sorted_wrt (<) (og_reservations g)"
    and "s \<in> live g \<Longrightarrow> \<exists>r. og_objects g s = Some r \<and> object_ok r \<and> \<not> kr_done r \<and> \<not> kr_canceled r"
    and "og_queues g k = filter (\<lambda>s. k \<in> keysOf g s) (og_reservations g)"
    and "og_held g k = Some s \<longleftrightarrow> s \<in> live g \<and> grantedIn g s \<and> k \<in> keysOf g s"
    and "s \<in> live g \<Longrightarrow> grantedIn g s \<Longrightarrow> clear g s"
    and "og_objects g s \<noteq> None \<Longrightarrow> og_hasSequence g \<and> s \<le> og_lastSequence g"
  using assms by (auto simp: inv_gate_def)

lemma hd_queue:
  assumes "inv_gate g" "s \<in> live g" "k \<in> keysOf g s"
  shows "og_queues g k \<noteq> [] \<and> (hd (og_queues g k) = s \<longleftrightarrow> (\<forall>s' \<in> live g. k \<in> keysOf g s' \<longrightarrow> s \<le> s'))"
proof -
  let ?q = "filter (\<lambda>s. k \<in> keysOf g s) (og_reservations g)"
  have s: "s \<in> set ?q" using assms(2,3) by simp
  then obtain x xs where q: "?q = x # xs" by (cases ?q) auto
  have "sorted_wrt (<) ?q" using inv_gateD(1) [OF assms(1)] by (rule sorted_wrt_filter)
  then have le: "\<forall>y \<in> set ?q. x \<le> y" unfolding q by auto
  have x: "x \<in> set ?q" by (simp add: q)
  have "hd ?q = s \<longleftrightarrow> (\<forall>s' \<in> set ?q. s \<le> s')"
  proof
    assume "hd ?q = s"
    then show "\<forall>s' \<in> set ?q. s \<le> s'" using le q by simp
  next
    assume "\<forall>s' \<in> set ?q. s \<le> s'"
    with x le s show "hd ?q = s" unfolding q by (metis list.sel(1) order_antisym)
  qed
  moreover have "?q \<noteq> []" by (simp only: q) simp
  ultimately show ?thesis unfolding inv_gateD(3) [OF assms(1)] by auto
qed

text \<open>The gate grants a waiting reservation exactly when nothing earlier and live shares a key.\<close>

lemma canGrantLocked_clear:
  assumes inv: "inv_gate g" and s: "s \<in> live g" and r: "og_objects g s = Some r" "\<not> kr_granted r"
  shows "canGrantLocked g s r \<longleftrightarrow> clear g s"
proof
  assume can: "canGrantLocked g s r"
  show "clear g s" unfolding clear_def
  proof (intro ballI impI)
    fix s' assume s': "s' \<in> live g" "s' < s"
    have "k \<notin> keysOf g s'" if "k \<in> keysOf g s" for k
    proof -
      have "hd (og_queues g k) = s" using can that r by (auto simp: canGrantLocked_def list_all_iff keysOf_def)
      with hd_queue [OF inv s that] s' show ?thesis by auto
    qed
    then show "keysOf g s' \<inter> keysOf g s = {}" by blast
  qed
next
  assume cl: "clear g s"
  have "og_queues g k \<noteq> [] \<and> hd (og_queues g k) = s \<and> og_held g k = None" if "k \<in> keysOf g s" for k
  proof -
    have "\<forall>s' \<in> live g. k \<in> keysOf g s' \<longrightarrow> s \<le> s'" using cl that by (auto simp: clear_def not_less [symmetric])
    moreover have "og_held g k = None"
    proof (rule ccontr)
      assume "og_held g k \<noteq> None"
      then obtain s' where h: "s' \<in> live g" "grantedIn g s'" "k \<in> keysOf g s'"
        using inv_gateD(4) [OF inv] by blast
      have "s' \<noteq> s" using h(2) r by (auto simp: grantedIn_def)
      moreover have "s \<le> s'" using \<open>\<forall>s' \<in> live g. k \<in> keysOf g s' \<longrightarrow> s \<le> s'\<close> h by blast
      ultimately have "s < s'" by simp
      with inv_gateD(5) [OF inv h(1,2)] s that h(3) show False by (auto simp: clear_def)
    qed
    ultimately show ?thesis using hd_queue [OF inv s that] by blast
  qed
  then show "canGrantLocked g s r" using r by (simp add: canGrantLocked_def list_all_iff keysOf_def)
qed

section \<open>Granting\<close>

lemma fold_held: "fold (\<lambda>k held. held(k \<mapsto> s)) ks held k = (if k \<in> set ks then Some s else held k)"
  by (induction ks arbitrary: held) auto

text \<open>What the operations keep apart from who is granted.\<close>

definition same_tasks :: "OrderedKeyGate \<Rightarrow> OrderedKeyGate \<Rightarrow> bool" where
  "same_tasks g g' \<longleftrightarrow> og_reservations g' = og_reservations g \<and> keysOf g' = keysOf g
     \<and> og_hasSequence g' = og_hasSequence g \<and> og_lastSequence g' = og_lastSequence g"

lemma same_tasks_clear: "same_tasks g g' \<Longrightarrow> clear g' = clear g"
  by (simp add: same_tasks_def clear_def fun_eq_iff)

lemma grantReservation_spec:
  assumes inv: "inv_gate g" and s: "s \<in> live g" "og_objects g s = Some r" "\<not> kr_granted r" and cl: "clear g s"
  shows "\<exists>g'. grantReservation g s r = Some g' \<and> inv_gate g' \<and> same_tasks g g'
    \<and> (\<forall>x. grantedIn g' x \<longleftrightarrow> grantedIn g x \<or> x = s)"
proof -
  have ok: "object_ok r" "\<not> kr_done r" "\<not> kr_canceled r" using inv_gateD(2) [OF inv s(1)] s(2) by auto
  then have "\<not> kr_ready r" using s(3) by (simp add: object_ok_def)
  then obtain g' where g': "grantReservation g s r = Some g'" by (simp add: grantReservation_def)
  then have e: "og_objects g' = (og_objects g)(s \<mapsto> r\<lparr>kr_granted := True, kr_ready := True\<rparr>)"
    "og_held g' = fold (\<lambda>k held. held(k \<mapsto> s)) (kr_keys r) (og_held g)"
    "og_reservations g' = og_reservations g" "og_queues g' = og_queues g"
    "og_hasSequence g' = og_hasSequence g" "og_lastSequence g' = og_lastSequence g"
    using \<open>\<not> kr_ready r\<close> by (auto simp: grantReservation_def)
  have ks: "keysOf g' = keysOf g" using s(2) by (auto simp: fun_eq_iff keysOf_def e)
  have kr: "keysOf g s = set (kr_keys r)" using s(2) by (simp add: keysOf_def)
  have gr: "grantedIn g' x \<longleftrightarrow> grantedIn g x \<or> x = s" for x by (simp add: grantedIn_def e)
  have same: "same_tasks g g'" by (simp add: same_tasks_def ks e)
  have held: "og_held g' k = Some x \<longleftrightarrow> x \<in> live g \<and> (grantedIn g x \<or> x = s) \<and> k \<in> keysOf g x" for k x
  proof (cases "k \<in> set (kr_keys r)")
    case True
    have "x = s" if "x \<in> live g" "grantedIn g x" "k \<in> keysOf g x"
    proof (rule ccontr)
      assume "x \<noteq> s"
      then consider "x < s" | "s < x" by linarith
      then show False
        using cl inv_gateD(5) [OF inv that(1,2)] that s(1) True kr by cases (auto simp: clear_def)
    qed
    with True s(1) kr show ?thesis by (auto simp: e fold_held)
  next
    case False
    then show ?thesis using inv_gateD(4) [OF inv, of k x] kr by (auto simp: e fold_held)
  qed
  have sq: "og_hasSequence g" "s \<le> og_lastSequence g" using inv_gateD(6) [OF inv, of s] s(2) by auto
  have "inv_gate g'"
    using inv held cl ok unfolding inv_gate_def same_tasks_clear [OF same] ks e(3-6) gr
    by (auto simp: e(1) object_ok_def sq)
  with g' same gr show ?thesis by blast
qed

lemma tryGrantLoop_spec:
  assumes "inv_gate g" "set ss \<subseteq> live g"
  shows "\<exists>g'. tryGrantLoop ss g = Some g' \<and> inv_gate g' \<and> same_tasks g g'
    \<and> (\<forall>x. grantedIn g' x \<longleftrightarrow> grantedIn g x \<or> (x \<in> set ss \<and> clear g x))"
  using assms
proof (induction ss arbitrary: g)
  case Nil
  then show ?case by (simp add: same_tasks_def)
next
  case (Cons s ss)
  have s: "s \<in> live g" using Cons.prems by simp
  from inv_gateD(2) [OF Cons.prems(1) s] obtain r where r: "og_objects g s = Some r" "\<not> kr_done r" by blast
  show ?case
  proof (cases "kr_granted r \<or> \<not> clear g s")
    case True
    then have "tryGrantLoop (s # ss) g = tryGrantLoop ss g"
      using r canGrantLocked_clear [OF Cons.prems(1) s r(1)] by auto
    moreover have "grantedIn g s \<or> \<not> clear g s" using True r by (simp add: grantedIn_def)
    ultimately show ?thesis using Cons.IH [OF Cons.prems(1)] Cons.prems(2) by auto
  next
    case False
    with grantReservation_spec [OF Cons.prems(1) s r(1)] obtain g1 where
      g1: "grantReservation g s r = Some g1" "inv_gate g1" "same_tasks g g1" "\<forall>x. grantedIn g1 x \<longleftrightarrow> grantedIn g x \<or> x = s"
      by blast
    have "tryGrantLoop (s # ss) g = tryGrantLoop ss g1"
      using r False canGrantLocked_clear [OF Cons.prems(1) s r(1)] g1(1) by auto
    moreover have "set ss \<subseteq> live g1" using Cons.prems(2) g1(3) by (simp add: same_tasks_def)
    ultimately obtain g' where g': "tryGrantLoop (s # ss) g = Some g'" "inv_gate g'" "same_tasks g1 g'"
      "\<forall>x. grantedIn g' x \<longleftrightarrow> grantedIn g1 x \<or> (x \<in> set ss \<and> clear g1 x)" using Cons.IH [OF g1(2)] by auto
    moreover have "same_tasks g g'" using g1(3) g'(3) by (simp add: same_tasks_def)
    moreover have "\<forall>x. grantedIn g' x \<longleftrightarrow> grantedIn g x \<or> (x \<in> set (s # ss) \<and> clear g x)"
      using g'(4) g1(4) False same_tasks_clear [OF g1(3)] by auto
    ultimately show ?thesis by blast
  qed
qed

text \<open>A settled gate: the live reservations granted are exactly the clear ones.\<close>

definition settled :: "OrderedKeyGate \<Rightarrow> bool" where
  "settled g \<longleftrightarrow> inv_gate g \<and> (\<forall>s \<in> live g. grantedIn g s \<longleftrightarrow> clear g s)"

lemma tryGrantLocked_settles:
  assumes "inv_gate g"
  obtains g' where "tryGrantLocked g = Some g'" "settled g'" "same_tasks g g'"
    "\<forall>x. grantedIn g x \<longrightarrow> grantedIn g' x"
proof -
  from tryGrantLoop_spec [OF assms, of "sort (og_reservations g)"] obtain g' where
    g': "tryGrantLocked g = Some g'" "inv_gate g'" "same_tasks g g'"
    "\<forall>x. grantedIn g' x \<longleftrightarrow> grantedIn g x \<or> (x \<in> live g \<and> clear g x)"
    by (auto simp: tryGrantLocked_def)
  have "settled g'"
    using g' inv_gateD(5) [OF assms] same_tasks_clear [OF g'(3)] by (auto simp: settled_def same_tasks_def)
  with g' that show thesis by blast
qed

section \<open>Operations\<close>

lemma enqueueKeys_apply:
  "distinct ks \<Longrightarrow> enqueueKeys s ks q k = (if k \<in> set ks then q k @ [s] else q k)"
  unfolding enqueueKeys_def by (induction ks arbitrary: q) auto

lemma dequeueKeys_apply:
  assumes "distinct ks" "dequeueKeys s ks (q, h) = (q', h')"
  shows "q' k = (if k \<in> set ks then remove1 s (q k) else q k)"
    and "h' k = (if k \<in> set ks \<and> h k = Some s then None else h k)"
proof -
  have "q' k = (if k \<in> set ks then remove1 s (q k) else q k)
    \<and> h' k = (if k \<in> set ks \<and> h k = Some s then None else h k)"
    using assms unfolding dequeueKeys_def by (induction ks arbitrary: q h) (auto split: if_splits)
  then show "q' k = (if k \<in> set ks then remove1 s (q k) else q k)"
    and "h' k = (if k \<in> set ks \<and> h k = Some s then None else h k)" by auto
qed

lemma remove1_filter_distinct: "distinct xs \<Longrightarrow> remove1 s (filter P xs) = filter P (removeAll s xs)"
  by (simp add: distinct_remove1_removeAll removeAll_filter_not_eq conj_commute)

lemma Register_settles:
  assumes inv: "inv_gate g" and new: "\<not> (og_hasSequence g \<and> s \<le> og_lastSequence g)"
  obtains g' where "Register (Some g) s keys = Some (Inr g')" "settled g'" "og_reservations g' = og_reservations g @ [s]"
    "keysOf g' = (keysOf g)(s := set keys)" "og_lastSequence g' = s"
proof -
  let ?r = "\<lparr>kr_keys = canonicalRuntimeKeys keys, kr_ready = False, kr_canceled = False, kr_granted = False, kr_done = False\<rparr>"
  let ?g = "g\<lparr>og_lastSequence := s, og_hasSequence := True, og_objects := (og_objects g)(s \<mapsto> ?r),
    og_reservations := og_reservations g @ [s], og_queues := enqueueKeys s (canonicalRuntimeKeys keys) (og_queues g)\<rparr>"
  have fresh: "og_objects g s = None" using inv_gateD(6) [OF inv, of s] new
    by (cases "og_objects g s") auto
  have less: "x < s" if "og_objects g x \<noteq> None" for x using inv_gateD(6) [OF inv that] new by auto
  have lv: "x < s" if "x \<in> live g" for x using inv_gateD(2) [OF inv that] less [of x] by auto
  then have notin: "s \<notin> live g" by blast
  have ks: "keysOf ?g = (keysOf g)(s := set keys)"
    by (auto simp: keysOf_def fun_eq_iff canonicalRuntimeKeys_spec)
  have gr: "grantedIn ?g x = grantedIn g x" for x using fresh by (auto simp: grantedIn_def)
  have cl: "clear ?g x = clear g x" if "x \<in> live g" for x
    using lv [OF that] notin by (auto simp: clear_def ks)
  have ngr: "\<not> grantedIn ?g s" by (simp add: grantedIn_def)
  have q: "og_queues ?g k = filter (\<lambda>x. k \<in> keysOf ?g x) (og_reservations ?g)" for k
  proof -
    have "filter (\<lambda>x. k \<in> keysOf ?g x) (og_reservations g) = filter (\<lambda>x. k \<in> keysOf g x) (og_reservations g)"
      using notin by (intro filter_cong) (auto simp: ks)
    then show ?thesis
      using inv_gateD(3) [OF inv, of k] by (simp add: enqueueKeys_apply canonicalRuntimeKeys_spec ks)
  qed
  have "inv_gate ?g" unfolding inv_gate_def
  proof (intro conjI allI ballI impI)
    show "sorted_wrt (<) (og_reservations ?g)" using inv_gateD(1) [OF inv] lv by (simp add: sorted_wrt_append)
    show "\<exists>r. og_objects ?g x = Some r \<and> object_ok r \<and> \<not> kr_done r \<and> \<not> kr_canceled r" if "x \<in> live ?g" for x
      using that inv_gateD(2) [OF inv, of x] notin by (auto simp: object_ok_def canonicalRuntimeKeys_spec)
    show "og_queues ?g k = filter (\<lambda>x. k \<in> keysOf ?g x) (og_reservations ?g)" for k by (rule q)
    show "og_held ?g k = Some x \<longleftrightarrow> x \<in> live ?g \<and> grantedIn ?g x \<and> k \<in> keysOf ?g x" for k x
      using inv_gateD(4) [OF inv, of k x] notin ngr unfolding gr ks by auto
    show "clear ?g x" if "x \<in> live ?g" "grantedIn ?g x" for x
      using that ngr inv_gateD(5) [OF inv, of x] cl by (auto simp: gr)
    show "og_hasSequence ?g" "x \<le> og_lastSequence ?g" if "og_objects ?g x \<noteq> None" for x
      using that less [of x] by (auto split: if_splits)
  qed
  from tryGrantLocked_settles [OF this] obtain g' where
    "tryGrantLocked ?g = Some g'" "settled g'" "same_tasks ?g g'" by blast
  moreover have "Register (Some g) s keys = map_option Inr (tryGrantLocked ?g)"
    using new by (auto simp: Register_def Let_def)
  ultimately show thesis using that ks by (simp add: same_tasks_def)
qed

lemma finish_settles:
  assumes "settled g"
  obtains g' where "finishReservation g s c = Some g'" "settled g'" "live g' = live g - {s}" "keysOf g' = keysOf g"
proof (cases "s \<in> live g")
  case False
  with that [of g] assms show thesis by (auto simp: finishReservation_def split: option.splits)
next
  case True
  have inv: "inv_gate g" using assms by (simp add: settled_def)
  note srt = inv_gateD(1) [OF inv]
  obtain r where r: "og_objects g s = Some r" "object_ok r" "\<not> kr_done r" "\<not> kr_canceled r"
    using inv_gateD(2) [OF inv True] by blast
  obtain q h where qh: "dequeueKeys s (kr_keys r) (og_queues g, og_held g) = (q, h)" by force
  let ?g = "g\<lparr>og_objects := (og_objects g)(s \<mapsto> r\<lparr>kr_done := True, kr_canceled := kr_canceled r \<or> c\<rparr>),
    og_reservations := removeAll s (og_reservations g), og_queues := q, og_held := h\<rparr>"
  note dq = dequeueKeys_apply [OF _ qh]
  have dis: "distinct (og_reservations g)" "distinct (kr_keys r)"
    using srt r(2) by (simp_all add: strict_sorted_iff object_ok_def)
  have ks: "keysOf ?g = keysOf g" using r(1) by (auto simp: keysOf_def fun_eq_iff)
  have kr: "keysOf g s = set (kr_keys r)" using r(1) by (simp add: keysOf_def)
  have gr: "grantedIn ?g x = grantedIn g x" for x using r(1) by (auto simp: grantedIn_def)
  have "inv_gate ?g" unfolding inv_gate_def
  proof (intro conjI allI ballI impI)
    show "sorted_wrt (<) (og_reservations ?g)" using srt by (simp add: removeAll_filter_not_eq sorted_wrt_filter)
    show "\<exists>r. og_objects ?g x = Some r \<and> object_ok r \<and> \<not> kr_done r \<and> \<not> kr_canceled r" if "x \<in> live ?g" for x
      using that inv_gateD(2) [OF inv, of x] by auto
    show "og_queues ?g k = filter (\<lambda>x. k \<in> keysOf ?g x) (og_reservations ?g)" for k
    proof -
      have "q k = remove1 s (og_queues g k)"
        using dq(1) [OF dis(2), of k] inv_gateD(3) [OF inv, of k] kr by (auto simp: remove1_idem)
      then show ?thesis unfolding ks using remove1_filter_distinct [OF dis(1), of s] inv_gateD(3) [OF inv, of k] by simp
    qed
    show "og_held ?g k = Some x \<longleftrightarrow> x \<in> live ?g \<and> grantedIn ?g x \<and> k \<in> keysOf ?g x" for k x
      using inv_gateD(4) [OF inv, of k x] inv_gateD(4) [OF inv, of k s] dq(2) [OF dis(2), of k] kr
      unfolding gr ks by (auto split: if_splits)
    show "clear ?g x" if "x \<in> live ?g" "grantedIn ?g x" for x
      using that inv_gateD(5) [OF inv, of x] unfolding gr by (auto simp: clear_def ks)
    show "og_hasSequence ?g" "x \<le> og_lastSequence ?g" if "og_objects ?g x \<noteq> None" for x
      using that inv_gateD(6) [OF inv, of x] r(1) by (auto split: if_splits)
  qed
  from tryGrantLocked_settles [OF this] obtain g' where
    "tryGrantLocked ?g = Some g'" "settled g'" "same_tasks ?g g'" by blast
  moreover have "finishReservation g s c = tryGrantLocked ?g"
    using r True qh by (simp add: finishReservation_def)
  ultimately show thesis using that ks by (simp add: same_tasks_def)
qed

end
