(* ===== verification/KeyGate_Props.thy ===== *)
theory KeyGate_Props
  imports KeyGate_Correct
begin

text \<open>
  The gate as a transition system: a step is one call under the mutex, the interleaving of the
  callers is any sequence of steps.  The properties of the gate are stated for every gate such a
  sequence reaches.
\<close>

section \<open>Steps\<close>

inductive gateStep :: "OrderedKeyGate \<Rightarrow> OrderedKeyGate \<Rightarrow> bool" where
  register: "Register (Some g) s keys = Some (Inr g') \<Longrightarrow> gateStep g g'"
| release: "Release g handle = Some g' \<Longrightarrow> gateStep g g'"
| cancel: "Cancel g handle = Some g' \<Longrightarrow> gateStep g g'"

inductive_cases gateStepE [elim]: "gateStep g g'"

inductive gateReach :: "OrderedKeyGate \<Rightarrow> bool" where
  start: "gateReach NewOrderedKeyGate"
| step: "gateReach g \<Longrightarrow> gateStep g g' \<Longrightarrow> gateReach g'"

lemma new_settled: "settled NewOrderedKeyGate"
  by (simp add: settled_def inv_gate_def NewOrderedKeyGate_def)

lemma Register_cases:
  assumes "settled g"
  shows "Register (Some g) s keys = Some (Inl NotInReceiveOrder)
    \<or> (\<exists>g'. Register (Some g) s keys = Some (Inr g') \<and> settled g')"
proof (cases "og_hasSequence g \<and> s \<le> og_lastSequence g")
  case True
  then show ?thesis by (simp add: Register_def Let_def)
next
  case False
  from Register_settles [OF _ False] assms show ?thesis by (metis settled_def)
qed

lemma Release_settles:
  assumes "settled g"
  obtains g' where "Release g handle = Some g'" "settled g'" "live g' = live g - set_option handle" "keysOf g' = keysOf g"
  using assms that [of g] by (cases handle) (auto simp: Release_def elim: finish_settles)

lemma Cancel_settles:
  assumes "settled g"
  obtains g' where "Cancel g handle = Some g'" "settled g'" "live g' = live g - set_option handle" "keysOf g' = keysOf g"
  using assms that [of g] by (cases handle) (auto simp: Cancel_def elim: finish_settles)

lemma gateStep_settled:
  assumes "gateStep g g'" "settled g"
  shows "settled g'"
  using assms(1)
proof
  fix s keys assume "Register (Some g) s keys = Some (Inr g')"
  with Register_cases [OF assms(2), of s keys] show ?thesis by auto
next
  fix handle assume "Release g handle = Some g'"
  with Release_settles [OF assms(2), of handle] show ?thesis by (metis option.inject)
next
  fix handle assume "Cancel g handle = Some g'"
  with Cancel_settles [OF assms(2), of handle] show ?thesis by (metis option.inject)
qed

lemma gateReach_settled: "gateReach g \<Longrightarrow> settled g"
  by (induction rule: gateReach.induct) (simp add: new_settled, rule gateStep_settled)

section \<open>An example\<close>

definition exampleKey :: "string \<Rightarrow> RuntimeKey" where
  "exampleKey d = \<lparr>rk_TenantID = ''t'', rk_BusinessID = ''2'', rk_StrategyID = ''9'',
     rk_StateCompatibilityHash = ''h'', rk_DimensionIdentityDigest = d\<rparr>"

text \<open>Three tasks: the second waits for the first, the third shares no key with the first.\<close>

definition exampleGate :: OrderedKeyGate where
  "exampleGate =
     (case Register (Some NewOrderedKeyGate) 1 [exampleKey ''a''] of Some (Inr g1) \<Rightarrow>
        (case Register (Some g1) 2 [exampleKey ''b'', exampleKey ''a''] of Some (Inr g2) \<Rightarrow> g2))"

lemma exampleGate_reach:
  "gateReach exampleGate \<and> og_reservations exampleGate = [1, 2]
     \<and> keysOf exampleGate = (\<lambda>_. {})(1 := {exampleKey ''a''}, 2 := {exampleKey ''b'', exampleKey ''a''})"
proof -
  have 0: "settled NewOrderedKeyGate" "inv_gate NewOrderedKeyGate" using new_settled by (simp_all add: settled_def)
  obtain g1 where g1: "Register (Some NewOrderedKeyGate) 1 [exampleKey ''a''] = Some (Inr g1)" "settled g1"
    "og_reservations g1 = [1]" "keysOf g1 = (keysOf NewOrderedKeyGate)(1 := {exampleKey ''a''})" "og_lastSequence g1 = 1"
    by (rule Register_settles [OF 0(2), of 1 "[exampleKey ''a'']"]) (auto simp: NewOrderedKeyGate_def)
  have k0: "keysOf NewOrderedKeyGate = (\<lambda>_. {})" by (simp add: keysOf_def NewOrderedKeyGate_def fun_eq_iff)
  have inv1: "inv_gate g1" using g1(2) by (simp add: settled_def)
  have "\<not> (og_hasSequence g1 \<and> 2 \<le> og_lastSequence g1)" using g1(5) by simp
  then obtain g2 where g2: "Register (Some g1) 2 [exampleKey ''b'', exampleKey ''a''] = Some (Inr g2)" "settled g2"
    "og_reservations g2 = [1, 2]" "keysOf g2 = (keysOf g1)(2 := {exampleKey ''b'', exampleKey ''a''})"
    by (rule Register_settles [OF inv1, of 2 "[exampleKey ''b'', exampleKey ''a'']"]) (auto simp: g1(3))
  have "exampleGate = g2" unfolding exampleGate_def g1(1) option.case sum.case g2(1) by simp
  moreover have "gateReach g2" using g1(1) g2(1) by (blast intro: gateReach.intros gateStep.intros)
  ultimately show ?thesis using g2 g1(4) k0 by simp
qed

section \<open>Properties\<close>

text \<open>
  C21: in every reachable gate a live reservation has been let in exactly when no live reservation
  registered before it shares a key with it; so two reservations that are in never share a key, a
  later one never overtakes an earlier one on a key, and disjoint ones do not wait for each other.
\<close>

theorem gate_grants_exactly_unblocked:
  assumes "gateReach g" and "s \<in> live g"
  shows "(grantedIn g s \<longleftrightarrow> (\<forall>s' \<in> live g. s' < s \<longrightarrow> keysOf g s' \<inter> keysOf g s = {}))
    \<and> (\<forall>s' \<in> live g. s' \<noteq> s \<and> grantedIn g s \<and> grantedIn g s' \<longrightarrow> keysOf g s' \<inter> keysOf g s = {})"
proof -
  have st: "settled g" using assms(1) by (rule gateReach_settled)
  have "keysOf g s' \<inter> keysOf g s = {}" if "s' \<in> live g" "s' \<noteq> s" "grantedIn g s" "grantedIn g s'" for s'
  proof -
    have "clear g s" "clear g s'" using st that assms(2) by (auto simp: settled_def)
    then show ?thesis using that(1,2) assms(2) by (cases "s' < s") (auto simp: clear_def)
  qed
  with st assms(2) show ?thesis by (auto simp: settled_def clear_def)
qed

theorem gate_grants_exactly_unblocked_witness: "grantedIn exampleGate 1 \<and> \<not> grantedIn exampleGate 2"
  using gate_grants_exactly_unblocked [of exampleGate 1] gate_grants_exactly_unblocked [of exampleGate 2] exampleGate_reach
  by (simp add: exampleKey_def)

text \<open>
  No call panics.  On a reachable gate the channels a call closes are open: \<open>Register\<close>, \<open>Release\<close> and
  \<open>Cancel\<close> return, for every handle, in every order and however often.
\<close>

theorem gate_never_closes_twice:
  assumes "gateReach g"
  shows "Register (Some g) s keys \<noteq> None \<and> Release g handle \<noteq> None \<and> Cancel g handle \<noteq> None"
  using gateReach_settled [OF assms] Register_cases Release_settles [of g handle] Cancel_settles [of g handle]
  by (metis option.distinct(1))

theorem gate_never_closes_twice_witness:
  "Release exampleGate (Some 1) \<noteq> None \<and> Cancel exampleGate (Some 7) \<noteq> None"
  using exampleGate_reach gate_never_closes_twice [of exampleGate 3 "[]" "Some 1"]
    gate_never_closes_twice [of exampleGate 3 "[]" "Some 7"] by blast

text \<open>Finishing a list of reservations one after the other.\<close>

fun releaseAll :: "nat list \<Rightarrow> OrderedKeyGate \<Rightarrow> OrderedKeyGate option" where
  "releaseAll [] g = Some g"
| "releaseAll (b # bs) g = (case Release g (Some b) of None \<Rightarrow> None | Some g' \<Rightarrow> releaseAll bs g')"

lemma releaseAll_settles:
  assumes "settled g"
  shows "\<exists>g'. releaseAll bs g = Some g' \<and> settled g' \<and> live g' = live g - set bs \<and> keysOf g' = keysOf g"
  using assms
proof (induction bs arbitrary: g)
  case (Cons b bs)
  from Release_settles [OF Cons.prems, of "Some b"] obtain g1 where
    g1: "Release g (Some b) = Some g1" "settled g1" "live g1 = live g - {b}" "keysOf g1 = keysOf g" by auto
  from Cons.IH [OF g1(2)] g1 show ?case by auto
qed simp

lemma granted_enters:
  assumes "settled g" "s \<in> live g" "grantedIn g s"
  shows "WaitOutcomes (og_objects g s) (Some (False, False)) = [WaitEntered]"
proof -
  have "inv_gate g" using assms(1) by (simp add: settled_def)
  from inv_gateD(2) [OF this assms(2)] obtain r where "og_objects g s = Some r" "object_ok r" "\<not> kr_canceled r" by blast
  with assms(3) show ?thesis by (simp add: WaitOutcomes_def grantedIn_def object_ok_def)
qed

text \<open>
  C22: no reservation starves.  Once the earlier live reservations that share a key with a waiting one
  are released, in any order and among any others, it is in and its \<open>Wait\<close> enters; the oldest live
  reservation always is, so there is always one that can finish.
\<close>

theorem gate_progress:
  assumes "gateReach g" and "s \<in> live g" and "s \<notin> set bs"
    and "\<forall>s' \<in> live g. s' < s \<and> keysOf g s' \<inter> keysOf g s \<noteq> {} \<longrightarrow> s' \<in> set bs"
  shows "(\<exists>g'. releaseAll bs g = Some g' \<and> s \<in> live g' \<and> grantedIn g' s
      \<and> WaitOutcomes (og_objects g' s) (Some (False, False)) = [WaitEntered])
    \<and> grantedIn g (Min (live g))"
proof -
  have st: "settled g" using assms(1) by (rule gateReach_settled)
  from releaseAll_settles [OF st, of bs] obtain g' where
    g': "releaseAll bs g = Some g'" "settled g'" "live g' = live g - set bs" "keysOf g' = keysOf g" by blast
  have s: "s \<in> live g'" using assms(2,3) g'(3) by simp
  have "clear g' s" using assms(4) unfolding clear_def g'(3,4) by blast
  then have gr: "grantedIn g' s" using g'(2) s by (simp add: settled_def)
  have "Min (live g) \<in> live g" using assms(2) by (intro Min_in) auto
  moreover have "\<not> s' < Min (live g)" if "s' \<in> live g" for s' using that by (simp add: not_less)
  ultimately have "Min (live g) \<in> live g" "clear g (Min (live g))" by (auto simp: clear_def)
  then have "grantedIn g (Min (live g))" using st by (simp add: settled_def)
  with g' s gr granted_enters [OF g'(2) s gr] show ?thesis by blast
qed

theorem gate_progress_witness:
  "\<exists>g'. releaseAll [1] exampleGate = Some g' \<and> grantedIn g' 2"
  using gate_progress [of exampleGate 2 "[1]"] exampleGate_reach by auto

end
