(* ===== verification/NoDataGroup.thy ===== *)
theory NoDataGroup
  imports Prelude "HOL-Library.AList"
begin

text \<open>
  No-data groups (\<open>nodata/group.go\<close>): the projection of a series onto the dimension group no-data
  detection judges, the group's key and its parser.  A Go map that the code iterates is an association
  list with distinct keys whose order stands for the iteration's; one it only looks up is a map.
\<close>

section \<open>Groups and keys\<close>

record Dimension =
  dm_Name :: string
  dm_Value :: string

record Group =
  gr_dimensions :: "Dimension list"

definition NoDataDimensionTag :: string where "NoDataDimensionTag = ''__NO_DATA_DIMENSION__''"

definition WholeItemGroup :: Group where "WholeItemGroup = \<lparr>gr_dimensions = []\<rparr>"

definition separatorChars :: string where "separatorChars = [CHR 0x5C, CHR ''='', CHR '','']"

definition escapeGroupText :: "string \<Rightarrow> string" where
  "escapeGroupText text = concat (map (\<lambda>c. if c \<in> set separatorChars then [CHR 0x5C, c] else [c]) text)"

fun joinComma :: "string list \<Rightarrow> string" where
  "joinComma [] = []"
| "joinComma [p] = p"
| "joinComma (p # q # ps) = p @ CHR '','' # joinComma (q # ps)"

definition tagPart :: string where "tagPart = NoDataDimensionTag @ ''=true''"

definition dimensionPart :: "Dimension \<Rightarrow> string" where
  "dimensionPart d = escapeGroupText (dm_Name d) @ CHR ''='' # escapeGroupText (dm_Value d)"

definition GroupKey :: "Group \<Rightarrow> string" where
  "GroupKey g = (if gr_dimensions g = [] then tagPart
                 else joinComma (map dimensionPart (gr_dimensions g) @ [tagPart]))"

section \<open>Projection\<close>

fun reduceDimensions :: "(string \<rightharpoonup> string) \<Rightarrow> string list \<Rightarrow> Dimension list option" where
  "reduceDimensions dimensions [] = Some []"
| "reduceDimensions dimensions (name # names) =
     (case dimensions name of
        None \<Rightarrow> None
      | Some value \<Rightarrow> map_option (\<lambda>ds. \<lparr>dm_Name = name, dm_Value = value\<rparr> # ds) (reduceDimensions dimensions names))"

definition Project :: "(string \<rightharpoonup> string) \<Rightarrow> string list \<Rightarrow> Group option" where
  "Project dimensions aggDimension =
     (if aggDimension = [] then Some WholeItemGroup
      else map_option (\<lambda>ds. \<lparr>gr_dimensions = sort_key dm_Name ds\<rparr>) (reduceDimensions dimensions aggDimension))"

record ProjectionTally =
  pt_Groups :: "(string \<times> Group) list"
  pt_Dropped :: nat

definition projectOne :: "string list \<Rightarrow> (string \<rightharpoonup> string) \<Rightarrow> ProjectionTally \<Rightarrow> ProjectionTally" where
  "projectOne aggDimension dimensions tally =
     (case Project dimensions aggDimension of
        None \<Rightarrow> tally\<lparr>pt_Dropped := pt_Dropped tally + 1\<rparr>
      | Some g \<Rightarrow> tally\<lparr>pt_Groups := AList.update (GroupKey g) g (pt_Groups tally)\<rparr>)"

definition ProjectSeries :: "(string \<rightharpoonup> string) list \<Rightarrow> string list \<Rightarrow> ProjectionTally" where
  "ProjectSeries series aggDimension = fold (projectOne aggDimension) series \<lparr>pt_Groups = [], pt_Dropped = 0\<rparr>"

section \<open>Parsing\<close>

fun splitLoop :: "char \<Rightarrow> string \<Rightarrow> string list \<Rightarrow> string \<Rightarrow> string list option" where
  "splitLoop separator [] parts current = Some (parts @ [current])"
| "splitLoop separator (c # text) parts current =
     (if c = CHR 0x5C
      then (case text of
              [] \<Rightarrow> None
            | d # rest \<Rightarrow> splitLoop separator rest parts (current @ [CHR 0x5C, d]))
      else if c = separator then splitLoop separator text (parts @ [current]) []
      else splitLoop separator text parts (current @ [c]))"

definition splitEscaped :: "string \<Rightarrow> char \<Rightarrow> string list option" where
  "splitEscaped text separator = splitLoop separator text [] []"

text \<open>\<open>strings.NewReplacer\<close> over the three two-byte escapes: the first that matches at a position.\<close>

fun unescapeGroupText :: "string \<Rightarrow> string" where
  "unescapeGroupText (c # d # text) =
     (if c = CHR 0x5C \<and> d \<in> set separatorChars then d # unescapeGroupText text
      else c # unescapeGroupText (d # text))"
| "unescapeGroupText text = text"

definition parseDimension :: "string \<Rightarrow> Dimension option" where
  "parseDimension part =
     (case splitEscaped part (CHR ''='') of
        Some [n, v] \<Rightarrow>
          (let name = unescapeGroupText n; value = unescapeGroupText v
           in if name = [] then None else Some \<lparr>dm_Name = name, dm_Value = value\<rparr>)
      | _ \<Rightarrow> None)"

fun parseDimensions :: "string list \<Rightarrow> Dimension list option" where
  "parseDimensions [] = Some []"
| "parseDimensions (p # ps) =
     (case parseDimension p of
        None \<Rightarrow> None
      | Some d \<Rightarrow> map_option (\<lambda>ds. d # ds) (parseDimensions ps))"

definition ParseGroupKey :: "string \<Rightarrow> Group option" where
  "ParseGroupKey key =
     (case splitEscaped key (CHR '','') of
        None \<Rightarrow> None
      | Some parts \<Rightarrow>
          if parts = [] then None
          else if last parts \<noteq> tagPart then None
          else (case parseDimensions (butlast parts) of
                  None \<Rightarrow> None
                | Some dimensions \<Rightarrow>
                    if sorted (map dm_Name dimensions) then Some \<lparr>gr_dimensions = dimensions\<rparr> else None))"

section \<open>Round trip\<close>

lemma unescape_escape: "unescapeGroupText (escapeGroupText t) = t"
proof (induction t)
  case (Cons c t)
  show ?case
  proof (cases "c \<in> set separatorChars")
    case True
    with Cons show ?thesis by (simp add: escapeGroupText_def)
  next
    case False
    then have "c \<noteq> CHR 0x5C" by (simp add: separatorChars_def)
    then have "unescapeGroupText (c # xs) = c # unescapeGroupText xs" for xs by (cases xs) auto
    with Cons False show ?thesis by (simp add: escapeGroupText_def)
  qed
qed (simp add: escapeGroupText_def)

lemma split_escape:
  assumes "sep \<in> {CHR ''='', CHR '',''}"
  shows "splitLoop sep (escapeGroupText t @ rest) parts cur = splitLoop sep rest parts (cur @ escapeGroupText t)"
proof (induction t arbitrary: cur)
  case (Cons c t)
  show ?case
  proof (cases "c \<in> set separatorChars")
    case True
    with Cons show ?thesis by (simp add: escapeGroupText_def)
  next
    case False
    with assms have "c \<noteq> CHR 0x5C" "c \<noteq> sep" by (auto simp: separatorChars_def)
    with Cons False show ?thesis by (simp add: escapeGroupText_def)
  qed
qed (simp add: escapeGroupText_def)

lemma split_plain:
  assumes "\<forall>c \<in> set t. c \<noteq> CHR 0x5C \<and> c \<noteq> sep"
  shows "splitLoop sep (t @ rest) parts cur = splitLoop sep rest parts (cur @ t)"
  using assms by (induction t arbitrary: cur) auto

lemma split_dimension:
  "splitLoop (CHR '','') (dimensionPart d @ CHR '','' # rest) parts [] = splitLoop (CHR '','') rest (parts @ [dimensionPart d]) []"
  by (simp add: dimensionPart_def split_escape)

lemma split_key:
  "splitLoop (CHR '','') (joinComma (map dimensionPart ds @ [tagPart])) parts [] = Some (parts @ map dimensionPart ds @ [tagPart])"
proof (induction ds arbitrary: parts)
  case Nil
  have "\<forall>c \<in> set tagPart. c \<noteq> CHR 0x5C \<and> c \<noteq> CHR '',''"
    by (simp add: tagPart_def NoDataDimensionTag_def)
  from split_plain [OF this, of "[]" parts "[]"] show ?case by simp
next
  case (Cons d ds)
  obtain p ps where p: "map dimensionPart ds @ [tagPart] = p # ps" by (cases "map dimensionPart ds @ [tagPart]") auto
  with Cons [of "parts @ [dimensionPart d]"] show ?case by (simp add: split_dimension)
qed

lemma parse_dimensionPart: "dm_Name d \<noteq> [] \<Longrightarrow> parseDimension (dimensionPart d) = Some d"
  using split_escape [of "CHR ''=''" "dm_Value d" "[]"]
  by (simp add: parseDimension_def splitEscaped_def dimensionPart_def split_escape unescape_escape)

lemma parse_dimensionParts: "\<forall>d \<in> set ds. dm_Name d \<noteq> [] \<Longrightarrow> parseDimensions (map dimensionPart ds) = Some ds"
  by (induction ds) (simp_all add: parse_dimensionPart)

lemma ParseGroupKey_GroupKey:
  assumes "\<forall>d \<in> set (gr_dimensions g). dm_Name d \<noteq> []" "sorted (map dm_Name (gr_dimensions g))"
  shows "ParseGroupKey (GroupKey g) = Some g"
proof -
  have "GroupKey g = joinComma (map dimensionPart (gr_dimensions g) @ [tagPart])"
    by (simp add: GroupKey_def)
  then show ?thesis
    using assms split_key [of "gr_dimensions g" "[]"] by (simp add: ParseGroupKey_def splitEscaped_def parse_dimensionParts)
qed

lemma reduceDimensions_names: "reduceDimensions dims agg = Some ds \<Longrightarrow> map dm_Name ds = agg \<and> (\<forall>d \<in> set ds. dims (dm_Name d) = Some (dm_Value d))"
  by (induction agg arbitrary: ds) (auto split: option.splits)

lemma Project_group:
  assumes "Project dims agg = Some g"
  shows "mset (map dm_Name (gr_dimensions g)) = mset agg" "sorted (map dm_Name (gr_dimensions g))"
    "\<forall>d \<in> set (gr_dimensions g). dims (dm_Name d) = Some (dm_Value d)"
proof -
  from assms obtain ds where ds: "gr_dimensions g = sort_key dm_Name ds" "map dm_Name ds = agg"
    "\<forall>d \<in> set ds. dims (dm_Name d) = Some (dm_Value d)"
    using reduceDimensions_names [of dims agg]
    by (cases "agg = []") (auto simp: Project_def WholeItemGroup_def)
  then show "sorted (map dm_Name (gr_dimensions g))" "\<forall>d \<in> set (gr_dimensions g). dims (dm_Name d) = Some (dm_Value d)"
    by simp_all
  show "mset (map dm_Name (gr_dimensions g)) = mset agg" unfolding ds(1) ds(2) [symmetric] by simp
qed

lemma Project_None_iff: "Project dims agg = None \<longleftrightarrow> (\<exists>name \<in> set agg. dims name = None)"
proof -
  have "reduceDimensions dims agg = None \<longleftrightarrow> (\<exists>name \<in> set agg. dims name = None)"
    by (induction agg) (auto split: option.splits)
  then show ?thesis by (auto simp: Project_def)
qed

lemma Project_parses:
  assumes "Project dims agg = Some g" "[] \<notin> set agg"
  shows "ParseGroupKey (GroupKey g) = Some g"
proof (rule ParseGroupKey_GroupKey)
  have "dm_Name ` set (gr_dimensions g) = set agg"
    using Project_group(1) [OF assms(1)] by (metis set_map set_mset_mset)
  with assms(2) show "\<forall>d \<in> set (gr_dimensions g). dm_Name d \<noteq> []" by force
qed (rule Project_group(2) [OF assms(1)])

lemma ProjectSeries_snoc: "ProjectSeries (series @ [x]) agg = projectOne agg x (ProjectSeries series agg)"
  by (simp add: ProjectSeries_def)

definition projected :: "(string \<rightharpoonup> string) list \<Rightarrow> string list \<Rightarrow> Group set" where
  "projected series agg = {g. \<exists>dims \<in> set series. Project dims agg = Some g}"

lemma projected_snoc: "projected (series @ [x]) agg = projected series agg \<union> set_option (Project x agg)"
  by (auto simp: projected_def)

lemma set_update_subset: "set (AList.update k v al) \<subseteq> insert (k, v) (set al)"
  by (induction al) auto

lemma ProjectSeries_spec:
  "pt_Dropped (ProjectSeries series agg) = length (filter (\<lambda>dims. Project dims agg = None) series)
   \<and> fst ` set (pt_Groups (ProjectSeries series agg)) = GroupKey ` projected series agg
   \<and> set (pt_Groups (ProjectSeries series agg)) \<subseteq> (\<lambda>g. (GroupKey g, g)) ` projected series agg"
proof (induction series rule: rev_induct)
  case (snoc x series)
  show ?case
  proof (cases "Project x agg")
    case None
    with snoc show ?thesis unfolding ProjectSeries_snoc projected_snoc by (simp add: projectOne_def)
  next
    case (Some g)
    with snoc set_update_subset [of "GroupKey g" g "pt_Groups (ProjectSeries series agg)"] show ?thesis
      unfolding ProjectSeries_snoc projected_snoc by (simp add: projectOne_def dom_update) blast
  qed
qed (simp add: ProjectSeries_def projected_def)

section \<open>Properties\<close>

definition exampleDimensions :: "string \<rightharpoonup> string" where
  "exampleDimensions = [''ip'' \<mapsto> ''10.0.0.1'', ''disk'' \<mapsto> ''a=b,c'']"

text \<open>
  C26: a group's key is its identity.  The key of a group a series projects onto, for an item that names
  no empty dimension, parses back into exactly that group, whatever separators and escapes its names
  and values hold; so two groups with the same key are the same group.
\<close>

theorem group_key_roundtrip:
  assumes "Project dims agg = Some g" and "[] \<notin> set agg"
    and "Project dims' agg' = Some g'" and "[] \<notin> set agg'"
  shows "ParseGroupKey (GroupKey g) = Some g \<and> (GroupKey g = GroupKey g' \<longrightarrow> g = g')"
  using Project_parses [OF assms(1,2)] Project_parses [OF assms(3,4)] by (metis option.inject)

theorem group_key_roundtrip_witness:
  "ParseGroupKey (GroupKey \<lparr>gr_dimensions = [\<lparr>dm_Name = ''disk'', dm_Value = ''a=b,c''\<rparr>, \<lparr>dm_Name = ''ip'', dm_Value = ''10.0.0.1''\<rparr>]\<rparr>)
     = Some \<lparr>gr_dimensions = [\<lparr>dm_Name = ''disk'', dm_Value = ''a=b,c''\<rparr>, \<lparr>dm_Name = ''ip'', dm_Value = ''10.0.0.1''\<rparr>]\<rparr>"
proof -
  have "Project exampleDimensions [''ip'', ''disk''] = Some \<lparr>gr_dimensions =
      [\<lparr>dm_Name = ''disk'', dm_Value = ''a=b,c''\<rparr>, \<lparr>dm_Name = ''ip'', dm_Value = ''10.0.0.1''\<rparr>]\<rparr>"
    by (simp add: Project_def exampleDimensions_def less_eq_char_def less_char_def)
  from group_key_roundtrip [OF this _ this] show ?thesis by simp
qed

text \<open>
  The projection of a Slot loses nothing but the invalid series: the groups are those of the series
  that carry every dimension of the item, each under its own key, and the dropped count is the number
  of series that lack one.
\<close>

lemma ProjectSeries_exact:
  "pt_Dropped (ProjectSeries series agg) = length (filter (\<lambda>dims. \<exists>name \<in> set agg. dims name = None) series)
   \<and> fst ` set (pt_Groups (ProjectSeries series agg)) = GroupKey ` {g. \<exists>dims \<in> set series. Project dims agg = Some g}
   \<and> (\<forall>key g. (key, g) \<in> set (pt_Groups (ProjectSeries series agg)) \<longrightarrow> key = GroupKey g)"
  using ProjectSeries_spec [of series agg] unfolding Project_None_iff projected_def by blast

end
