(* ===== verification/Absence.thy ===== *)
theory Absence
  imports NoDataGroup
begin

text \<open>
  The absence evaluation of no-data detection (\<open>nodata/absence.go\<close>) and the history roster of
  \<open>nodata/roster.go\<close>: one Slot's evidence about one item in, verdicts per group and the updated memory
  out.  The maps the code iterates are association lists with distinct keys; reading a missing memory
  entry gives the zero entry.  \<open>Closing\<close> is a set of keys and is the list of them.
\<close>

section \<open>Data\<close>

datatype RosterSource = RosterTargetStatic | RosterHistory | RosterTargetPlan | RosterWhole

datatype SlotCompleteness = CompletenessFull | CompletenessOther string

datatype Verdict = VerdictAnomaly | VerdictNormal | VerdictUnavailable

record Roster =
  ro_Version :: string
  ro_Source :: RosterSource
  ro_Groups :: "(string \<times> Group) list"

record GroupMemory =
  gm_LastSeen :: int
  gm_FirstAbsent :: int
  gm_SuppressedAt :: int

record AbsenceInput =
  ai_EvaluationTime :: int
  ai_PeriodSeconds :: int
  ai_Completeness :: SlotCompleteness
  ai_Present :: "(string \<times> Group) list"
  ai_Dropped :: nat
  ai_Roster :: Roster
  ai_Memory :: "(string \<times> GroupMemory) list"
  ai_OutOfBusiness :: "string list"
  ai_TrackingHorizonSeconds :: int
  ai_TrackingExhaustedAt :: int

record AbsentAgeBuckets =
  ab_ThisRound :: nat
  ab_UnderHour :: nat
  ab_UnderDay :: nat
  ab_DayOrMore :: nat

record AbsenceFacts =
  af_Present :: nat
  af_Expected :: nat
  af_Absent :: nat
  af_Unavailable :: nat
  af_Dropped :: nat
  af_RosterSource :: RosterSource
  af_RosterVersion :: string
  af_Expired :: nat
  af_Suppressed :: nat
  af_AbsentAges :: AbsentAgeBuckets

record AbsenceResult =
  ar_Verdicts :: "(string \<times> Verdict) list"
  ar_Memory :: "(string \<times> GroupMemory) list"
  ar_Closing :: "string list"
  ar_Facts :: AbsenceFacts
  ar_Roster :: Roster
  ar_TrackingExhaustedAt :: int
  ar_WholeItemPresent :: bool

definition zeroMemory :: GroupMemory where
  "zeroMemory = \<lparr>gm_LastSeen = 0, gm_FirstAbsent = 0, gm_SuppressedAt = 0\<rparr>"

definition memoryOf :: "(string \<times> GroupMemory) list \<Rightarrow> string \<Rightarrow> GroupMemory" where
  "memoryOf memory key = (case map_of memory key of None \<Rightarrow> zeroMemory | Some entry \<Rightarrow> entry)"

definition wholeKey :: string where "wholeKey = GroupKey WholeItemGroup"

abbreviation has_key :: "(string \<times> 'a) list \<Rightarrow> string \<Rightarrow> bool" where
  "has_key al key \<equiv> map_of al key \<noteq> None"

section \<open>The evaluation\<close>

definition trackingExpired :: "int \<Rightarrow> int \<Rightarrow> int \<Rightarrow> bool" where
  "trackingExpired firstAbsent evaluationTime horizonSeconds =
     (if horizonSeconds \<le> 0 \<or> firstAbsent \<le> 0 then False
      else i64 (evaluationTime - firstAbsent) \<ge> horizonSeconds)"

definition countAge :: "int \<Rightarrow> int \<Rightarrow> AbsentAgeBuckets \<Rightarrow> AbsentAgeBuckets" where
  "countAge firstAbsent evaluationTime buckets =
     (let age = i64 (evaluationTime - firstAbsent)
      in if firstAbsent \<le> 0 \<or> age \<le> 0 then buckets\<lparr>ab_ThisRound := ab_ThisRound buckets + 1\<rparr>
         else if age < 3600 then buckets\<lparr>ab_UnderHour := ab_UnderHour buckets + 1\<rparr>
         else if age < 86400 then buckets\<lparr>ab_UnderDay := ab_UnderDay buckets + 1\<rparr>
         else buckets\<lparr>ab_DayOrMore := ab_DayOrMore buckets + 1\<rparr>)"

definition countSuppressed :: "AbsenceFacts \<Rightarrow> AbsenceFacts" where
  "countSuppressed f = f\<lparr>af_Suppressed := af_Suppressed f + 1\<rparr>"

definition countExpired :: "AbsenceFacts \<Rightarrow> AbsenceFacts" where
  "countExpired f = f\<lparr>af_Expired := af_Expired f + 1\<rparr>"

definition countAbsent :: "int \<Rightarrow> int \<Rightarrow> AbsenceFacts \<Rightarrow> AbsenceFacts" where
  "countAbsent firstAbsent evaluationTime f =
     f\<lparr>af_Absent := af_Absent f + 1, af_AbsentAges := countAge firstAbsent evaluationTime (af_AbsentAges f)\<rparr>"

definition judgePresentOne :: "AbsenceInput \<Rightarrow> string \<Rightarrow> AbsenceResult \<Rightarrow> AbsenceResult" where
  "judgePresentOne input key result =
     (if key \<in> set (ai_OutOfBusiness input) then result\<lparr>ar_Memory := AList.delete key (ar_Memory result)\<rparr>
      else if key = wholeKey then result
      else result\<lparr>ar_Verdicts := AList.update key VerdictNormal (ar_Verdicts result),
                  ar_Memory := AList.update key (zeroMemory\<lparr>gm_LastSeen := ai_EvaluationTime input\<rparr>) (ar_Memory result)\<rparr>)"

definition judgePresent :: "AbsenceInput \<Rightarrow> AbsenceResult \<Rightarrow> AbsenceResult" where
  "judgePresent input result0 =
     (let result = fold (judgePresentOne input) (map fst (ai_Present input)) result0
      in if length (ai_Present input) > 0
         then result\<lparr>ar_Verdicts := AList.update wholeKey VerdictNormal (ar_Verdicts result),
                     ar_Memory := AList.delete wholeKey (ar_Memory result)\<rparr>
         else result)"

definition closeDroppedOne :: "AbsenceInput \<Rightarrow> bool \<Rightarrow> string \<times> GroupMemory \<Rightarrow> AbsenceResult \<Rightarrow> AbsenceResult" where
  "closeDroppedOne input wholeItemDecided = (\<lambda>(key, entry) result.
     if gm_FirstAbsent entry = 0 then result
     else if wholeItemDecided \<and> key = wholeKey then result
     else if has_key (ro_Groups (ai_Roster input)) key then result
     else if has_key (ar_Verdicts result) key then result
     else if gm_SuppressedAt entry \<noteq> 0 then result\<lparr>ar_Memory := AList.delete key (ar_Memory result)\<rparr>
     else result\<lparr>ar_Verdicts := AList.update key VerdictNormal (ar_Verdicts result),
                 ar_Closing := List.insert key (ar_Closing result),
                 ar_Memory := AList.delete key (ar_Memory result)\<rparr>)"

definition closeDroppedAbsences :: "AbsenceInput \<Rightarrow> bool \<Rightarrow> AbsenceResult \<Rightarrow> AbsenceResult" where
  "closeDroppedAbsences input wholeItemDecided result =
     fold (closeDroppedOne input wholeItemDecided) (ai_Memory input) result"

text \<open>One group of the roster that did not report, or belongs to another business.\<close>

definition judgeExpected :: "AbsenceInput \<Rightarrow> string \<Rightarrow> AbsenceResult \<Rightarrow> AbsenceResult" where
  "judgeExpected input key result =
     (if key \<in> set (ai_OutOfBusiness input)
      then (if gm_SuppressedAt (memoryOf (ai_Memory input) key) = 0
            then result\<lparr>ar_Verdicts := AList.update key VerdictNormal (ar_Verdicts result)\<rparr> else result)
             \<lparr>ar_Memory := AList.delete key (ar_Memory result)\<rparr>
      else if has_key (ar_Verdicts result) key then result
      else
        (let entry0 = memoryOf (ar_Memory result) key
         in if gm_SuppressedAt entry0 \<noteq> 0 then result\<lparr>ar_Facts := countSuppressed (ar_Facts result)\<rparr>
            else
              (let entry = (if gm_FirstAbsent entry0 = 0
                            then entry0\<lparr>gm_FirstAbsent := ai_EvaluationTime input\<rparr> else entry0)
               in if trackingExpired (gm_FirstAbsent entry) (ai_EvaluationTime input) (ai_TrackingHorizonSeconds input)
                  then (if ro_Source (ai_Roster input) = RosterHistory
                        then result\<lparr>ar_Facts := countExpired (ar_Facts result),
                                    ar_Memory := AList.delete key (ar_Memory result)\<rparr>
                        else result\<lparr>ar_Facts := countExpired (ar_Facts result),
                                    ar_Memory := AList.update key (entry\<lparr>gm_SuppressedAt := ai_EvaluationTime input\<rparr>)
                                                   (ar_Memory result)\<rparr>)
                  else result\<lparr>ar_Verdicts := AList.update key VerdictAnomaly (ar_Verdicts result),
                              ar_Facts := countAbsent (gm_FirstAbsent entry) (ai_EvaluationTime input) (ar_Facts result),
                              ar_Memory := AList.update key entry (ar_Memory result)\<rparr>)))"

text \<open>The whole-item absence of an item that expects nothing and saw nothing.\<close>

definition judgeWholeItem :: "AbsenceInput \<Rightarrow> AbsenceResult \<Rightarrow> AbsenceResult" where
  "judgeWholeItem input result =
     (if ai_TrackingExhaustedAt input \<noteq> 0 then closeDroppedAbsences input True result
      else
        (let entry0 = memoryOf (ar_Memory result) wholeKey
         in if gm_SuppressedAt entry0 \<noteq> 0
            then closeDroppedAbsences input True (result\<lparr>ar_Facts := countSuppressed (ar_Facts result)\<rparr>)
            else
              (let entry1 = (if gm_FirstAbsent entry0 = 0
                             then entry0\<lparr>gm_FirstAbsent := ai_EvaluationTime input\<rparr> else entry0);
                   entry = entry1\<lparr>gm_LastSeen := 0\<rparr>
               in if trackingExpired (gm_FirstAbsent entry) (ai_EvaluationTime input) (ai_TrackingHorizonSeconds input)
                  then closeDroppedAbsences input True
                         (result\<lparr>ar_Facts := countExpired (ar_Facts result),
                                 ar_Memory := AList.update wholeKey (entry\<lparr>gm_SuppressedAt := ai_EvaluationTime input\<rparr>)
                                                (ar_Memory result)\<rparr>)
                  else closeDroppedAbsences input True
                         (result\<lparr>ar_Verdicts := AList.update wholeKey VerdictAnomaly (ar_Verdicts result),
                                 ar_Facts := countAbsent (gm_FirstAbsent entry) (ai_EvaluationTime input) (ar_Facts result),
                                 ar_Memory := AList.update wholeKey entry (ar_Memory result)\<rparr>))))"

definition markUnavailable :: "string \<Rightarrow> AbsenceResult \<Rightarrow> AbsenceResult" where
  "markUnavailable key result =
     result\<lparr>ar_Verdicts := AList.update key VerdictUnavailable (ar_Verdicts result),
            ar_Facts := (ar_Facts result)\<lparr>af_Unavailable := af_Unavailable (ar_Facts result) + 1\<rparr>\<rparr>"

definition startAbsence :: "AbsenceInput \<Rightarrow> AbsenceResult" where
  "startAbsence input =
     \<lparr>ar_Verdicts = [], ar_Memory = ai_Memory input, ar_Closing = [],
      ar_Facts = \<lparr>af_Present = length (ai_Present input), af_Expected = length (ro_Groups (ai_Roster input)),
        af_Absent = 0, af_Unavailable = 0, af_Dropped = ai_Dropped input,
        af_RosterSource = ro_Source (ai_Roster input), af_RosterVersion = ro_Version (ai_Roster input),
        af_Expired = 0, af_Suppressed = 0,
        af_AbsentAges = \<lparr>ab_ThisRound = 0, ab_UnderHour = 0, ab_UnderDay = 0, ab_DayOrMore = 0\<rparr>\<rparr>,
      ar_Roster = ai_Roster input, ar_TrackingExhaustedAt = 0, ar_WholeItemPresent = False\<rparr>"

definition evaluateAbsence :: "AbsenceInput \<Rightarrow> AbsenceResult" where
  "evaluateAbsence input =
     (let start = startAbsence input; roster = ai_Roster input
      in if ai_Completeness input \<noteq> CompletenessFull then fold markUnavailable (map fst (ro_Groups roster)) start
         else if ro_Groups roster = [] \<and> ro_Source roster = RosterTargetPlan
         then (let result = closeDroppedAbsences input False (judgePresent input start)
               in result\<lparr>ar_Memory := AList.delete wholeKey (ar_Memory result)\<rparr>)
         else if ro_Groups roster = []
         then (if ai_Present input = [] then judgeWholeItem input start
               else closeDroppedAbsences input True (judgePresent input start))
         else
           (let result = closeDroppedAbsences input False
                           (fold (judgeExpected input) (map fst (ro_Groups roster)) (judgePresent input start))
            in if ro_Source roster = RosterHistory \<and> af_Expired (ar_Facts result) > 0
                  \<and> ar_Memory result = [] \<and> ai_Present input = []
               then result\<lparr>ar_TrackingExhaustedAt := ai_EvaluationTime input\<rparr> else result))"

definition Evaluate :: "AbsenceInput \<Rightarrow> AbsenceResult" where
  "Evaluate input =
     (let evaluated = evaluateAbsence input;
          result = evaluated\<lparr>ar_WholeItemPresent := has_key (ai_Present input) wholeKey\<rparr>
      in if ar_Memory result \<noteq> [] \<or> ar_WholeItemPresent result then result\<lparr>ar_TrackingExhaustedAt := 0\<rparr>
         else if ar_TrackingExhaustedAt result = 0
         then result\<lparr>ar_TrackingExhaustedAt := ai_TrackingExhaustedAt input\<rparr>
         else result)"

section \<open>The history roster\<close>

text \<open>\<open>Inl\<close> is the refusal of a remembered key that does not parse.\<close>

fun historyGroups :: "(string \<times> GroupMemory) list \<Rightarrow> string + (string \<times> Group) list" where
  "historyGroups [] = Inr []"
| "historyGroups ((key, entry) # memory) =
     (if key = wholeKey \<or> gm_LastSeen entry = 0 then historyGroups memory
      else (case ParseGroupKey key of
              None \<Rightarrow> Inl key
            | Some g \<Rightarrow> map_sum id (\<lambda>groups. (key, g) # groups) (historyGroups memory)))"

end
