(* ===== verification/Absence_Correct.thy ===== *)
theory Absence_Correct
  imports Absence
begin

text \<open>
  Correctness of the absence evaluation.  Each pass over a map touches, for a key, only that key's
  verdict and memory, so the evaluation is a decision per group, whatever order the maps are
  iterated in; the safety properties are read off that decision.
\<close>

section \<open>Cells\<close>

text \<open>What a result says of one group: its verdict and its memory.\<close>

type_synonym cell = "Verdict option \<times> GroupMemory option"

definition cellOf :: "AbsenceResult \<Rightarrow> string \<Rightarrow> cell" where
  "cellOf result key = (map_of (ar_Verdicts result) key, map_of (ar_Memory result) key)"

lemma fold_pointwise:
  assumes "\<And>x r k. x \<in> set xs \<Longrightarrow> g (f x r) k = (if k = key x then F x (g r (key x)) else g r k)"
    and "distinct (map key xs)"
  shows "g (fold f xs r) k = (case map_of (map (\<lambda>x. (key x, x)) xs) k of None \<Rightarrow> g r k | Some x \<Rightarrow> F x (g r k))"
  using assms
proof (induction xs arbitrary: r)
  case (Cons x xs)
  have ih: "g (fold f xs (f x r)) k = (case map_of (map (\<lambda>x. (key x, x)) xs) k of None \<Rightarrow> g (f x r) k | Some y \<Rightarrow> F y (g (f x r) k))"
    using Cons by simp
  show ?case
  proof (cases "k = key x")
    case True
    have "map_of (map (\<lambda>x. (key x, x)) xs) k = None"
      using Cons.prems(2) True by (auto simp: map_of_eq_None_iff)
    with ih True Cons.prems(1) [of x] show ?thesis by simp
  next
    case False
    have "g (f x r) k = g r k" using Cons.prems(1) [of x r k] False by simp
    with ih False show ?thesis by (simp split: option.splits)
  qed
qed simp

lemma map_of_self: "map_of (map (\<lambda>x. (x, x)) xs) k = (if k \<in> set xs then Some k else None)"
  by (induction xs) auto

lemma fold_pointwise_keys:
  assumes "\<And>x r k. g (f x r) k = (if k = x then F x (g r x) else g r k)" and "distinct xs"
  shows "g (fold f xs r) k = (if k \<in> set xs then F k (g r k) else g r k)"
  using fold_pointwise [where key = id and g = g and f = f and F = F and xs = xs and r = r and k = k] assms
  by (simp add: map_of_self split: if_splits)

section \<open>Decisions\<close>

abbreviation foreign :: "AbsenceInput \<Rightarrow> string \<Rightarrow> bool" where
  "foreign i k \<equiv> k \<in> set (ai_OutOfBusiness i)"

abbreviation reported :: "AbsenceInput \<Rightarrow> string \<Rightarrow> bool" where
  "reported i k \<equiv> has_key (ai_Present i) k"

abbreviation expected :: "AbsenceInput \<Rightarrow> string \<Rightarrow> bool" where
  "expected i k \<equiv> has_key (ro_Groups (ai_Roster i)) k"

definition presentCell :: "AbsenceInput \<Rightarrow> string \<Rightarrow> cell \<Rightarrow> cell" where
  "presentCell i k = (\<lambda>(v, m).
     if k = wholeKey then (if ai_Present i = [] then (v, m) else (Some VerdictNormal, None))
     else if \<not> reported i k then (v, m)
     else if foreign i k then (v, None)
     else (Some VerdictNormal, Some (zeroMemory\<lparr>gm_LastSeen := ai_EvaluationTime i\<rparr>)))"

definition openedEntry :: "AbsenceInput \<Rightarrow> GroupMemory option \<Rightarrow> GroupMemory" where
  "openedEntry i m = (let entry = (case m of None \<Rightarrow> zeroMemory | Some e \<Rightarrow> e)
     in if gm_FirstAbsent entry = 0 then entry\<lparr>gm_FirstAbsent := ai_EvaluationTime i\<rparr> else entry)"

definition suppressedEntry :: "GroupMemory option \<Rightarrow> bool" where
  "suppressedEntry m \<longleftrightarrow> (\<exists>e. m = Some e \<and> gm_SuppressedAt e \<noteq> 0)"

definition expiredAt :: "AbsenceInput \<Rightarrow> GroupMemory \<Rightarrow> bool" where
  "expiredAt i e \<longleftrightarrow> trackingExpired (gm_FirstAbsent e) (ai_EvaluationTime i) (ai_TrackingHorizonSeconds i)"

definition expectedCell :: "AbsenceInput \<Rightarrow> string \<Rightarrow> cell \<Rightarrow> cell" where
  "expectedCell i k = (\<lambda>(v, m).
     if foreign i k
     then (if suppressedEntry (map_of (ai_Memory i) k) then v else Some VerdictNormal, None)
     else if v \<noteq> None then (v, m)
     else if suppressedEntry m then (v, m)
     else if expiredAt i (openedEntry i m)
     then (v, if ro_Source (ai_Roster i) = RosterHistory then None
              else Some ((openedEntry i m)\<lparr>gm_SuppressedAt := ai_EvaluationTime i\<rparr>))
     else (Some VerdictAnomaly, Some (openedEntry i m)))"

definition droppedCell :: "AbsenceInput \<Rightarrow> bool \<Rightarrow> string \<Rightarrow> cell \<Rightarrow> cell" where
  "droppedCell i wholeItemDecided k = (\<lambda>(v, m).
     case map_of (ai_Memory i) k of
       None \<Rightarrow> (v, m)
     | Some entry \<Rightarrow>
         if gm_FirstAbsent entry = 0 \<or> (wholeItemDecided \<and> k = wholeKey) \<or> expected i k \<or> v \<noteq> None then (v, m)
         else if gm_SuppressedAt entry \<noteq> 0 then (v, None)
         else (Some VerdictNormal, None))"

definition wholeCell :: "AbsenceInput \<Rightarrow> cell \<Rightarrow> cell" where
  "wholeCell i = (\<lambda>(v, m).
     let entry = (openedEntry i m)\<lparr>gm_LastSeen := 0\<rparr>
     in if ai_TrackingExhaustedAt i \<noteq> 0 \<or> suppressedEntry m then (v, m)
        else if expiredAt i entry then (v, Some (entry\<lparr>gm_SuppressedAt := ai_EvaluationTime i\<rparr>))
        else (Some VerdictAnomaly, Some entry))"

text \<open>The decision about one group, as the composition of the passes.\<close>

definition decideGroup :: "AbsenceInput \<Rightarrow> string \<Rightarrow> cell" where
  "decideGroup i k =
     (let c = (None, map_of (ai_Memory i) k)
      in if ai_Completeness i \<noteq> CompletenessFull then (if expected i k then Some VerdictUnavailable else None, snd c)
         else if ro_Groups (ai_Roster i) = [] \<and> ro_Source (ai_Roster i) = RosterTargetPlan
         then (let (v, m) = droppedCell i False k (presentCell i k c) in (v, if k = wholeKey then None else m))
         else if ro_Groups (ai_Roster i) = []
         then (if ai_Present i = [] then droppedCell i True k (if k = wholeKey then wholeCell i c else c)
               else droppedCell i True k (presentCell i k c))
         else droppedCell i False k
                (let c' = presentCell i k c in if expected i k then expectedCell i k c' else c'))"

definition wf_input :: "AbsenceInput \<Rightarrow> bool" where
  "wf_input i \<longleftrightarrow> distinct (map fst (ai_Present i)) \<and> distinct (map fst (ai_Memory i))
     \<and> distinct (map fst (ro_Groups (ai_Roster i)))"

section \<open>The passes, cell by cell\<close>

lemma has_key_iff: "has_key al k \<longleftrightarrow> k \<in> set (map fst al)"
  by (simp add: map_of_eq_None_iff)

lemma judgePresentOne_cell:
  "cellOf (judgePresentOne i x r) k = (if k = x then
     (if foreign i x then (fst (cellOf r x), None) else if x = wholeKey then cellOf r x
      else (Some VerdictNormal, Some (zeroMemory\<lparr>gm_LastSeen := ai_EvaluationTime i\<rparr>))) else cellOf r k)"
  by (auto simp: judgePresentOne_def cellOf_def update_conv' delete_conv')

lemma judgePresent_cell:
  assumes "wf_input i"
  shows "cellOf (judgePresent i r) k = presentCell i k (cellOf r k)"
proof -
  let ?r = "fold (judgePresentOne i) (map fst (ai_Present i)) r"
  have d: "distinct (map fst (ai_Present i))" using assms by (simp add: wf_input_def)
  have c: "cellOf ?r k = (if reported i k then (if foreign i k then (fst (cellOf r k), None) else if k = wholeKey then cellOf r k
      else (Some VerdictNormal, Some (zeroMemory\<lparr>gm_LastSeen := ai_EvaluationTime i\<rparr>))) else cellOf r k)"
    unfolding has_key_iff by (rule fold_pointwise_keys [OF judgePresentOne_cell d])
  have "cellOf (judgePresent i r) k = (if ai_Present i \<noteq> [] \<and> k = wholeKey then (Some VerdictNormal, None) else cellOf ?r k)"
    by (auto simp: judgePresent_def Let_def cellOf_def update_conv' delete_conv')
  with c show ?thesis by (auto simp: presentCell_def split: prod.splits)
qed

lemma judgeExpected_cell:
  "cellOf (judgeExpected i x r) k = (if k = x then expectedCell i x (cellOf r x) else cellOf r k)"
proof -
  have z: "gm_SuppressedAt zeroMemory = 0" by (simp add: zeroMemory_def)
  have s: "gm_SuppressedAt (memoryOf al x) \<noteq> 0 \<longleftrightarrow> suppressedEntry (map_of al x)" for al
    by (auto simp: memoryOf_def suppressedEntry_def z split: option.splits)
  have o: "(if gm_FirstAbsent (memoryOf (ar_Memory r) x) = 0 then (memoryOf (ar_Memory r) x)\<lparr>gm_FirstAbsent := ai_EvaluationTime i\<rparr>
      else memoryOf (ar_Memory r) x) = openedEntry i (map_of (ar_Memory r) x)"
    by (simp add: openedEntry_def memoryOf_def)
  have s': "gm_SuppressedAt (memoryOf al x) = 0 \<longleftrightarrow> \<not> suppressedEntry (map_of al x)" for al using s by blast
  show ?thesis
    unfolding judgeExpected_def Let_def s s' o expiredAt_def [symmetric]
    by (auto simp: cellOf_def expectedCell_def update_conv' delete_conv')
qed

lemma closeDropped_cell:
  assumes "wf_input i"
  shows "cellOf (closeDroppedAbsences i d r) k = droppedCell i d k (cellOf r k)"
proof -
  let ?F = "\<lambda>x (v, m). if gm_FirstAbsent (snd x) = 0 \<or> (d \<and> fst x = wholeKey) \<or> expected i (fst x) \<or> v \<noteq> None then (v, m)
      else if gm_SuppressedAt (snd x) \<noteq> 0 then (v, None) else (Some VerdictNormal, None)"
  have one: "cellOf (closeDroppedOne i d x r) k = (if k = fst x then ?F x (cellOf r (fst x)) else cellOf r k)" for x r k
    by (cases x) (auto simp: closeDroppedOne_def cellOf_def update_conv' delete_conv')
  have "map_of (map (\<lambda>x. (fst x, x)) al) k = map_option (Pair k) (map_of al k)" for al :: "(string \<times> GroupMemory) list"
    by (induction al) auto
  with fold_pointwise [where g = cellOf and f = "closeDroppedOne i d" and F = ?F and key = fst and xs = "ai_Memory i" and r = r and k = k]
    one assms
  show ?thesis
    by (simp add: closeDroppedAbsences_def droppedCell_def wf_input_def split: option.splits prod.splits)
qed

lemma markUnavailable_cell:
  "cellOf (markUnavailable x r) k = (if k = x then (Some VerdictUnavailable, snd (cellOf r x)) else cellOf r k)"
  by (auto simp: markUnavailable_def cellOf_def update_conv')

lemma start_cell: "cellOf (startAbsence i) k = (None, map_of (ai_Memory i) k)"
  by (simp add: startAbsence_def cellOf_def)

lemma cellOf_if: "cellOf (if b then r else r') k = (if b then cellOf r k else cellOf r' k)"
  by simp

lemma judgeWholeItem_cell:
  assumes "wf_input i"
  shows "cellOf (judgeWholeItem i r) k = droppedCell i True k (if k = wholeKey then wholeCell i (cellOf r k) else cellOf r k)"
proof -
  have z: "gm_SuppressedAt zeroMemory = 0" by (simp add: zeroMemory_def)
  have s: "gm_SuppressedAt (memoryOf al x) \<noteq> 0 \<longleftrightarrow> suppressedEntry (map_of al x)" for al x
    by (auto simp: memoryOf_def suppressedEntry_def z split: option.splits)
  have o: "(if gm_FirstAbsent (memoryOf (ar_Memory r) x) = 0 then (memoryOf (ar_Memory r) x)\<lparr>gm_FirstAbsent := ai_EvaluationTime i\<rparr>
      else memoryOf (ar_Memory r) x) = openedEntry i (map_of (ar_Memory r) x)" for x
    by (simp add: openedEntry_def memoryOf_def)
  show ?thesis
    unfolding judgeWholeItem_def Let_def s o expiredAt_def [symmetric]
    by (simp only: cellOf_if closeDropped_cell [OF assms]) (auto simp: cellOf_def wholeCell_def Let_def update_conv')
qed

lemma evaluateAbsence_cell:
  assumes "wf_input i"
  shows "cellOf (evaluateAbsence i) k = decideGroup i k"
proof -
  have d: "distinct (map fst (ro_Groups (ai_Roster i)))" using assms by (simp add: wf_input_def)
  have un: "cellOf (fold markUnavailable (map fst (ro_Groups (ai_Roster i))) r) k
      = (if expected i k then (Some VerdictUnavailable, snd (cellOf r k)) else cellOf r k)" for r k
    unfolding has_key_iff by (rule fold_pointwise_keys [OF markUnavailable_cell d])
  have ex: "cellOf (fold (judgeExpected i) (map fst (ro_Groups (ai_Roster i))) r) k
      = (if expected i k then expectedCell i k (cellOf r k) else cellOf r k)" for r k
    unfolding has_key_iff by (rule fold_pointwise_keys [OF judgeExpected_cell d])
  have upd: "cellOf (r\<lparr>ar_Memory := AList.delete wholeKey (ar_Memory r)\<rparr>) k
      = (fst (cellOf r k), if k = wholeKey then None else snd (cellOf r k))"
    "cellOf (r\<lparr>ar_TrackingExhaustedAt := t\<rparr>) k = cellOf r k" for r t k
    by (auto simp: cellOf_def delete_conv')
  show ?thesis
    unfolding evaluateAbsence_def decideGroup_def Let_def
    by (simp add: un ex upd cellOf_if closeDropped_cell [OF assms] judgePresent_cell [OF assms] judgeWholeItem_cell [OF assms]
        start_cell split_beta if_distrib [of fst] if_distrib [of snd] cong: if_cong split del: if_split) simp
qed

lemma Evaluate_cell: "wf_input i \<Longrightarrow> cellOf (Evaluate i) k = decideGroup i k"
  unfolding evaluateAbsence_cell [symmetric] by (simp add: Evaluate_def Let_def cellOf_def)

end
