(* ===== verification/Absence_Props.thy ===== *)
theory Absence_Props
  imports Absence_Correct
begin

text \<open>
  Properties of the absence evaluation, over the decision per group: independence of iteration order,
  when an absence is reported, the silence of a stopped one, and how rounds compose.
\<close>

section \<open>Reading the decision\<close>

lemma Evaluate_decides:
  assumes "wf_input i"
  shows "map_of (ar_Verdicts (Evaluate i)) k = fst (decideGroup i k)"
    and "map_of (ar_Memory (Evaluate i)) k = snd (decideGroup i k)"
  using Evaluate_cell [OF assms, of k, symmetric] by (simp_all add: cellOf_def)

lemma decide_anomaly_full:
  "fst (decideGroup i k) = Some VerdictAnomaly \<Longrightarrow> ai_Completeness i = CompletenessFull"
  by (auto simp: decideGroup_def Let_def split: if_splits)

lemma droppedCell_fst: "fst (droppedCell i d k (v, m)) = Some VerdictAnomaly \<longleftrightarrow> v = Some VerdictAnomaly"
  by (auto simp: droppedCell_def split: option.splits)

lemma droppedCell_snd: "fst (droppedCell i d k (v, m)) = Some VerdictAnomaly \<Longrightarrow> snd (droppedCell i d k (v, m)) = m"
  by (auto simp: droppedCell_def split: option.splits if_splits)

lemma presentCell_fst: "fst (presentCell i k (None, m)) \<noteq> Some VerdictAnomaly"
  by (auto simp: presentCell_def)

lemma presentCell_quiet:
  "fst (presentCell i k (None, m)) = None \<Longrightarrow> \<not> foreign i k \<Longrightarrow> snd (presentCell i k (None, m)) = m"
  by (auto simp: presentCell_def split: if_splits)

definition quiet :: "AbsenceInput \<Rightarrow> string \<Rightarrow> bool" where
  "quiet i k \<longleftrightarrow> (if k = wholeKey then ai_Present i = [] else \<not> reported i k)"

lemma presentCell_None: "fst (presentCell i k (None, m)) = None \<longleftrightarrow> quiet i k \<or> (k \<noteq> wholeKey \<and> reported i k \<and> foreign i k)"
  by (auto simp: presentCell_def quiet_def)

text \<open>An absence this round would report: not stopped before, and not past the horizon.\<close>

definition tracked :: "AbsenceInput \<Rightarrow> string \<Rightarrow> bool" where
  "tracked i k \<longleftrightarrow> \<not> suppressedEntry (map_of (ai_Memory i) k) \<and> \<not> expiredAt i (openedEntry i (map_of (ai_Memory i) k))"

lemma expectedCell_anomaly:
  assumes "v \<noteq> Some VerdictAnomaly"
  shows "fst (expectedCell i k (v, m)) = Some VerdictAnomaly \<longleftrightarrow>
    \<not> foreign i k \<and> v = None \<and> \<not> suppressedEntry m \<and> \<not> expiredAt i (openedEntry i m)"
  using assms by (auto simp: expectedCell_def)

lemma opened_last_seen: "expiredAt i ((openedEntry i m)\<lparr>gm_LastSeen := t\<rparr>) = expiredAt i (openedEntry i m)"
  by (simp add: expiredAt_def)

definition wholeItemCase :: "AbsenceInput \<Rightarrow> string \<Rightarrow> bool" where
  "wholeItemCase i k \<longleftrightarrow> k = wholeKey \<and> ro_Groups (ai_Roster i) = [] \<and> ro_Source (ai_Roster i) \<noteq> RosterTargetPlan
     \<and> ai_Present i = [] \<and> ai_TrackingExhaustedAt i = 0"

lemma decide_anomaly_iff:
  "fst (decideGroup i k) = Some VerdictAnomaly \<longleftrightarrow> ai_Completeness i = CompletenessFull \<and> tracked i k
     \<and> (expected i k \<and> \<not> foreign i k \<and> quiet i k \<or> wholeItemCase i k)"
proof (cases "ai_Completeness i = CompletenessFull")
  case True
  let ?m = "map_of (ai_Memory i) k"
  obtain v m where p: "presentCell i k (None, ?m) = (v, m)" by force
  have v: "v \<noteq> Some VerdictAnomaly" using presentCell_fst [of i k ?m] by (simp add: p)
  show ?thesis
  proof (cases "ro_Groups (ai_Roster i) = []")
    case nil: True
    then have ne: "\<not> expected i k" by simp
    have w: "fst (wholeCell i (None, ?m)) = Some VerdictAnomaly \<longleftrightarrow> tracked i k \<and> ai_TrackingExhaustedAt i = 0"
      by (auto simp: wholeCell_def Let_def tracked_def opened_last_seen)
    obtain v' m' where wc: "(if k = wholeKey then wholeCell i (None, ?m) else (None, ?m)) = (v', m')" by force
    have "fst (droppedCell i True k (v', m')) = Some VerdictAnomaly \<longleftrightarrow> k = wholeKey \<and> tracked i k \<and> ai_TrackingExhaustedAt i = 0"
      using w wc by (auto simp: droppedCell_fst split: if_splits)
    then show ?thesis
      using True nil ne v wc by (auto simp: decideGroup_def Let_def p droppedCell_fst wholeItemCase_def split_beta)
  next
    case False
    then have "\<not> wholeItemCase i k" by (simp add: wholeItemCase_def)
    moreover have "quiet i k \<and> \<not> foreign i k \<Longrightarrow> v = None \<and> m = ?m"
      using p by (auto simp: presentCell_def quiet_def split: if_splits)
    moreover have "v = None \<and> \<not> foreign i k \<Longrightarrow> quiet i k" using presentCell_None [of i k ?m] by (auto simp: p)
    moreover obtain v' m' where x: "expectedCell i k (v, m) = (v', m')" by force
    ultimately show ?thesis
      using True False v expectedCell_anomaly [OF v, of i k m]
      by (auto simp: decideGroup_def Let_def p droppedCell_fst tracked_def x)
  qed
next
  case False
  then show ?thesis using decide_anomaly_full by blast
qed

text \<open>When an absence of a group began, for the memory of it: this round when it was not absent before.\<close>

definition absentSince :: "AbsenceInput \<Rightarrow> string \<Rightarrow> int" where
  "absentSince i k = gm_FirstAbsent (openedEntry i (map_of (ai_Memory i) k))"

lemma decide_anomaly_memory:
  assumes "fst (decideGroup i k) = Some VerdictAnomaly"
  shows "\<exists>e. snd (decideGroup i k) = Some e \<and> gm_FirstAbsent e = absentSince i k \<and> gm_SuppressedAt e = 0"
proof -
  let ?m = "map_of (ai_Memory i) k"
  have full: "ai_Completeness i = CompletenessFull" and tr: "tracked i k"
    and c: "expected i k \<and> \<not> foreign i k \<and> quiet i k \<or> wholeItemCase i k" using assms by (auto simp: decide_anomaly_iff)
  have s: "gm_SuppressedAt (openedEntry i ?m) = 0"
    using tr by (auto simp: tracked_def suppressedEntry_def openedEntry_def zeroMemory_def Let_def split: option.splits)
  from c show ?thesis
  proof
    assume ex: "expected i k \<and> \<not> foreign i k \<and> quiet i k"
    then have p: "presentCell i k (None, ?m) = (None, ?m)" by (auto simp: presentCell_def quiet_def split: if_splits)
    have "expectedCell i k (None, ?m) = (Some VerdictAnomaly, Some (openedEntry i ?m))"
      using tr ex by (simp add: expectedCell_def tracked_def)
    moreover have "ro_Groups (ai_Roster i) \<noteq> []" using ex by auto
    ultimately have "decideGroup i k = droppedCell i False k (Some VerdictAnomaly, Some (openedEntry i ?m))"
      using full ex p by (auto simp: decideGroup_def Let_def)
    then show ?thesis using s by (auto simp: droppedCell_def absentSince_def split: option.splits)
  next
    assume "wholeItemCase i k"
    then have "decideGroup i k = droppedCell i True k (wholeCell i (None, ?m))"
      using full by (auto simp: decideGroup_def Let_def wholeItemCase_def)
    moreover have "wholeCell i (None, ?m) = (Some VerdictAnomaly, Some ((openedEntry i ?m)\<lparr>gm_LastSeen := 0\<rparr>))"
      using tr \<open>wholeItemCase i k\<close> by (simp add: wholeCell_def Let_def tracked_def opened_last_seen wholeItemCase_def)
    ultimately show ?thesis using s by (auto simp: droppedCell_def absentSince_def split: option.splits)
  qed
qed

text \<open>A stopped absence.\<close>

lemma decide_suppressed:
  assumes "suppressedEntry (map_of (ai_Memory i) k)" "quiet i k"
  shows "fst (decideGroup i k) \<in> {None, Some VerdictUnavailable}"
    and "expected i k \<Longrightarrow> \<not> foreign i k \<Longrightarrow> snd (decideGroup i k) = map_of (ai_Memory i) k"
proof -
  let ?m = "map_of (ai_Memory i) k"
  obtain e where e: "?m = Some e" "gm_SuppressedAt e \<noteq> 0" using assms(1) by (auto simp: suppressedEntry_def)
  have p: "presentCell i k (None, ?m) = (None, ?m)"
    using assms(2) by (auto simp: presentCell_def quiet_def split: if_splits)
  have x: "fst (expectedCell i k (None, ?m)) = None" "\<not> foreign i k \<Longrightarrow> expectedCell i k (None, ?m) = (None, ?m)"
    using assms(1) by (auto simp: expectedCell_def)
  have w: "wholeCell i (None, ?m) = (None, ?m)" using assms(1) by (simp add: wholeCell_def Let_def)
  have wc: "(if k = wholeKey then wholeCell i (None, ?m) else (None, ?m)) = (None, ?m)" using w by (cases "k = wholeKey") simp_all
  have d: "fst (droppedCell i b k (None, m)) = None" for b m
    using e by (auto simp: droppedCell_def)
  obtain m' where xc: "expectedCell i k (None, ?m) = (None, m')" using x(1) by (metis prod.collapse)
  show "fst (decideGroup i k) \<in> {None, Some VerdictUnavailable}"
    unfolding decideGroup_def Let_def p wc xc by (simp add: d split_beta)
  assume ex: "expected i k" and nf: "\<not> foreign i k"
  then have "ro_Groups (ai_Roster i) \<noteq> []" by auto
  moreover have "droppedCell i b k (None, ?m) = (None, ?m)" for b using ex by (auto simp: droppedCell_def split: option.splits)
  ultimately show "snd (decideGroup i k) = ?m" using ex x(2) [OF nf] by (simp add: decideGroup_def Let_def p)
qed

section \<open>Properties\<close>

definition exampleRoster :: Roster where
  "exampleRoster = \<lparr>ro_Version = ''v'', ro_Source = RosterTargetStatic,
     ro_Groups = [(''a'', \<lparr>gr_dimensions = []\<rparr>), (''b'', \<lparr>gr_dimensions = []\<rparr>)]\<rparr>"

definition exampleInput :: AbsenceInput where
  "exampleInput = \<lparr>ai_EvaluationTime = 1000, ai_PeriodSeconds = 60, ai_Completeness = CompletenessFull,
     ai_Present = [(''a'', \<lparr>gr_dimensions = []\<rparr>)], ai_Dropped = 0, ai_Roster = exampleRoster,
     ai_Memory = [(''b'', \<lparr>gm_LastSeen = 400, gm_FirstAbsent = 500, gm_SuppressedAt = 0\<rparr>),
       (''c'', \<lparr>gm_LastSeen = 0, gm_FirstAbsent = 100, gm_SuppressedAt = 700\<rparr>)],
     ai_OutOfBusiness = [], ai_TrackingHorizonSeconds = 86400, ai_TrackingExhaustedAt = 0\<rparr>"

lemma wf_exampleInput: "wf_input exampleInput"
  by (simp add: wf_input_def exampleInput_def exampleRoster_def)

lemma whole_not_single: "wholeKey \<noteq> [c]"
  by (simp add: wholeKey_def GroupKey_def WholeItemGroup_def tagPart_def NoDataDimensionTag_def)

text \<open>
  C25: the evaluation does not depend on the order Go iterates its maps in, and treats every group by its own
  evidence: two inputs whose maps hold the same entries get the same verdict and the same memory for
  every group, and both are the decision per group.
\<close>

theorem absence_order_independent:
  assumes "wf_input i" and "wf_input i'"
    and "i' = i\<lparr>ai_Present := present, ai_Memory := memory, ai_Roster := (ai_Roster i)\<lparr>ro_Groups := groups\<rparr>\<rparr>"
    and "map_of present = map_of (ai_Present i)" and "map_of memory = map_of (ai_Memory i)"
    and "map_of groups = map_of (ro_Groups (ai_Roster i))"
  shows "map_of (ar_Verdicts (Evaluate i')) k = map_of (ar_Verdicts (Evaluate i)) k
    \<and> map_of (ar_Memory (Evaluate i')) k = map_of (ar_Memory (Evaluate i)) k
    \<and> (map_of (ar_Verdicts (Evaluate i)) k, map_of (ar_Memory (Evaluate i)) k) = decideGroup i k"
proof -
  have n: "present = [] \<longleftrightarrow> ai_Present i = []" "groups = [] \<longleftrightarrow> ro_Groups (ai_Roster i) = []"
    using assms(4,6) by (metis map_of_eq_empty_iff)+
  have f: "ai_Present i' = present" "ai_Memory i' = memory" "ro_Groups (ai_Roster i') = groups"
    "ro_Source (ai_Roster i') = ro_Source (ai_Roster i)" "ai_EvaluationTime i' = ai_EvaluationTime i"
    "ai_Completeness i' = ai_Completeness i" "ai_OutOfBusiness i' = ai_OutOfBusiness i"
    "ai_TrackingHorizonSeconds i' = ai_TrackingHorizonSeconds i" "ai_TrackingExhaustedAt i' = ai_TrackingExhaustedAt i"
    by (simp_all add: assms(3))
  have o: "openedEntry i' = openedEntry i" "expiredAt i' = expiredAt i"
    by (rule ext, simp add: openedEntry_def expiredAt_def f cong: if_cong)+
  have "presentCell i' k = presentCell i k" "expectedCell i' k = expectedCell i k"
    "droppedCell i' d k = droppedCell i d k" "wholeCell i' = wholeCell i" for d
    unfolding presentCell_def expectedCell_def droppedCell_def wholeCell_def f o n assms(4-6) by (rule refl)+
  then have "decideGroup i' k = decideGroup i k"
    unfolding decideGroup_def f n assms(4-6) by presburger
  then show ?thesis by (simp add: Evaluate_decides [OF assms(1)] Evaluate_decides [OF assms(2)])
qed

theorem absence_order_independent_witness:
  "map_of (ar_Verdicts (Evaluate (exampleInput\<lparr>ai_Memory := rev (ai_Memory exampleInput)\<rparr>))) ''c''
     = map_of (ar_Verdicts (Evaluate exampleInput)) ''c''"
proof -
  have "map_of (rev (ai_Memory exampleInput)) = map_of (ai_Memory exampleInput)"
    by (auto simp: exampleInput_def)
  moreover have wf: "wf_input (exampleInput\<lparr>ai_Memory := rev (ai_Memory exampleInput)\<rparr>)"
    by (simp add: wf_input_def exampleInput_def exampleRoster_def)
  moreover have "exampleInput\<lparr>ai_Memory := rev (ai_Memory exampleInput)\<rparr> = exampleInput\<lparr>ai_Present := ai_Present exampleInput,
      ai_Memory := rev (ai_Memory exampleInput), ai_Roster := (ai_Roster exampleInput)\<lparr>ro_Groups := ro_Groups (ai_Roster exampleInput)\<rparr>\<rparr>"
    by (simp add: exampleInput_def exampleRoster_def)
  ultimately show ?thesis
    using absence_order_independent [OF wf_exampleInput wf _ refl _ refl, where k = "''c''"] by blast
qed

text \<open>
  C23: an absence is reported exactly when the round looked, the group is expected and its own business's
  and did not report (or nothing is expected and nothing at all arrived), and its tracking has
  neither stopped before nor reached the horizon; and the memory then keeps the start of the absence:
  this round for a new one, the old start otherwise.
\<close>

theorem anomaly_iff_open_absence:
  assumes "wf_input i"
  shows "(map_of (ar_Verdicts (Evaluate i)) k = Some VerdictAnomaly \<longleftrightarrow> ai_Completeness i = CompletenessFull \<and> tracked i k
      \<and> (expected i k \<and> \<not> foreign i k \<and> quiet i k \<or> wholeItemCase i k))
    \<and> (map_of (ar_Verdicts (Evaluate i)) k = Some VerdictAnomaly \<longrightarrow>
       (\<exists>e. map_of (ar_Memory (Evaluate i)) k = Some e \<and> gm_FirstAbsent e = absentSince i k \<and> gm_SuppressedAt e = 0))"
  using decide_anomaly_iff [of i k] decide_anomaly_memory [of i k] by (simp add: Evaluate_decides [OF assms])

theorem anomaly_iff_open_absence_witness:
  "map_of (ar_Verdicts (Evaluate exampleInput)) ''b'' = Some VerdictAnomaly"
  using anomaly_iff_open_absence [OF wf_exampleInput, of "''b''"] whole_not_single [of "CHR ''b''"]
  by (simp add: exampleInput_def exampleRoster_def tracked_def quiet_def suppressedEntry_def expiredAt_def openedEntry_def
      trackingExpired_def i64_def)



text \<open>A remembered key that was seen as a group parses; this is what the history roster relies on.\<close>

definition parseable :: "(string \<times> GroupMemory) list \<Rightarrow> bool" where
  "parseable memory \<longleftrightarrow> (\<forall>(k, e) \<in> set memory. k \<noteq> wholeKey \<and> gm_LastSeen e \<noteq> 0 \<longrightarrow> ParseGroupKey k \<noteq> None)"

lemma historyGroups_total: "parseable memory \<Longrightarrow> \<exists>groups. historyGroups memory = Inr groups"
proof (induction memory)
  case (Cons x memory)
  obtain k e where x: "x = (k, e)" by force
  from Cons obtain groups where "historyGroups memory = Inr groups" by (auto simp: parseable_def)
  with Cons.prems x show ?case by (auto simp: parseable_def split: option.splits)
qed simp

lemma decide_last_seen:
  assumes "snd (decideGroup i k) = Some e" "gm_LastSeen e \<noteq> 0" "k \<noteq> wholeKey"
  shows "reported i k \<or> (\<exists>e'. map_of (ai_Memory i) k = Some e' \<and> gm_LastSeen e' \<noteq> 0)"
proof (rule ccontr)
  assume n: "\<not> ?thesis"
  let ?m = "map_of (ai_Memory i) k"
  define low where "low m \<longleftrightarrow> (\<forall>e. m = Some e \<longrightarrow> gm_LastSeen e = 0)" for m :: "GroupMemory option"
  have m: "low ?m" using n by (auto simp: low_def)
  have p: "presentCell i k (None, ?m) = (None, ?m)" using n assms(3) by (simp add: presentCell_def)
  have o: "gm_LastSeen (openedEntry i ?m) = 0"
    using m by (auto simp: low_def openedEntry_def zeroMemory_def Let_def split: option.splits)
  then have x: "low (snd (expectedCell i k (None, ?m)))" using m by (auto simp: low_def expectedCell_def)
  have d: "low (snd (droppedCell i b k c))" if "low (snd c)" for b c
    using that by (cases c) (auto simp: low_def droppedCell_def split: option.splits if_splits)
  have "low (snd (droppedCell i b k (None, ?m)))" "low (snd (droppedCell i b k (expectedCell i k (None, ?m))))" for b
    using d [of "(None, ?m)"] d [OF x] m by simp_all
  then have "low (snd (decideGroup i k))"
    unfolding decideGroup_def Let_def p using m assms(3) by (simp add: split_beta if_distrib [of snd])
  then have "\<forall>e. snd (decideGroup i k) = Some e \<longrightarrow> gm_LastSeen e = 0" by (simp add: low_def)
  with assms(1,2) show False by blast
qed

lemma distinct_update_keys: "distinct (map fst al) \<Longrightarrow> distinct (map fst (AList.update k v al))"
  by (rule distinct_update)

lemma fold_keeps: "(\<And>x r. x \<in> set xs \<Longrightarrow> P r \<Longrightarrow> P (f x r)) \<Longrightarrow> P r \<Longrightarrow> P (fold f xs r)"
  by (induction xs arbitrary: r) auto

lemma Evaluate_memory_distinct:
  assumes "wf_input i"
  shows "distinct (map fst (ar_Memory (Evaluate i)))"
proof -
  let ?P = "\<lambda>r. distinct (map fst (ar_Memory r))"
  have s: "?P (startAbsence i)" using assms by (simp add: startAbsence_def wf_input_def)
  have j: "?P (judgePresent i r)" if "?P r" for r
  proof -
    have "?P (fold (judgePresentOne i) (map fst (ai_Present i)) r)"
      by (rule fold_keeps [where P = ?P]) (use that in \<open>auto simp: judgePresentOne_def distinct_update distinct_delete\<close>)
    then show ?thesis by (auto simp: judgePresent_def Let_def distinct_delete)
  qed
  have c: "?P (closeDroppedAbsences i d r)" if "?P r" for d r
    unfolding closeDroppedAbsences_def
    by (rule fold_keeps [where P = ?P]) (use that in \<open>auto simp: closeDroppedOne_def distinct_delete\<close>)
  have e: "?P (fold (judgeExpected i) ks r)" if "?P r" for ks r
    by (rule fold_keeps [where P = ?P]) (use that in \<open>auto simp: judgeExpected_def Let_def distinct_update distinct_delete\<close>)
  have u: "?P (fold markUnavailable ks r)" if "?P r" for ks r
    by (rule fold_keeps [where P = ?P]) (use that in \<open>auto simp: markUnavailable_def\<close>)
  have w: "?P (judgeWholeItem i r)" if "?P r" for r
    using that by (auto simp: judgeWholeItem_def Let_def intro!: c distinct_update)
  have "?P (evaluateAbsence i)"
    unfolding evaluateAbsence_def Let_def using s j c e u w by (auto intro!: distinct_delete)
  then show ?thesis by (simp add: Evaluate_def Let_def)
qed

text \<open>
  Rounds compose.  When the groups that report are projections onto named dimensions and the
  memory a round starts from has only parseable groups, so has the memory it leaves, and the next
  round's history roster is built without refusing a key.
\<close>

theorem history_roster_never_refuses:
  assumes "wf_input i" and "parseable (ai_Memory i)"
    and "ai_Present i = pt_Groups (ProjectSeries series agg)" and "[] \<notin> set agg"
  shows "parseable (ar_Memory (Evaluate i)) \<and> (\<exists>groups. historyGroups (ar_Memory (Evaluate i)) = Inr groups)"
proof -
  have "ParseGroupKey k \<noteq> None" if "(k, e) \<in> set (ar_Memory (Evaluate i))" "k \<noteq> wholeKey" "gm_LastSeen e \<noteq> 0" for k e
  proof -
    have "map_of (ar_Memory (Evaluate i)) k = Some e"
      using that(1) Evaluate_memory_distinct [OF assms(1)] by simp
    then have "snd (decideGroup i k) = Some e" using Evaluate_decides(2) [OF assms(1)] by simp
    from decide_last_seen [OF this that(3,2)] show ?thesis
    proof
      assume "reported i k"
      then have "k \<in> fst ` set (pt_Groups (ProjectSeries series agg))" unfolding has_key_iff assms(3) by simp
      then have "k \<in> GroupKey ` projected series agg" using ProjectSeries_spec [of series agg] by simp
      then show ?thesis using Project_parses [OF _ assms(4)] by (auto simp: projected_def)
    next
      assume "\<exists>e'. map_of (ai_Memory i) k = Some e' \<and> gm_LastSeen e' \<noteq> 0"
      then show ?thesis using assms(2) that(2) by (auto simp: parseable_def dest: map_of_SomeD)
    qed
  qed
  then have "parseable (ar_Memory (Evaluate i))" by (auto simp: parseable_def)
  with historyGroups_total show ?thesis by blast
qed

theorem history_roster_never_refuses_witness:
  "\<exists>groups. historyGroups (ar_Memory (Evaluate (exampleInput\<lparr>ai_Memory := [],
     ai_Present := pt_Groups (ProjectSeries [exampleDimensions] [''ip''])\<rparr>))) = Inr groups"
proof -
  let ?i = "exampleInput\<lparr>ai_Memory := [], ai_Present := pt_Groups (ProjectSeries [exampleDimensions] [''ip''])\<rparr>"
  have "wf_input ?i"
    by (simp add: wf_input_def exampleInput_def exampleRoster_def ProjectSeries_def projectOne_def Project_def exampleDimensions_def)
  moreover have "parseable (ai_Memory ?i)" by (simp add: parseable_def)
  ultimately show ?thesis using history_roster_never_refuses [of ?i "[exampleDimensions]" "[''ip'']"] by simp
qed

text \<open>
  The horizon does not empty a history roster only to have the whole item reported instead.  Once a round
  leaves the fact that tracking is exhausted, its memory is empty, and the next round that looks and
  sees nothing gives no verdict and carries the fact on.
\<close>

theorem exhausted_rounds_stay_quiet:
  assumes "ar_TrackingExhaustedAt (Evaluate i) \<noteq> 0"
    and "ai_Memory i' = ar_Memory (Evaluate i)" and "ai_TrackingExhaustedAt i' = ar_TrackingExhaustedAt (Evaluate i)"
    and "ai_Completeness i' = CompletenessFull" and "ai_Present i' = []"
    and "ro_Source (ai_Roster i') = RosterHistory" and "historyGroups (ai_Memory i') = Inr (ro_Groups (ai_Roster i'))"
  shows "ar_Memory (Evaluate i) = [] \<and> ar_Verdicts (Evaluate i') = [] \<and> ar_Memory (Evaluate i') = []
    \<and> ar_TrackingExhaustedAt (Evaluate i') = ar_TrackingExhaustedAt (Evaluate i)"
proof -
  have m: "ar_Memory (Evaluate i) = []" using assms(1) by (auto simp: Evaluate_def Let_def split: if_splits)
  then have g: "ai_Memory i' = []" "ro_Groups (ai_Roster i') = []" using assms(2,7) by simp_all
  have "evaluateAbsence i' = startAbsence i'"
    using assms(1,3-6) g by (simp add: evaluateAbsence_def judgeWholeItem_def closeDroppedAbsences_def Let_def)
  then show ?thesis using m g assms(1,3,5) by (simp add: Evaluate_def Let_def startAbsence_def)
qed

text \<open>A history roster of one group, absent for longer than the horizon.\<close>

definition exampleExpiring :: AbsenceInput where
  "exampleExpiring = exampleInput\<lparr>ai_Present := [], ai_Memory := [(''b'', \<lparr>gm_LastSeen = 40, gm_FirstAbsent = 50, gm_SuppressedAt = 0\<rparr>)],
     ai_Roster := exampleRoster\<lparr>ro_Source := RosterHistory, ro_Groups := [(''b'', \<lparr>gr_dimensions = []\<rparr>)]\<rparr>,
     ai_TrackingHorizonSeconds := 600\<rparr>"

lemma exampleExpiring_exhausts: "ar_TrackingExhaustedAt (Evaluate exampleExpiring) = 1000 \<and> ar_Memory (Evaluate exampleExpiring) = []"
  by (simp add: exampleExpiring_def exampleInput_def exampleRoster_def Evaluate_def evaluateAbsence_def Let_def startAbsence_def
      judgePresent_def judgeExpected_def memoryOf_def trackingExpired_def i64_def countExpired_def closeDroppedAbsences_def closeDroppedOne_def)

theorem exhausted_rounds_stay_quiet_witness:
  "ar_Verdicts (Evaluate (exampleExpiring\<lparr>ai_Memory := [], ai_TrackingExhaustedAt := 1000,
     ai_Roster := exampleRoster\<lparr>ro_Source := RosterHistory, ro_Groups := []\<rparr>\<rparr>)) = []"
proof -
  let ?i' = "exampleExpiring\<lparr>ai_Memory := [], ai_TrackingExhaustedAt := 1000,
     ai_Roster := exampleRoster\<lparr>ro_Source := RosterHistory, ro_Groups := []\<rparr>\<rparr>"
  have "ai_Completeness ?i' = CompletenessFull" "ai_Present ?i' = []" by (simp_all add: exampleExpiring_def exampleInput_def)
  then show ?thesis using exhausted_rounds_stay_quiet [of exampleExpiring ?i'] exampleExpiring_exhausts by simp
qed

end
