(* ===== verification/Runner.thy ===== *)
theory Runner
  imports RecordID
begin

text \<open>
  The Runner of the scheduler, bound to one owned Query Group: the data of
  \<open>scheduler/runtime.go\<close> and \<open>scheduler/recovery.go\<close> it works on, and the attempts of
  \<open>scheduler/recovery.go\<close>, that is which operation a Slot is run as and how long a failed
  attempt backs off.

  An instant (\<open>time.Time\<close>) is the number of nanoseconds since the Unix epoch, an \<^typ>\<open>int\<close>; the
  zero time is the instant Go gives it, the start of the year 1.  A \<open>time.Duration\<close> is an \<open>int64\<close>
  of nanoseconds.  The clock \<open>runner.now\<close> is read several times in one operation and may move in
  between: an operation takes a function \<open>now\<close> that gives the reading of each of its call sites,
  numbered in the order of the text.
\<close>

section \<open>Time\<close>

definition nanosecondsPerSecond :: int where "nanosecondsPerSecond = 1000000000"
definition zeroTime :: int where "zeroTime = - 62135596800 * 1000000000"

definition UnixMilli :: "int \<Rightarrow> int" where "UnixMilli t = t div 1000000"
definition timeUnixMilli :: "int \<Rightarrow> int" where "timeUnixMilli ms = ms * 1000000"

text \<open>\<open>Time.Sub\<close> saturates at the ends of a duration.\<close>

definition timeSub :: "int \<Rightarrow> int \<Rightarrow> int" where
  "timeSub t u = max (- (2 ^ 63)) (min maxInt64 (t - u))"

text \<open>The readings of an operation that starts after \<open>n\<close> of them were made.\<close>

definition laterReads :: "nat \<Rightarrow> (nat \<Rightarrow> int) \<Rightarrow> nat \<Rightarrow> int" where
  "laterReads n now = (\<lambda>k. now (n + k))"

section \<open>The FNV-1a hashes of \<open>hash/fnv\<close>\<close>

definition fnv64a :: "8 word list \<Rightarrow> 64 word" where
  "fnv64a = (\<lambda>bs. fold (\<lambda>b h. (h XOR ucast b) * 1099511628211) bs 14695981039346656037)"

definition fnv32a :: "8 word list \<Rightarrow> 32 word" where
  "fnv32a = (\<lambda>bs. fold (\<lambda>b h. (h XOR ucast b) * 16777619) bs 2166136261)"

section \<open>The data of a round\<close>

record SlotIdentity =
  si_QueryGroup :: string
  si_EvaluationTime :: int

record FrozenExecutionContractRef =
  fc_Slot :: SlotIdentity
  fc_SnapshotRevision :: string
  fc_QueryRevision :: string
  fc_ScheduleRevision :: string
  fc_ScheduleSegmentStart :: int
  fc_DuePlanSetDigest :: string
  fc_ReadHoldMillis :: int

record OwnerFence =
  of_QueryGroup :: string
  of_OwnerID :: string
  of_OwnerEpoch :: nat
  of_LeaseToken :: string

datatype Operation =
    OperationNormal | OperationRetry | OperationReplay | OperationProbe | OperationSupplement
  | OperationOther string

datatype ReplayDisposition =
    ReplayUnset | ReplayLive | ReplayEligible | ReplayExpired | ReplayOther string

record SlotRecoveryFacts =
  rf_RecheckAtUnixMilli :: int
  rf_Disposition :: ReplayDisposition
  rf_Reason :: string
  rf_Distance :: nat
  rf_Age :: int
  rf_ReadyAtUnixMilli :: int
  rf_DistanceBoundaryUnixMilli :: int

record SlotDispatchContext =
  dc_Operation :: Operation
  dc_OwnerFence :: OwnerFence
  dc_AssignmentGeneration :: nat

text \<open>Of an expired range the round reads the contracts of its first and last Slot.\<close>

record ExpiredRange =
  er_First :: FrozenExecutionContractRef
  er_Last :: FrozenExecutionContractRef

record FrozenSlot =
  fs_ExpiredRange :: "ExpiredRange option"
  fs_Contract :: FrozenExecutionContractRef
  fs_EarliestQueryDeadlineUnixMilli :: int
  fs_RecoveryUntilUnixMilli :: int
  fs_KeepUntilUnixMilli :: int
  fs_Dispatch :: SlotDispatchContext
  fs_ExpectedNextSlot :: int
  fs_Recovery :: SlotRecoveryFacts

datatype QueryAvailability =
  QueryAvailabilityUnknown | QueryAvailabilityAvailable | QueryAvailabilityUnavailable

record PhysicalQueryClock =
  qc_BudgetMillis :: int
  qc_ElapsedMillis :: int

record SlotExecutionResult =
  sx_QueryAvailability :: QueryAvailability
  sx_QueryUnavailableReason :: string
  sx_PrimaryQueryClock :: "PhysicalQueryClock option"
  sx_Completed :: bool
  sx_Result :: string
  sx_ReasonCode :: string
  sx_SourceRetry :: bool

definition ReasonQueryPartial :: string where "ReasonQueryPartial = ''QUERY_PARTIAL''"
definition ReasonQueryTimeout :: string where "ReasonQueryTimeout = ''QUERY_TIMEOUT''"
definition ResultRetrying :: string where "ResultRetrying = ''retrying''"

text \<open>What a round learned of the schedule, and the bound it leaves for the dispatcher.\<close>

record SlotDueFacts =
  df_NotDueUntilUnix :: int
  df_IntervalSeconds :: int
  df_Retired :: bool

datatype DueVerdict = DueVerdictUnknown | DueVerdictDue | DueVerdictNotDue

record RunnerDueBound =
  db_NotDueUntilUnix :: int
  db_IntervalSeconds :: int
  db_Deferred :: bool
  db_QueryCooldown :: bool
  db_Retired :: bool
  db_Executed :: bool
  db_Verdict :: DueVerdict

section \<open>Limits and attempts\<close>

record RecoveryLimits =
  rl_ProcessQueryPermits :: int
  rl_RecoveryQueryPermits :: int
  rl_ReadyQueueCapacity :: int
  rl_RecoveryQueueCapacity :: int
  rl_MaxQueuedItemsPerQG :: int
  rl_MaxReplaySlots :: nat
  rl_MaxReplayAge :: int
  rl_RetryMinDelay :: int
  rl_RetryMaxDelay :: int

definition limitsValid :: "RecoveryLimits \<Rightarrow> bool" where
  "limitsValid limits \<longleftrightarrow>
     \<not> (rl_ProcessQueryPermits limits \<le> 0 \<or> rl_RecoveryQueryPermits limits < 0
        \<or> rl_RecoveryQueryPermits limits \<ge> rl_ProcessQueryPermits limits
        \<or> rl_ReadyQueueCapacity limits \<le> 0 \<or> rl_RecoveryQueueCapacity limits \<le> 0
        \<or> rl_MaxQueuedItemsPerQG limits \<le> 0 \<or> rl_MaxQueuedItemsPerQG limits \<ge> rl_ReadyQueueCapacity limits
        \<or> rl_MaxQueuedItemsPerQG limits \<ge> rl_RecoveryQueueCapacity limits
        \<or> rl_MaxReplaySlots limits = 0 \<or> rl_MaxReplayAge limits \<le> 0
        \<or> rl_RetryMinDelay limits \<le> 0 \<or> rl_RetryMaxDelay limits < rl_RetryMinDelay limits)"

record recoveryAttempt =
  at_contract :: FrozenExecutionContractRef
  at_next :: Operation
  at_nextAt :: int
  at_failures :: nat
  at_probeUsed :: bool

text \<open>The doubling loop of \<open>retryDelay\<close>; leaving it by \<open>break\<close> is returning the largest delay.\<close>

function retryDelayLoop :: "int \<Rightarrow> nat \<Rightarrow> nat \<Rightarrow> int \<Rightarrow> int" where
  "retryDelayLoop maxDelay step failures delay =
     (if step < failures \<and> delay < maxDelay
      then (if delay > maxDelay sdiv 2 then maxDelay
            else retryDelayLoop maxDelay (step + 1) failures (i64 (delay * 2)))
      else delay)"
  by pat_completeness auto
termination
  by (relation "measure (\<lambda>(_, step, failures, _). failures - step)") auto

declare retryDelayLoop.simps [simp del]

definition retryDelay :: "RecoveryLimits \<Rightarrow> string \<Rightarrow> nat \<Rightarrow> int" where
  "retryDelay limits queryGroup failures =
     (let delay = retryDelayLoop (rl_RetryMaxDelay limits) 1 failures (rl_RetryMinDelay limits)
      in if delay \<ge> rl_RetryMaxDelay limits \<or> failures \<le> 1 then delay
         else
           (let jitterRange = delay sdiv 4
            in if jitterRange \<le> 0 then delay
               else
                 (let hash = fnv32a (bytesOf queryGroup @ [word_of_nat failures, word_of_nat (failures div 2 ^ 8)]);
                      jitter = uint hash mod (jitterRange + 1)
                  in if i64 (delay + jitter) > rl_RetryMaxDelay limits then rl_RetryMaxDelay limits
                     else i64 (delay + jitter))))"

definition operationFor ::
  "bool \<Rightarrow> FrozenSlot \<Rightarrow> int \<Rightarrow> recoveryAttempt option \<Rightarrow> Operation option \<times> recoveryAttempt option" where
  "operationFor recoveryEnabled slot at attempt =
     (if \<not> recoveryEnabled then (Some (dc_Operation (fs_Dispatch slot)), attempt)
      else
        (let attempt' = (case attempt of
                           Some a \<Rightarrow> (if at_contract a \<noteq> fs_Contract slot then None else Some a)
                         | None \<Rightarrow> None)
         in case attempt' of
              Some a \<Rightarrow>
                if at < at_nextAt a then (None, attempt')
                else if rf_Disposition (fs_Recovery slot) = ReplayExpired then (Some OperationNormal, attempt')
                else (Some (at_next a), attempt')
            | None \<Rightarrow>
                if rf_Disposition (fs_Recovery slot) = ReplayExpired then (Some OperationNormal, attempt')
                else (Some (dc_Operation (fs_Dispatch slot)), attempt')))"

text \<open>The attempt a failure is counted on: the one kept for the same contract, or a new one.\<close>

definition attemptOf :: "FrozenSlot \<Rightarrow> recoveryAttempt option \<Rightarrow> recoveryAttempt" where
  "attemptOf slot attempt =
     (let fresh = \<lparr>at_contract = fs_Contract slot, at_next = OperationOther [], at_nextAt = zeroTime,
                    at_failures = 0, at_probeUsed = False\<rparr>
      in case attempt of
           None \<Rightarrow> fresh
         | Some a \<Rightarrow> if at_contract a \<noteq> fs_Contract slot then fresh else a)"

definition recordExecutionFailure ::
  "bool \<Rightarrow> RecoveryLimits \<Rightarrow> string \<Rightarrow> FrozenSlot \<Rightarrow> int \<Rightarrow> recoveryAttempt option \<Rightarrow> recoveryAttempt option" where
  "recordExecutionFailure recoveryEnabled limits queryGroup slot at attempt =
     (if \<not> recoveryEnabled then attempt
      else
        (let a = attemptOf slot attempt; failures = u32 (at_failures a + 1)
         in Some (a\<lparr>at_failures := failures, at_next := OperationRetry,
                     at_nextAt := at + retryDelay limits queryGroup failures\<rparr>)))"

definition recordResult ::
  "bool \<Rightarrow> RecoveryLimits \<Rightarrow> string \<Rightarrow> FrozenSlot \<Rightarrow> SlotExecutionResult \<Rightarrow> int
     \<Rightarrow> recoveryAttempt option \<Rightarrow> recoveryAttempt option" where
  "recordResult recoveryEnabled limits queryGroup slot result at attempt =
     (if \<not> recoveryEnabled then attempt
      else if sx_Completed result \<or> sx_Result result \<noteq> ResultRetrying then None
      else
        (let a = attemptOf slot attempt; failures = u32 (at_failures a + 1);
             a' = (if sx_ReasonCode result = ReasonQueryPartial \<and> \<not> at_probeUsed a
                   then a\<lparr>at_next := OperationProbe, at_probeUsed := True\<rparr>
                   else a\<lparr>at_next := OperationRetry\<rparr>)
         in Some (a'\<lparr>at_failures := failures, at_nextAt := at + retryDelay limits queryGroup failures\<rparr>)))"

definition attemptNo :: "FrozenSlot \<Rightarrow> recoveryAttempt option \<Rightarrow> nat" where
  "attemptNo slot attempt =
     (case attempt of
        None \<Rightarrow> 1
      | Some a \<Rightarrow> if at_contract a \<noteq> fs_Contract slot then 1 else u32 (at_failures a + 1))"

section \<open>Capped doubling\<close>

text \<open>
  Both backoffs of the scheduler double a delay until it reaches a cap, stopping at the cap as
  soon as doubling would pass it.  What such a loop computes is proved once, of any loop that
  unfolds that way.
\<close>

locale capped_doubling =
  fixes loop :: "int \<Rightarrow> nat \<Rightarrow> nat \<Rightarrow> int \<Rightarrow> int"
  assumes loop_stop: "\<not> (i < n \<and> d < cap) \<Longrightarrow> loop cap i n d = d"
    and loop_step: "cap \<le> maxInt64 \<Longrightarrow> i < n \<Longrightarrow> 0 < d \<Longrightarrow> d < cap \<Longrightarrow>
      loop cap i n d = (if d > cap div 2 then cap else loop cap (i + 1) n (d * 2))"
begin

lemma loop_value:
  assumes "cap \<le> maxInt64" "0 < d" "d \<le> cap"
  shows "loop cap i n d = min cap (d * 2 ^ (n - i))"
  using assms(2,3)
proof (induction "n - i" arbitrary: i d)
  case 0
  then show ?case using loop_stop [of i n d cap] by simp
next
  case (Suc m)
  have less: "i < n" and step: "n - i = Suc (n - (i + 1))" using Suc.hyps(2) by auto
  have one: "1 \<le> (2::int) ^ (n - (i + 1))" by simp
  consider "d = cap" | "d < cap" "d > cap div 2" | "d < cap" "d \<le> cap div 2" using Suc.prems by linarith
  then show ?case
  proof cases
    case 1
    have "d * 1 \<le> d * 2 ^ (n - i)" using Suc.prems(1) by (intro mult_left_mono) auto
    then show ?thesis using 1 loop_stop [of i n d cap] by simp
  next
    case 2
    have "cap \<le> (d * 2) * 1" using 2 by linarith
    also have "\<dots> \<le> (d * 2) * 2 ^ (n - (i + 1))" using Suc.prems(1) one by (intro mult_left_mono) auto
    finally have "cap \<le> d * 2 ^ (n - i)" unfolding step by simp
    then show ?thesis using loop_step [OF assms(1) less Suc.prems(1) 2(1)] 2(2) by simp
  next
    case 3
    have "loop cap (i + 1) n (d * 2) = min cap ((d * 2) * 2 ^ (n - (i + 1)))"
      by (rule Suc.hyps(1)) (use Suc.hyps(2) Suc.prems 3 in auto)
    then show ?thesis using loop_step [OF assms(1) less Suc.prems(1) 3(1)] 3(2) unfolding step by simp
  qed
qed

lemma loop_bounds:
  assumes "cap \<le> maxInt64" "0 < d" "d \<le> cap"
  shows "d \<le> loop cap i n d" "loop cap i n d \<le> cap"
proof -
  have "d * 1 \<le> d * 2 ^ (n - i)" using assms by (intro mult_left_mono) auto
  then show "d \<le> loop cap i n d" "loop cap i n d \<le> cap" using loop_value [OF assms] assms(3) by auto
qed

end

text \<open>Doubling a delay that is at most half of the cap stays in the range of a duration.\<close>

lemma doubling_no_wrap: "cap \<le> maxInt64 \<Longrightarrow> 0 < d \<Longrightarrow> d \<le> cap div 2 \<Longrightarrow> i64 (d * 2) = d * 2"
  by (intro i64_id) auto

lemma half_sdiv: "0 < d \<Longrightarrow> d < cap \<Longrightarrow> cap sdiv 2 = cap div (2::int)"
  by (simp add: sdiv_pos)

interpretation retry: capped_doubling retryDelayLoop
  by unfold_locales
    (subst retryDelayLoop.simps, auto simp: half_sdiv doubling_no_wrap not_less)+

section \<open>Lemmas on time\<close>

lemma mono_laterReads: "mono now \<Longrightarrow> mono (laterReads n now)"
  by (auto simp: laterReads_def mono_def)

lemma laterReads_apply [simp]: "laterReads n now k = now (n + k)"
  by (simp add: laterReads_def)

lemma after_UnixMilli: "ms > UnixMilli t \<Longrightarrow> timeUnixMilli ms > t"
proof -
  assume "ms > UnixMilli t"
  then have "(t div 1000000 + 1) * 1000000 \<le> ms * 1000000" by (intro mult_right_mono) (auto simp: UnixMilli_def)
  moreover have "t < (t div 1000000 + 1) * 1000000" by presburger
  ultimately show ?thesis by (simp add: timeUnixMilli_def)
qed

section \<open>The backoff of a failed attempt\<close>

lemma retryDelay_bounds:
  assumes "limitsValid limits" "rl_RetryMaxDelay limits < 2 ^ 62"
  shows "rl_RetryMinDelay limits \<le> retryDelay limits queryGroup failures"
    and "retryDelay limits queryGroup failures \<le> rl_RetryMaxDelay limits"
proof -
  let ?d = "retryDelayLoop (rl_RetryMaxDelay limits) 1 failures (rl_RetryMinDelay limits)"
  have min: "0 < rl_RetryMinDelay limits" "rl_RetryMinDelay limits \<le> rl_RetryMaxDelay limits"
    using assms(1) by (auto simp: limitsValid_def)
  have max: "rl_RetryMaxDelay limits \<le> maxInt64" using assms(2) by (simp add: maxInt64_def)
  note d = retry.loop_bounds [OF max min, of 1 failures]
  have quarter: "0 \<le> ?d sdiv 4" "?d sdiv 4 \<le> ?d" using d(1) min(1) by (auto simp: sdiv_pos)
  have no_wrap: "i64 (?d + n mod (?d sdiv 4 + 1)) = ?d + n mod (?d sdiv 4 + 1)"
    and jitter: "0 \<le> n mod (?d sdiv 4 + 1)" for n
  proof -
    have pos: "0 < ?d sdiv 4 + 1" using quarter(1) by linarith
    have range: "0 \<le> n mod (?d sdiv 4 + 1)" "n mod (?d sdiv 4 + 1) < ?d sdiv 4 + 1"
      by (rule pos_mod_sign [OF pos], rule pos_mod_bound [OF pos])
    then show "0 \<le> n mod (?d sdiv 4 + 1)" by simp
    show "i64 (?d + n mod (?d sdiv 4 + 1)) = ?d + n mod (?d sdiv 4 + 1)"
      using range d min quarter(2) assms(2) by (intro i64_id) (simp_all add: maxInt64_def)
  qed
  show "rl_RetryMinDelay limits \<le> retryDelay limits queryGroup failures"
    using d min by (auto simp: retryDelay_def Let_def no_wrap [simplified] intro!: order_trans [OF _ le_add_same_cancel1 [THEN iffD2, OF jitter [simplified]]])
  show "retryDelay limits queryGroup failures \<le> rl_RetryMaxDelay limits"
    using d min by (auto simp: retryDelay_def Let_def no_wrap [simplified] intro!: order_trans [OF _ le_add_same_cancel1 [THEN iffD2, OF jitter [simplified]]])
qed

end
