(* ===== verification/Cooldown.thy ===== *)
theory Cooldown
  imports Runner
begin

text \<open>
  The degraded pool of a Query Group (\<open>scheduler/query_cooldown.go\<close>).  A Query Group whose query
  was unavailable on three Slots enters the pool and its queries are held for a delay that
  doubles; a query that answers, or a query that is no longer the one that failed, takes it out.

  \<^item> \<open>queryCooldownState\<close>, \<open>queryCooldownMemory\<close> and \<open>QueryCooldownRecord\<close> are the structs of the
    file; the store is seen through the answer of its read and the list of the records written;
  \<^item> an observation emitted is appended to a list, when an observer is attached.
\<close>

section \<open>Data\<close>

definition unavailableThreshold :: nat where "unavailableThreshold = 3"
definition QueryCooldownReentryWindow :: int where "QueryCooldownReentryWindow = 24 * 3600 * nanosecondsPerSecond"
definition ReasonQueryReasonUnrecorded :: string where "ReasonQueryReasonUnrecorded = ''QUERY_REASON_UNRECORDED''"

datatype CooldownEvent =
    QueryCooldownEntered | QueryCooldownReentered | QueryCooldownExtended | QueryCooldownRestored
  | QueryCooldownRecovered | QueryCooldownQueryRevisionChanged

text \<open>How the Query Group is in the pool now: the empty string, \<open>probe\<close> or \<open>restored\<close>.\<close>

datatype CooldownSource = NoSource | SourceProbe | SourceRestored

datatype ProbeOutcome = ProbeAnswered | ProbeUnavailable | ProbeUnknown

record QueryCooldownProbe =
  qp_At :: int
  qp_Operation :: Operation
  qp_Outcome :: ProbeOutcome
  qp_Measured :: bool
  qp_BudgetMillis :: int
  qp_ElapsedMillis :: int

record queryCooldownState =
  qs_failures :: nat
  qs_lastSlot :: SlotIdentity
  qs_queryRevision :: string
  qs_scheduleRevision :: string
  qs_segmentStart :: int
  qs_until :: int
  qs_wakeAt :: int
  qs_lastQueryAt :: int
  qs_reason :: string
  qs_timeouts :: nat
  qs_firstTimeoutAt :: int

record queryCooldownMemory =
  qm_enteredAt :: int
  qm_source :: CooldownSource
  qm_exitedAt :: int
  qm_exitReason :: "CooldownEvent option"
  qm_reentries :: nat
  qm_lastProbe :: "QueryCooldownProbe option"

record QueryCooldownRecord =
  qr_QueryGroup :: string
  qr_OwnerEpoch :: nat
  qr_EnteredAt :: int
  qr_Until :: int
  qr_LastQueryAt :: int
  qr_Failures :: nat
  qr_QueryRevision :: string
  qr_ScheduleRevision :: string
  qr_SegmentStart :: int
  qr_ExitedAt :: int
  qr_ExitReason :: "CooldownEvent option"
  qr_Reentries :: nat
  qr_Reason :: string
  qr_Timeouts :: nat
  qr_FirstTimeoutAt :: int
  qr_LastProbe :: "QueryCooldownProbe option"

record QueryCooldownFacts =
  qf_Event :: CooldownEvent
  qf_Result :: string
  qf_ReasonCode :: string
  qf_State :: queryCooldownState
  qf_Memory :: queryCooldownMemory

text \<open>
  The answer of \<open>LoadQueryCooldown\<close>: a read that failed, a record that does not decode, none, or
  one.
\<close>

datatype LoadAnswer = LoadFailed | LoadUndecodable | LoadNone | LoadFound QueryCooldownRecord

text \<open>What the previous round did with the Query Group, for the next one to report.\<close>

record HeldByFacts =
  hb_Decision :: string
  hb_AtUnixMilli :: int
  hb_QueryCooldownFailures :: nat
  hb_QueryCooldownUntilMilli :: int
  hb_ReadyAtUnixMilli :: int

record Runner =
  rn_queryGroup :: string
  rn_attempt :: "recoveryAttempt option"
  rn_sourceFailures :: nat
  rn_sourceNextAt :: int
  rn_nextDeadline :: int
  rn_dueBound :: RunnerDueBound
  rn_queryCooldown :: queryCooldownState
  rn_cooldownMemory :: queryCooldownMemory
  rn_cooldownStore :: bool
  rn_cooldownLoaded :: bool
  rn_cooldownFence :: OwnerFence
  rn_observer :: bool
  rn_saved :: "QueryCooldownRecord list"
  rn_emitted :: "QueryCooldownFacts list"
  rn_heldBy :: HeldByFacts

definition zeroCooldown :: queryCooldownState where
  "zeroCooldown =
     \<lparr>qs_failures = 0, qs_lastSlot = \<lparr>si_QueryGroup = [], si_EvaluationTime = 0\<rparr>, qs_queryRevision = [],
      qs_scheduleRevision = [], qs_segmentStart = 0, qs_until = zeroTime, qs_wakeAt = zeroTime,
      qs_lastQueryAt = zeroTime, qs_reason = [], qs_timeouts = 0, qs_firstTimeoutAt = zeroTime\<rparr>"

definition zeroCooldownMemory :: queryCooldownMemory where
  "zeroCooldownMemory =
     \<lparr>qm_enteredAt = zeroTime, qm_source = NoSource, qm_exitedAt = zeroTime, qm_exitReason = None,
      qm_reentries = 0, qm_lastProbe = None\<rparr>"

section \<open>Operations\<close>

definition queryCooldownOutcome :: "CooldownEvent \<Rightarrow> string \<Rightarrow> string \<times> string" where
  "queryCooldownOutcome event failed =
     (let reason = (if failed = [] then ReasonQueryReasonUnrecorded else failed)
      in case event of
           QueryCooldownEntered \<Rightarrow> (''degraded'', reason)
         | QueryCooldownReentered \<Rightarrow> (''degraded'', reason)
         | QueryCooldownExtended \<Rightarrow> (''degraded'', reason)
         | QueryCooldownRestored \<Rightarrow> (''degraded'', reason)
         | QueryCooldownRecovered \<Rightarrow> (''resumed'', reason)
         | QueryCooldownQueryRevisionChanged \<Rightarrow> (''success'', ''none''))"

definition emitQueryCooldown :: "CooldownEvent \<Rightarrow> Runner \<Rightarrow> Runner" where
  "emitQueryCooldown event runner =
     (if \<not> rn_observer runner then runner
      else
        (let (result, reason) = queryCooldownOutcome event (qs_reason (rn_queryCooldown runner))
         in runner\<lparr>rn_emitted := rn_emitted runner @
              [\<lparr>qf_Event = event, qf_Result = result, qf_ReasonCode = reason,
                qf_State = rn_queryCooldown runner, qf_Memory = rn_cooldownMemory runner\<rparr>]\<rparr>))"

definition cooldownRecord :: "Runner \<Rightarrow> QueryCooldownRecord" where
  "cooldownRecord runner =
     (let state = rn_queryCooldown runner; memory = rn_cooldownMemory runner
      in \<lparr>qr_QueryGroup = rn_queryGroup runner, qr_OwnerEpoch = of_OwnerEpoch (rn_cooldownFence runner),
          qr_EnteredAt = qm_enteredAt memory, qr_Until = qs_until state, qr_LastQueryAt = qs_lastQueryAt state,
          qr_Failures = qs_failures state, qr_QueryRevision = qs_queryRevision state,
          qr_ScheduleRevision = qs_scheduleRevision state, qr_SegmentStart = qs_segmentStart state,
          qr_ExitedAt = qm_exitedAt memory, qr_ExitReason = qm_exitReason memory,
          qr_Reentries = qm_reentries memory, qr_Reason = qs_reason state, qr_Timeouts = qs_timeouts state,
          qr_FirstTimeoutAt = qs_firstTimeoutAt state, qr_LastProbe = qm_lastProbe memory\<rparr>)"

definition saveQueryCooldown :: "Runner \<Rightarrow> Runner" where
  "saveQueryCooldown runner =
     (if \<not> rn_cooldownStore runner \<or> of_OwnerEpoch (rn_cooldownFence runner) = 0 \<or> \<not> rn_cooldownLoaded runner
      then runner
      else runner\<lparr>rn_saved := rn_saved runner @ [cooldownRecord runner]\<rparr>)"

definition restoreQueryCooldown :: "LoadAnswer \<Rightarrow> OwnerFence \<Rightarrow> Runner \<Rightarrow> Runner" where
  "restoreQueryCooldown answer fence runner0 =
     (let runner = runner0\<lparr>rn_cooldownFence := fence\<rparr>
      in if rn_cooldownLoaded runner then runner
         else if \<not> rn_cooldownStore runner then runner\<lparr>rn_cooldownLoaded := True\<rparr>
         else
           (case answer of
              LoadFailed \<Rightarrow> runner
            | LoadUndecodable \<Rightarrow> runner\<lparr>rn_cooldownLoaded := True\<rparr>
            | LoadNone \<Rightarrow> runner\<lparr>rn_cooldownLoaded := True\<rparr>
            | LoadFound record \<Rightarrow>
                (let memory = (rn_cooldownMemory runner)
                       \<lparr>qm_exitedAt := qr_ExitedAt record, qm_exitReason := qr_ExitReason record,
                        qm_reentries := qr_Reentries record, qm_lastProbe := qr_LastProbe record\<rparr>
                 in if qr_Until record = zeroTime
                    then runner\<lparr>rn_cooldownLoaded := True, rn_cooldownMemory := memory\<rparr>
                    else emitQueryCooldown QueryCooldownRestored
                      (runner\<lparr>rn_cooldownLoaded := True,
                         rn_queryCooldown := zeroCooldown
                           \<lparr>qs_failures := qr_Failures record, qs_queryRevision := qr_QueryRevision record,
                            qs_scheduleRevision := qr_ScheduleRevision record,
                            qs_segmentStart := qr_SegmentStart record, qs_until := qr_Until record,
                            qs_lastQueryAt := qr_LastQueryAt record, qs_reason := qr_Reason record,
                            qs_timeouts := qr_Timeouts record,
                            qs_firstTimeoutAt := qr_FirstTimeoutAt record\<rparr>,
                         rn_cooldownMemory := memory
                           \<lparr>qm_enteredAt := qr_EnteredAt record, qm_source := SourceRestored\<rparr>\<rparr>))))"

definition clearQueryCooldown :: "int \<Rightarrow> CooldownEvent \<Rightarrow> Runner \<Rightarrow> Runner" where
  "clearQueryCooldown now event runner =
     (if qs_until (rn_queryCooldown runner) \<noteq> zeroTime
      then
        (let left = runner\<lparr>rn_queryCooldown := (rn_queryCooldown runner)\<lparr>qs_until := zeroTime\<rparr>,
                            rn_cooldownMemory := (rn_cooldownMemory runner)
                              \<lparr>qm_exitedAt := now, qm_exitReason := Some event\<rparr>\<rparr>;
             told = emitQueryCooldown event left
         in saveQueryCooldown
              (told\<lparr>rn_queryCooldown := zeroCooldown,
                     rn_cooldownMemory := (rn_cooldownMemory told)
                       \<lparr>qm_enteredAt := zeroTime, qm_source := NoSource\<rparr>\<rparr>))
      else runner\<lparr>rn_queryCooldown := zeroCooldown\<rparr>)"

definition queryCooldownHolds :: "int \<Rightarrow> Runner \<Rightarrow> bool" where
  "queryCooldownHolds now runner \<longleftrightarrow>
     qs_until (rn_queryCooldown runner) \<noteq> zeroTime \<and> now < qs_until (rn_queryCooldown runner)"

definition queryCooldownLetsRun :: "Runner \<Rightarrow> bool" where
  "queryCooldownLetsRun runner \<longleftrightarrow> qs_until (rn_queryCooldown runner) \<noteq> zeroTime"

text \<open>The first half of \<open>deferUnavailableQuery\<close>: the query or the schedule has changed.\<close>

definition deferRevalidate :: "(nat \<Rightarrow> int) \<Rightarrow> FrozenSlot \<Rightarrow> Runner \<Rightarrow> Runner" where
  "deferRevalidate now slot runner =
     (let state = rn_queryCooldown runner; contract = fs_Contract slot
      in if qs_failures state > 0 \<and> qs_queryRevision state \<noteq> fc_QueryRevision contract
         then clearQueryCooldown (now 0) QueryCooldownQueryRevisionChanged runner
         else if qs_failures state > 0 \<and>
                 (qs_scheduleRevision state \<noteq> fc_ScheduleRevision contract
                  \<or> qs_segmentStart state \<noteq> fc_ScheduleSegmentStart contract)
         then
           (let state' = state\<lparr>qs_scheduleRevision := fc_ScheduleRevision contract,
                               qs_segmentStart := fc_ScheduleSegmentStart contract\<rparr>
            in if qs_until state' \<noteq> zeroTime
               then saveQueryCooldown
                      (runner\<lparr>rn_queryCooldown :=
                         (if now 1 < qs_until state' then state'\<lparr>qs_until := now 2\<rparr> else state')\<rparr>)
               else runner\<lparr>rn_queryCooldown := state'\<rparr>)
         else runner)"

text \<open>When a held query is tried again.\<close>

definition wakeInstant :: "int \<Rightarrow> FrozenSlot \<Rightarrow> int \<Rightarrow> int" where
  "wakeInstant now slot until =
     (let deadline = timeUnixMilli (fs_RecoveryUntilUnixMilli slot);
          wake = (if deadline < until then deadline else until);
          recheck = rf_RecheckAtUnixMilli (fs_Recovery slot)
      in if recheck > UnixMilli now \<and> timeUnixMilli recheck < wake then timeUnixMilli recheck else wake)"

definition deferUnavailableQuery :: "(nat \<Rightarrow> int) \<Rightarrow> FrozenSlot \<Rightarrow> Runner \<Rightarrow> bool \<times> Runner" where
  "deferUnavailableQuery now slot runner0 =
     (let runner = deferRevalidate now slot runner0; state = rn_queryCooldown runner
      in if qs_until state = zeroTime \<or> \<not> now 3 < qs_until state
            \<or> fs_ExpiredRange slot \<noteq> None \<or> rf_Disposition (fs_Recovery slot) = ReplayExpired
            \<or> rn_attempt runner \<noteq> None
         then (False, runner)
         else if fs_RecoveryUntilUnixMilli slot \<le> UnixMilli (now 4) then (False, runner)
         else (True, runner\<lparr>rn_queryCooldown := state\<lparr>qs_wakeAt := wakeInstant (now 5) slot (qs_until state)\<rparr>\<rparr>))"

definition queryCooldownProbe :: "int \<Rightarrow> Operation \<Rightarrow> SlotExecutionResult \<Rightarrow> QueryCooldownProbe" where
  "queryCooldownProbe at operation result =
     \<lparr>qp_At = at, qp_Operation = operation,
      qp_Outcome = (case sx_QueryAvailability result of
                      QueryAvailabilityAvailable \<Rightarrow> ProbeAnswered
                    | QueryAvailabilityUnavailable \<Rightarrow> ProbeUnavailable
                    | QueryAvailabilityUnknown \<Rightarrow> ProbeUnknown),
      qp_Measured = (sx_PrimaryQueryClock result \<noteq> None),
      qp_BudgetMillis = (case sx_PrimaryQueryClock result of Some c \<Rightarrow> qc_BudgetMillis c | None \<Rightarrow> 0),
      qp_ElapsedMillis = (case sx_PrimaryQueryClock result of Some c \<Rightarrow> qc_ElapsedMillis c | None \<Rightarrow> 0)\<rparr>"

function cooldownDelayLoop :: "int \<Rightarrow> nat \<Rightarrow> nat \<Rightarrow> int \<Rightarrow> int" where
  "cooldownDelayLoop capDelay i failures delay =
     (if i < failures \<and> delay < capDelay
      then cooldownDelayLoop capDelay (i + 1) failures (if delay > capDelay sdiv 2 then capDelay else i64 (delay * 2))
      else delay)"
  by pat_completeness auto
termination
  by (relation "measure (\<lambda>(_, i, failures, _). failures - i)") auto

declare cooldownDelayLoop.simps [simp del]

definition fiveMinutes :: int where "fiveMinutes = 300 * nanosecondsPerSecond"

definition queryCooldownDelay :: "string \<Rightarrow> int \<Rightarrow> nat \<Rightarrow> int" where
  "queryCooldownDelay queryGroup period failures =
     (let base = i64 (2 * period);
          capDelay = (if base > fiveMinutes then base else fiveMinutes);
          delay = cooldownDelayLoop capDelay unavailableThreshold failures base;
          half = delay sdiv 2;
          spread = (if half < period then period else half);
          hash = fnv64a (bytesOf queryGroup @ [word_of_nat failures])
      in i64 (delay - uint hash mod spread))"

text \<open>A failure of the query counted, up to 32, and its timeouts.\<close>

definition countUnavailable ::
  "int \<Rightarrow> int \<Rightarrow> FrozenSlot \<Rightarrow> string \<Rightarrow> queryCooldownState \<Rightarrow> queryCooldownState" where
  "countUnavailable queryAt timeoutAt slot reason state =
     (let contract = fs_Contract slot;
          counted = state\<lparr>qs_lastSlot := fc_Slot contract, qs_queryRevision := fc_QueryRevision contract,
            qs_scheduleRevision := fc_ScheduleRevision contract, qs_segmentStart := fc_ScheduleSegmentStart contract,
            qs_lastQueryAt := queryAt, qs_reason := reason,
            qs_failures := (if qs_failures state < 32 then qs_failures state + 1 else qs_failures state)\<rparr>
      in if reason = ReasonQueryTimeout
         then counted\<lparr>qs_firstTimeoutAt := (if qs_timeouts state = 0 then timeoutAt else qs_firstTimeoutAt state),
                      qs_timeouts := (if qs_timeouts state < 32 then qs_timeouts state + 1 else qs_timeouts state)\<rparr>
         else counted)"

text \<open>A missing interval, or one of more than a day, gives no delay.\<close>

definition intervalUsable :: "int \<Rightarrow> bool" where
  "intervalUsable interval \<longleftrightarrow> 0 < interval \<and> interval \<le> 24 * 3600"

text \<open>The end of \<open>recordQueryAvailability\<close>: a Query Group enters the pool or stays longer.\<close>

definition enterOrExtend :: "(nat \<Rightarrow> int) \<Rightarrow> int \<Rightarrow> Runner \<Rightarrow> Runner" where
  "enterOrExtend now interval runner =
     (let state = rn_queryCooldown runner; memory = rn_cooldownMemory runner;
          entering = qs_until state = zeroTime;
          again = entering \<and> qm_exitedAt memory \<noteq> zeroTime
                  \<and> timeSub (now 8) (qm_exitedAt memory) < QueryCooldownReentryWindow;
          event = (if again then QueryCooldownReentered
                   else if entering then QueryCooldownEntered else QueryCooldownExtended);
          memory' = (if entering
                     then memory\<lparr>qm_enteredAt := now 7, qm_source := SourceProbe,
                                 qm_reentries := (if again then u32 (qm_reentries memory + 1) else qm_reentries memory)\<rparr>
                     else memory);
          delay = queryCooldownDelay (rn_queryGroup runner) (i64 (interval * nanosecondsPerSecond)) (qs_failures state)
      in saveQueryCooldown (emitQueryCooldown event
           (runner\<lparr>rn_queryCooldown := state\<lparr>qs_until := now 9 + delay\<rparr>, rn_cooldownMemory := memory'\<rparr>)))"

definition recordQueryAvailability ::
  "(nat \<Rightarrow> int) \<Rightarrow> FrozenSlot \<Rightarrow> Operation \<Rightarrow> SlotExecutionResult \<Rightarrow> int \<Rightarrow> bool \<Rightarrow> Runner \<Rightarrow> Runner" where
  "recordQueryAvailability now slot operation result interval decides runner0 =
     (if \<not> sx_Completed result \<or> fs_ExpiredRange slot \<noteq> None \<or> rf_Disposition (fs_Recovery slot) = ReplayExpired
      then runner0
      else
        (let runner = (if decides
               then runner0\<lparr>rn_cooldownMemory := (rn_cooldownMemory runner0)
                 \<lparr>qm_lastProbe := Some (queryCooldownProbe (now 0) operation result)\<rparr>\<rparr>
               else runner0);
             state = rn_queryCooldown runner
         in case sx_QueryAvailability result of
              QueryAvailabilityUnknown \<Rightarrow>
                if qs_until state \<noteq> zeroTime \<and> \<not> now 1 < qs_until state \<and> intervalUsable interval
                then saveQueryCooldown (runner\<lparr>rn_queryCooldown :=
                       state\<lparr>qs_until := now 2 + i64 (interval * nanosecondsPerSecond)\<rparr>\<rparr>)
                else runner
            | QueryAvailabilityAvailable \<Rightarrow>
                clearQueryCooldown (now 4) QueryCooldownRecovered
                  (runner\<lparr>rn_queryCooldown := state\<lparr>qs_lastQueryAt := now 3\<rparr>\<rparr>)
            | QueryAvailabilityUnavailable \<Rightarrow>
                if qs_lastSlot state = fc_Slot (fs_Contract slot) then runner
                else
                  (let counted = runner\<lparr>rn_queryCooldown :=
                         countUnavailable (now 5) (now 6) slot (sx_QueryUnavailableReason result) state\<rparr>
                   in if qs_failures (rn_queryCooldown counted) < unavailableThreshold
                         \<or> \<not> intervalUsable interval
                      then counted
                      else enterOrExtend now interval counted)))"

end
