(* ===== verification/Round.thy ===== *)
theory Round
  imports Cooldown
begin

text \<open>
  One round of a Runner (\<open>runOneTracked\<close> of \<open>scheduler/runtime.go\<close>) and what it leaves for the
  dispatcher (\<open>recordDueBound\<close>, \<open>NextReadyAt\<close>, \<open>NextDeadline\<close>).

  A round asks the parts of the process it is wired to: the flight of the Query Group, the owner
  session, the pool's store, the Slot source, the admission and the executor.  What they answer
  is the \<open>RoundAnswers\<close> record, an argument of the round; every branch of the round on such an
  answer is a branch of \<open>runOneTracked\<close>.  The stage marker of the watchdog and the observations of
  the round's end change no state of the Runner and are left out.
\<close>

section \<open>The frozen Slot\<close>

definition MaxReadHoldMillis :: int where "MaxReadHoldMillis = 24 * 3600 * 1000"

definition contractRefValid :: "FrozenExecutionContractRef \<Rightarrow> bool" where
  "contractRefValid ref \<longleftrightarrow>
     \<not> (si_QueryGroup (fc_Slot ref) = [] \<or> si_EvaluationTime (fc_Slot ref) \<le> 0
        \<or> fc_SnapshotRevision ref = [] \<or> fc_QueryRevision ref = [] \<or> fc_ScheduleRevision ref = []
        \<or> fc_ScheduleSegmentStart ref \<le> 0 \<or> fc_ScheduleSegmentStart ref > si_EvaluationTime (fc_Slot ref)
        \<or> fc_DuePlanSetDigest ref = [] \<or> fc_ReadHoldMillis ref < 0 \<or> fc_ReadHoldMillis ref > MaxReadHoldMillis)"

definition operationValid :: "Operation \<Rightarrow> bool" where
  "operationValid operation \<longleftrightarrow> (case operation of OperationOther _ \<Rightarrow> False | _ \<Rightarrow> True)"

definition ownerFenceValid :: "OwnerFence \<Rightarrow> FrozenExecutionContractRef \<Rightarrow> bool" where
  "ownerFenceValid fence ref \<longleftrightarrow>
     \<not> (of_QueryGroup fence \<noteq> si_QueryGroup (fc_Slot ref) \<or> of_OwnerID fence = []
        \<or> of_OwnerEpoch fence = 0 \<or> of_LeaseToken fence = [])"

definition ReplayExpiryReasons :: "string list" where
  "ReplayExpiryReasons = [''REPLAY_AGE_EXCEEDED'', ''REPLAY_DISTANCE_EXCEEDED'',
     ''REPLAY_WAIT_EXCEEDS_DISTANCE'', ''REPLAY_RANGE_EXPIRED'']"

definition recoveryFactsValid :: "SlotRecoveryFacts \<Rightarrow> Operation \<Rightarrow> bool" where
  "recoveryFactsValid facts operation =
     (case rf_Disposition facts of
        ReplayUnset \<Rightarrow> True
      | ReplayLive \<Rightarrow> \<not> (operation \<noteq> OperationNormal \<or> rf_Distance facts \<noteq> 0 \<or> rf_Age facts \<noteq> 0)
      | ReplayEligible \<Rightarrow> \<not> (operation \<noteq> OperationReplay \<or> rf_Distance facts = 0 \<or> rf_Age facts < 0)
      | ReplayExpired \<Rightarrow>
          (if operation \<noteq> OperationNormal \<or> rf_Distance facts = 0 \<or> rf_Age facts < 0 then False
           else rf_Reason facts \<in> set ReplayExpiryReasons)
      | ReplayOther _ \<Rightarrow> False)"

text \<open>
  \<open>FrozenSlot.Validate\<close>.  Whether the due Plan targets fit the contract and whether the expired
  range is a sealed one are answered outside this model.
\<close>

definition frozenSlotValid ::
  "(FrozenSlot \<Rightarrow> bool) \<Rightarrow> (ExpiredRange \<Rightarrow> bool) \<Rightarrow> string \<Rightarrow> FrozenSlot \<Rightarrow> bool" where
  "frozenSlotValid targetsValid rangeValid queryGroup slot =
     (let ref = fs_Contract slot
      in if \<not> contractRefValid ref \<or> \<not> targetsValid slot then False
         else if fs_EarliestQueryDeadlineUnixMilli slot \<le> i64 (si_EvaluationTime (fc_Slot ref) * 1000) then False
         else if fs_RecoveryUntilUnixMilli slot \<le> fs_EarliestQueryDeadlineUnixMilli slot
                 \<or> fs_KeepUntilUnixMilli slot \<le> fs_RecoveryUntilUnixMilli slot then False
         else if \<not> operationValid (dc_Operation (fs_Dispatch slot)) \<or> dc_AssignmentGeneration (fs_Dispatch slot) = 0
         then False
         else if \<not> recoveryFactsValid (fs_Recovery slot) (dc_Operation (fs_Dispatch slot)) then False
         else if \<not> ownerFenceValid (dc_OwnerFence (fs_Dispatch slot)) ref then False
         else if (case fs_ExpiredRange slot of
                    Some proof \<Rightarrow> \<not> rangeValid proof
                      \<or> fs_ExpectedNextSlot slot \<noteq> si_EvaluationTime (fc_Slot (er_First proof)) \<or> ref \<noteq> er_Last proof
                  | None \<Rightarrow> fs_ExpectedNextSlot slot \<noteq> si_EvaluationTime (fc_Slot ref))
         then False
         else si_QueryGroup (fc_Slot ref) = queryGroup)"

section \<open>What a round asks\<close>

text \<open>The answer of the Slot source; a refusal of the view carries its bound on the wait.\<close>

datatype NextAnswer =
    NextSlot FrozenSlot
  | NextNotDue
  | NextViewNotExecutable int
  | NextSourceRetry
  | NextSourceBlocked string
  | NextError

text \<open>
  The answer of the executor: a result, a refusal of the view, a wait for readiness, or another
  error, which backs off unless it is a cancellation or a change of owner.
\<close>

datatype ExecuteAnswer =
    ExecuteResult SlotExecutionResult
  | ExecuteViewNotExecutable int
  | ExecuteReadinessAt int SlotExecutionResult
  | ExecuteError bool SlotExecutionResult

datatype AdmissionAnswer = NoAdmission | Admitted | AdmittedWithoutRelease | AdmissionDenied

record RoundAnswers =
  ra_now :: "nat \<Rightarrow> int"
  ra_cancelled :: bool
  ra_flightFree :: bool
  ra_fence :: "OwnerFence option"
  ra_load :: LoadAnswer
  ra_facts :: SlotDueFacts
  ra_next :: "bool \<Rightarrow> NextAnswer"
  ra_targetsValid :: "FrozenSlot \<Rightarrow> bool"
  ra_rangeValid :: "ExpiredRange \<Rightarrow> bool"
  ra_currentFence :: "OwnerFence option"
  ra_requestValid :: "Operation \<Rightarrow> nat \<Rightarrow> bool"
  ra_admission :: "Operation \<Rightarrow> AdmissionAnswer"
  ra_execute :: "Operation \<Rightarrow> nat \<Rightarrow> bool \<Rightarrow> ExecuteAnswer"

record FlightLimits =
  fl_recoveryEnabled :: bool
  fl_limits :: RecoveryLimits

datatype Decision =
    Preflight | Cancelled | SingleFlightBusy | SourceBackoff | OwnershipRejected | SourceNext
  | ViewNotExecutable | SourceRetry | SourceBlocked | SourceError | SourceNotDue | QueryCooldown
  | OperationNotReady | AdmissionRefused | Execute | QueryReadinessDeferred | ExecutionReturned

text \<open>What a round returns to its caller, with the decision it ended on.\<close>

record RoundOutcome =
  ro_Decision :: Decision
  ro_Result :: SlotExecutionResult
  ro_Attempted :: bool
  ro_Err :: bool

definition zeroResult :: SlotExecutionResult where
  "zeroResult = \<lparr>sx_QueryAvailability = QueryAvailabilityUnknown, sx_QueryUnavailableReason = [],
     sx_PrimaryQueryClock = None, sx_Completed = False, sx_Result = [], sx_ReasonCode = [], sx_SourceRetry = False\<rparr>"

definition idleRound :: "Decision \<Rightarrow> RoundOutcome" where
  "idleRound d = \<lparr>ro_Decision = d, ro_Result = zeroResult, ro_Attempted = False, ro_Err = False\<rparr>"

definition failedRound :: "Decision \<Rightarrow> RoundOutcome" where
  "failedRound d = \<lparr>ro_Decision = d, ro_Result = zeroResult, ro_Attempted = False, ro_Err = True\<rparr>"

definition retryingRound :: "Decision \<Rightarrow> string \<Rightarrow> RoundOutcome" where
  "retryingRound d reason = \<lparr>ro_Decision = d,
     ro_Result = zeroResult\<lparr>sx_Result := ResultRetrying, sx_ReasonCode := reason, sx_SourceRetry := True\<rparr>,
     ro_Attempted = True, ro_Err = False\<rparr>"

definition executedRound :: "Decision \<Rightarrow> SlotExecutionResult \<Rightarrow> bool \<Rightarrow> RoundOutcome" where
  "executedRound d result err = \<lparr>ro_Decision = d, ro_Result = result, ro_Attempted = True, ro_Err = err\<rparr>"

definition ReasonSlotSourceRetry :: string where "ReasonSlotSourceRetry = ''SLOT_SOURCE_RETRY''"
definition ReasonViewNotExecutable :: string where "ReasonViewNotExecutable = ''VIEW_NOT_EXECUTABLE''"

section \<open>The round\<close>

definition NextReadyAt :: "Runner \<Rightarrow> int" where
  "NextReadyAt runner =
     (case rn_attempt runner of
        Some a \<Rightarrow> if at_nextAt a > rn_sourceNextAt runner then at_nextAt a else rn_sourceNextAt runner
      | None \<Rightarrow> rn_sourceNextAt runner)"

definition refuseViewNotExecutable :: "FlightLimits \<Rightarrow> int \<Rightarrow> int \<Rightarrow> Runner \<Rightarrow> Runner" where
  "refuseViewNotExecutable fl now retryWithin runner =
     (let failures = u32 (rn_sourceFailures runner + 1);
          delay = retryDelay (fl_limits fl) (rn_queryGroup runner) failures;
          bounded = (if retryWithin > 0 \<and> delay > retryWithin then retryWithin else delay)
      in runner\<lparr>rn_sourceFailures := failures, rn_sourceNextAt := now + bounded\<rparr>)"

definition sourceFailed :: "FlightLimits \<Rightarrow> int \<Rightarrow> Runner \<Rightarrow> Runner" where
  "sourceFailed fl now runner =
     (let failures = u32 (rn_sourceFailures runner + 1)
      in runner\<lparr>rn_sourceFailures := failures,
                rn_sourceNextAt := now + retryDelay (fl_limits fl) (rn_queryGroup runner) failures\<rparr>)"

text \<open>From the executor's answer on.\<close>

definition finishExecution ::
  "FlightLimits \<Rightarrow> RoundAnswers \<Rightarrow> FrozenSlot \<Rightarrow> Operation \<Rightarrow> bool \<Rightarrow> ExecuteAnswer \<Rightarrow> Runner \<Rightarrow> RoundOutcome \<times> Runner" where
  "finishExecution fl ra slot operation decides answer runner =
     (let now = ra_now ra
      in case answer of
           ExecuteViewNotExecutable retryWithin \<Rightarrow>
             (retryingRound ViewNotExecutable ReasonViewNotExecutable, refuseViewNotExecutable fl (now 13) retryWithin runner)
         | ExecuteReadinessAt readyAt result \<Rightarrow>
             (if readyAt > now 14 then (executedRound QueryReadinessDeferred zeroResult False, runner\<lparr>rn_sourceNextAt := readyAt\<rparr>)
              else (executedRound ExecutionReturned result True, runner))
         | ExecuteError backsOff result \<Rightarrow>
             (executedRound ExecutionReturned result True,
              if backsOff
              then runner\<lparr>rn_attempt := recordExecutionFailure (fl_recoveryEnabled fl) (fl_limits fl)
                             (rn_queryGroup runner) slot (now 15) (rn_attempt runner)\<rparr>
              else runner)
         | ExecuteResult result \<Rightarrow>
             (executedRound ExecutionReturned result False,
              recordQueryAvailability (laterReads 17 now) slot operation result
                (df_IntervalSeconds (ra_facts ra)) decides
                (runner\<lparr>rn_nextDeadline := zeroTime,
                        rn_attempt := recordResult (fl_recoveryEnabled fl) (fl_limits fl)
                          (rn_queryGroup runner) slot result (now 16) (rn_attempt runner)\<rparr>)))"

text \<open>From the operation of the Slot to the executor.\<close>

definition dispatchSlot :: "FlightLimits \<Rightarrow> RoundAnswers \<Rightarrow> FrozenSlot \<Rightarrow> Runner \<Rightarrow> RoundOutcome \<times> Runner" where
  "dispatchSlot fl ra slot runner0 =
     (let (operation, attempt) = operationFor (fl_recoveryEnabled fl) slot (ra_now ra 11) (rn_attempt runner0);
          runner = runner0\<lparr>rn_attempt := attempt\<rparr>
      in case operation of
           None \<Rightarrow> (idleRound OperationNotReady, runner)
         | Some op \<Rightarrow>
             (case ra_currentFence ra of
                None \<Rightarrow> (failedRound OwnershipRejected, runner)
              | Some fence \<Rightarrow>
                  if fence \<noteq> dc_OwnerFence (fs_Dispatch slot) then (failedRound OwnershipRejected, runner)
                  else if \<not> ra_requestValid ra op (attemptNo slot attempt) then (failedRound SourceNext, runner)
                  else
                    (case ra_admission ra op of
                       AdmissionDenied \<Rightarrow> (failedRound AdmissionRefused, runner)
                     | AdmittedWithoutRelease \<Rightarrow> (failedRound SourceNext, runner)
                     | _ \<Rightarrow>
                         (let decides = queryCooldownLetsRun runner
                          in finishExecution fl ra slot op decides
                               (ra_execute ra op (attemptNo slot attempt) decides) runner))))"

text \<open>From a Slot the source gave to its dispatch.\<close>

definition runSlot :: "FlightLimits \<Rightarrow> RoundAnswers \<Rightarrow> FrozenSlot \<Rightarrow> Runner \<Rightarrow> RoundOutcome \<times> Runner" where
  "runSlot fl ra slot runner0 =
     (let runner = runner0\<lparr>rn_sourceFailures := 0, rn_sourceNextAt := zeroTime\<rparr>
      in if \<not> frozenSlotValid (ra_targetsValid ra) (ra_rangeValid ra) (rn_queryGroup runner) slot
         then (failedRound SourceNext, runner)
         else
           (let held = runner\<lparr>rn_nextDeadline := timeUnixMilli (fs_EarliestQueryDeadlineUnixMilli slot)\<rparr>;
                (deferred, runner') = deferUnavailableQuery (laterReads 5 (ra_now ra)) slot held
            in if deferred then (idleRound QueryCooldown, runner') else dispatchSlot fl ra slot runner'))"

definition zeroDueFacts :: SlotDueFacts where
  "zeroDueFacts = \<lparr>df_NotDueUntilUnix = 0, df_IntervalSeconds = 0, df_Retired = False\<rparr>"

section \<open>The bound a round leaves\<close>

definition runnerBoundSecond :: "int \<Rightarrow> int" where
  "runnerBoundSecond at = (if at = zeroTime then 0 else at div nanosecondsPerSecond)"

definition recordDueBound :: "Decision \<Rightarrow> SlotDueFacts \<Rightarrow> Runner \<Rightarrow> RunnerDueBound" where
  "recordDueBound decision facts runner =
     (let bound = \<lparr>db_NotDueUntilUnix = 0, db_IntervalSeconds = df_IntervalSeconds facts, db_Deferred = False,
                    db_QueryCooldown = False, db_Retired = False, db_Executed = False,
                    db_Verdict = DueVerdictUnknown\<rparr>;
          ready = runnerBoundSecond (NextReadyAt runner);
          executed = (let run = bound\<lparr>db_Verdict := DueVerdictDue, db_Executed := True\<rparr>
                      in if NextReadyAt runner \<noteq> zeroTime
                         then run\<lparr>db_Deferred := True, db_NotDueUntilUnix := ready\<rparr> else run);
          failed = bound\<lparr>db_Deferred := True, db_NotDueUntilUnix := ready\<rparr>
      in case decision of
           SourceNotDue \<Rightarrow> bound\<lparr>db_Verdict := DueVerdictNotDue,
             db_NotDueUntilUnix := df_NotDueUntilUnix facts, db_Retired := df_Retired facts\<rparr>
         | SourceBackoff \<Rightarrow> bound\<lparr>db_Verdict := DueVerdictNotDue, db_Deferred := True, db_NotDueUntilUnix := ready\<rparr>
         | SourceRetry \<Rightarrow> failed
         | SourceBlocked \<Rightarrow> failed
         | ViewNotExecutable \<Rightarrow> failed
         | QueryReadinessDeferred \<Rightarrow> bound\<lparr>db_Verdict := DueVerdictDue, db_Executed := True, db_Deferred := True,
             db_NotDueUntilUnix := ready\<rparr>
         | QueryCooldown \<Rightarrow> bound\<lparr>db_Verdict := DueVerdictDue, db_QueryCooldown := True,
             db_NotDueUntilUnix := runnerBoundSecond (qs_wakeAt (rn_queryCooldown runner))\<rparr>
         | Execute \<Rightarrow> executed
         | ExecutionReturned \<Rightarrow> executed
         | OperationNotReady \<Rightarrow> executed
         | AdmissionRefused \<Rightarrow> executed
         | _ \<Rightarrow> bound)"

text \<open>The body of the round: what was decided, and what it learned of the schedule.\<close>

definition decideRound :: "FlightLimits \<Rightarrow> RoundAnswers \<Rightarrow> Runner \<Rightarrow> RoundOutcome \<times> SlotDueFacts \<times> Runner" where
  "decideRound fl ra runner0 =
     (let now = ra_now ra
      in if ra_cancelled ra then (failedRound Cancelled, zeroDueFacts, runner0)
         else if \<not> ra_flightFree ra then (failedRound SingleFlightBusy, zeroDueFacts, runner0)
         else if rn_sourceNextAt runner0 \<noteq> zeroTime \<and> now 0 < rn_sourceNextAt runner0 then (idleRound SourceBackoff, zeroDueFacts, runner0)
         else
           (case ra_fence ra of
              None \<Rightarrow> (failedRound OwnershipRejected, zeroDueFacts, runner0)
            | Some fence \<Rightarrow>
                (let runner = restoreQueryCooldown (ra_load ra) fence runner0; facts = ra_facts ra
                 in case ra_next ra (queryCooldownHolds (now 2) runner) of
                      NextViewNotExecutable retryWithin \<Rightarrow>
                        (retryingRound ViewNotExecutable ReasonViewNotExecutable, facts, refuseViewNotExecutable fl (now 3) retryWithin runner)
                    | NextSourceRetry \<Rightarrow> (retryingRound SourceRetry ReasonSlotSourceRetry, facts, sourceFailed fl (now 4) runner)
                    | NextSourceBlocked reason \<Rightarrow> (retryingRound SourceBlocked reason, facts, sourceFailed fl (now 4) runner)
                    | NextError \<Rightarrow> (failedRound SourceError, facts, runner)
                    | NextNotDue \<Rightarrow> (idleRound SourceNotDue, facts, runner\<lparr>rn_attempt := None, rn_nextDeadline := zeroTime\<rparr>)
                    | NextSlot slot \<Rightarrow> (let (outcome, runner') = runSlot fl ra slot runner in (outcome, facts, runner')))))"

section \<open>What the next round is told\<close>

text \<open>The word of a decision, as \<open>runOneTracked\<close> names it.\<close>

fun decisionWord :: "Decision \<Rightarrow> string" where
  "decisionWord Preflight = ''preflight''"
| "decisionWord Cancelled = ''cancelled''"
| "decisionWord SingleFlightBusy = ''single_flight_busy''"
| "decisionWord SourceBackoff = ''source_backoff''"
| "decisionWord OwnershipRejected = ''ownership_rejected''"
| "decisionWord SourceNext = ''source_next''"
| "decisionWord ViewNotExecutable = ''view_not_executable''"
| "decisionWord SourceRetry = ''source_retry''"
| "decisionWord SourceBlocked = ''source_blocked''"
| "decisionWord SourceError = ''source_error''"
| "decisionWord SourceNotDue = ''source_not_due''"
| "decisionWord QueryCooldown = ''query_cooldown''"
| "decisionWord OperationNotReady = ''operation_not_ready''"
| "decisionWord AdmissionRefused = ''admission_denied''"
| "decisionWord Execute = ''execute''"
| "decisionWord QueryReadinessDeferred = ''query_readiness_deferred''"
| "decisionWord ExecutionReturned = ''execution_returned''"

definition RunOutcomes :: "string list" where
  "RunOutcomes =
     [''query_cooldown'', ''single_flight_busy'', ''ownership_rejected'', ''source_backoff'', ''source_retry'',
      ''source_blocked'', ''source_not_due'', ''source_error'', ''operation_not_ready'', ''admission_denied'',
      ''execute_returned'', ''cancelled'', ''panic'', ''other_error'', ''view_not_executable'']"

definition HeldByNothing :: string where "HeldByNothing = ''none''"
definition HeldByReadinessDeferred :: string where "HeldByReadinessDeferred = ''query_readiness_deferred''"

definition ValidHeldByDecision :: "string \<Rightarrow> bool" where
  "ValidHeldByDecision word \<longleftrightarrow> word = HeldByNothing \<or> word = HeldByReadinessDeferred \<or> word \<in> set RunOutcomes"

definition rememberHeldBy :: "int \<Rightarrow> string \<Rightarrow> Runner \<Rightarrow> Runner" where
  "rememberHeldBy now decision runner =
     (let word0 = (if decision \<in> {''execute'', ''execute_returned'', ''execution_returned''} then HeldByNothing else decision);
          word = (if \<not> ValidHeldByDecision word0 then ''other_error'' else word0);
          until = qs_until (rn_queryCooldown runner);
          readyAt = NextReadyAt runner
      in runner\<lparr>rn_heldBy :=
           \<lparr>hb_Decision = word, hb_AtUnixMilli = UnixMilli now,
            hb_QueryCooldownFailures = (if word = ''query_cooldown'' then qs_failures (rn_queryCooldown runner) else 0),
            hb_QueryCooldownUntilMilli = (if word = ''query_cooldown'' \<and> until \<noteq> zeroTime then UnixMilli until else 0),
            hb_ReadyAtUnixMilli = (if word = HeldByReadinessDeferred \<and> readyAt \<noteq> zeroTime then UnixMilli readyAt else 0)\<rparr>\<rparr>)"

text \<open>The whole round: on every return the bound is rewritten and the decision remembered.\<close>

definition runOneTracked :: "FlightLimits \<Rightarrow> RoundAnswers \<Rightarrow> Runner \<Rightarrow> RoundOutcome \<times> Runner" where
  "runOneTracked fl ra runner0 =
     (let (outcome, facts, runner) = decideRound fl ra runner0
      in (outcome, rememberHeldBy (ra_now ra 27) (decisionWord (ro_Decision outcome))
                     (runner\<lparr>rn_dueBound := recordDueBound (ro_Decision outcome) facts runner\<rparr>)))"

definition NextDeadline :: "int \<Rightarrow> Runner \<Rightarrow> int" where
  "NextDeadline now runner =
     (let bound = rn_dueBound runner in if rn_nextDeadline runner \<noteq> zeroTime then rn_nextDeadline runner
      else if db_IntervalSeconds bound \<le> 0 \<or> db_Retired bound then zeroTime
      else if db_Verdict bound = DueVerdictNotDue \<and> \<not> db_Deferred bound \<and> db_NotDueUntilUnix bound > 0
      then i64 (db_NotDueUntilUnix bound + db_IntervalSeconds bound) * nanosecondsPerSecond
      else now + i64 (db_IntervalSeconds bound * nanosecondsPerSecond))"

text \<open>Remembering the decision changes nothing else of the Runner.\<close>

lemma rememberHeldBy_simps [simp]:
  "rn_queryGroup (rememberHeldBy now word r) = rn_queryGroup r" "rn_attempt (rememberHeldBy now word r) = rn_attempt r"
  "rn_sourceFailures (rememberHeldBy now word r) = rn_sourceFailures r"
  "rn_sourceNextAt (rememberHeldBy now word r) = rn_sourceNextAt r"
  "rn_nextDeadline (rememberHeldBy now word r) = rn_nextDeadline r" "rn_dueBound (rememberHeldBy now word r) = rn_dueBound r"
  "rn_queryCooldown (rememberHeldBy now word r) = rn_queryCooldown r"
  "rn_cooldownMemory (rememberHeldBy now word r) = rn_cooldownMemory r"
  "rn_cooldownStore (rememberHeldBy now word r) = rn_cooldownStore r"
  "rn_cooldownLoaded (rememberHeldBy now word r) = rn_cooldownLoaded r"
  "rn_cooldownFence (rememberHeldBy now word r) = rn_cooldownFence r" "rn_observer (rememberHeldBy now word r) = rn_observer r"
  "rn_saved (rememberHeldBy now word r) = rn_saved r" "rn_emitted (rememberHeldBy now word r) = rn_emitted r"
  by (simp_all add: rememberHeldBy_def Let_def)

end
