(* ===== verification/Cooldown_Correct.thy ===== *)
theory Cooldown_Correct
  imports Round
begin

text \<open>
  Correctness of the degraded pool: the delay, the invariant of the pool state, and what each
  operation of \<open>scheduler/query_cooldown.go\<close> does to membership.
\<close>

section \<open>The delay\<close>

interpretation cooldown: capped_doubling cooldownDelayLoop
proof unfold_locales
  fix i n :: nat and d cap :: int
  have at_cap: "cooldownDelayLoop cap j n cap = cap" for j by (subst cooldownDelayLoop.simps) simp
  show "cooldownDelayLoop cap i n d = d" if "\<not> (i < n \<and> d < cap)"
    using that by (subst cooldownDelayLoop.simps) auto
  show "cooldownDelayLoop cap i n d = (if d > cap div 2 then cap else cooldownDelayLoop cap (i + 1) n (d * 2))"
    if "cap \<le> maxInt64" "i < n" "0 < d" "d < cap"
    using that at_cap by (subst cooldownDelayLoop.simps) (auto simp: half_sdiv doubling_no_wrap not_less)
qed

text \<open>The delay before the jitter.\<close>

definition plainDelay :: "int \<Rightarrow> nat \<Rightarrow> int" where
  "plainDelay period failures = min (max (2 * period) fiveMinutes) (2 * period * 2 ^ (failures - unavailableThreshold))"

lemma plainDelay_bounds:
  assumes "0 < period" "period \<le> 24 * 3600 * nanosecondsPerSecond"
  shows "2 * period \<le> plainDelay period failures" "plainDelay period failures \<le> 2 ^ 62"
proof -
  have "(2 * period) * 1 \<le> (2 * period) * 2 ^ (failures - unavailableThreshold)"
    using assms(1) by (intro mult_left_mono) auto
  then show "2 * period \<le> plainDelay period failures" by (simp add: plainDelay_def)
  show "plainDelay period failures \<le> 2 ^ 62"
    using assms(2) by (simp add: plainDelay_def fiveMinutes_def nanosecondsPerSecond_def)
qed

lemma queryCooldownDelay_range:
  assumes "0 < period" "period \<le> 24 * 3600 * nanosecondsPerSecond"
  shows "plainDelay period failures - plainDelay period failures div 2 < queryCooldownDelay queryGroup period failures"
    and "queryCooldownDelay queryGroup period failures \<le> plainDelay period failures"
proof -
  let ?cap = "if 2 * period > fiveMinutes then 2 * period else fiveMinutes"
  let ?d = "plainDelay period failures"
  define h where "h = uint (fnv64a (bytesOf queryGroup @ [word_of_nat failures]))"
  have base: "i64 (2 * period) = 2 * period"
    using assms by (intro i64_id) (auto simp: maxInt64_def nanosecondsPerSecond_def)
  have "?cap \<le> maxInt64" "0 < 2 * period" "2 * period \<le> ?cap"
    using assms by (auto simp: maxInt64_def fiveMinutes_def nanosecondsPerSecond_def)
  from cooldown.loop_value [OF this]
  have loop: "cooldownDelayLoop ?cap unavailableThreshold failures (2 * period) = ?d"
    by (simp add: plainDelay_def max_def not_less)
  note d = plainDelay_bounds [OF assms, of failures]
  have half: "?d sdiv 2 = ?d div 2" "\<not> ?d div 2 < period" using d(1) assms(1) by (auto simp: sdiv_pos)
  have jitter: "0 \<le> h mod (?d div 2)" "h mod (?d div 2) < ?d div 2" using half(2) assms(1) by simp_all
  have "queryCooldownDelay queryGroup period failures = i64 (?d - h mod (?d div 2))"
    by (simp only: queryCooldownDelay_def base Let_def loop half h_def if_False)
  also have "\<dots> = ?d - h mod (?d div 2)"
    using d jitter by (intro i64_id) (auto simp: maxInt64_def)
  finally have exact: "queryCooldownDelay queryGroup period failures = ?d - h mod (?d div 2)" .
  show "?d - ?d div 2 < queryCooldownDelay queryGroup period failures"
    and "queryCooldownDelay queryGroup period failures \<le> ?d" using jitter by (simp_all add: exact)
qed

section \<open>What telling and saving leave alone\<close>

named_theorems pool_simps \<open>the parts of a Runner an observation or a write leaves alone\<close>

lemma emit_frame [pool_simps]:
  "rn_queryCooldown (emitQueryCooldown e r) = rn_queryCooldown r"
  "rn_cooldownMemory (emitQueryCooldown e r) = rn_cooldownMemory r"
  "rn_saved (emitQueryCooldown e r) = rn_saved r"
  "rn_queryGroup (emitQueryCooldown e r) = rn_queryGroup r"
  "rn_attempt (emitQueryCooldown e r) = rn_attempt r"
  by (simp_all add: emitQueryCooldown_def split: prod.split)

lemma save_frame [pool_simps]:
  "rn_queryCooldown (saveQueryCooldown r) = rn_queryCooldown r"
  "rn_cooldownMemory (saveQueryCooldown r) = rn_cooldownMemory r"
  "rn_attempt (saveQueryCooldown r) = rn_attempt r"
  by (simp_all add: saveQueryCooldown_def)

lemma saved_by_save: "rec \<in> set (rn_saved (saveQueryCooldown r)) \<Longrightarrow> rec \<in> set (rn_saved r) \<or> rec = cooldownRecord r"
  by (auto simp: saveQueryCooldown_def split: if_splits)

section \<open>The invariant of the pool\<close>

definition inPool :: "Runner \<Rightarrow> bool" where
  "inPool r \<longleftrightarrow> qs_until (rn_queryCooldown r) \<noteq> zeroTime"

text \<open>
  What holds of the pool's facts in memory and in a record: the counts are bounded, a timeout is
  a failure and the first of them is dated, membership is dated and rests on three failures, an
  exit is dated and explained, and only a Query Group that left can have come back.
\<close>

definition pool_facts ::
  "nat \<Rightarrow> nat \<Rightarrow> int \<Rightarrow> int \<Rightarrow> int \<Rightarrow> int \<Rightarrow> CooldownEvent option \<Rightarrow> nat \<Rightarrow> bool" where
  "pool_facts failures timeouts firstTimeoutAt until enteredAt exitedAt exitReason reentries \<longleftrightarrow>
     failures \<le> 32 \<and> timeouts \<le> failures \<and> (timeouts = 0 \<longleftrightarrow> firstTimeoutAt = zeroTime)
     \<and> (until \<noteq> zeroTime \<longrightarrow> unavailableThreshold \<le> failures)
     \<and> (until = zeroTime \<longleftrightarrow> enteredAt = zeroTime)
     \<and> (exitedAt = zeroTime \<longleftrightarrow> exitReason = None) \<and> (0 < reentries \<longrightarrow> exitedAt \<noteq> zeroTime)"

definition record_ok :: "QueryCooldownRecord \<Rightarrow> bool" where
  "record_ok rec \<longleftrightarrow> pool_facts (qr_Failures rec) (qr_Timeouts rec) (qr_FirstTimeoutAt rec) (qr_Until rec)
     (qr_EnteredAt rec) (qr_ExitedAt rec) (qr_ExitReason rec) (qr_Reentries rec)"

definition pool_ok :: "Runner \<Rightarrow> bool" where
  "pool_ok r \<longleftrightarrow> record_ok (cooldownRecord r) \<and> (inPool r \<longleftrightarrow> qm_source (rn_cooldownMemory r) \<noteq> NoSource)"

definition runner_ok :: "Runner \<Rightarrow> bool" where
  "runner_ok r \<longleftrightarrow> pool_ok r \<and> list_all record_ok (rn_saved r)"

lemmas pool_ok_defs = pool_ok_def record_ok_def pool_facts_def cooldownRecord_def inPool_def Let_def

text \<open>The invariant reads nothing but the pool's state and memory.\<close>

lemma pool_ok_cong:
  "rn_queryCooldown r = rn_queryCooldown r' \<Longrightarrow> rn_cooldownMemory r = rn_cooldownMemory r' \<Longrightarrow> pool_ok r = pool_ok r'"
  by (simp add: pool_ok_defs)

lemma runner_ok_cong:
  "rn_queryCooldown r = rn_queryCooldown r' \<Longrightarrow> rn_cooldownMemory r = rn_cooldownMemory r' \<Longrightarrow>
     rn_saved r = rn_saved r' \<Longrightarrow> runner_ok r = runner_ok r'"
  using pool_ok_cong [of r r'] by (simp add: runner_ok_def)

lemma runner_ok_emit [simp]: "runner_ok (emitQueryCooldown e r) = runner_ok r"
  by (rule runner_ok_cong) (simp_all add: pool_simps)

lemma held_pool [simp]:
  "runner_ok (rememberHeldBy now word r) = runner_ok r" "inPool (rememberHeldBy now word r) = inPool r"
  by (rule runner_ok_cong) (simp_all add: inPool_def)

lemma runner_ok_save [intro]: "runner_ok r \<Longrightarrow> runner_ok (saveQueryCooldown r)"
  using pool_ok_cong [of "saveQueryCooldown r" r]
  by (auto simp: runner_ok_def pool_simps list_all_iff pool_ok_def dest!: saved_by_save)

lemma runner_okI: "pool_ok r \<Longrightarrow> list_all record_ok (rn_saved r) \<Longrightarrow> runner_ok r"
  by (simp add: runner_ok_def)

subsection \<open>Every operation keeps it\<close>

lemma restore_ok:
  assumes "runner_ok r" "\<And>rec. answer = LoadFound rec \<Longrightarrow> record_ok rec"
  shows "runner_ok (restoreQueryCooldown answer fence r)"
  using assms
  by (auto simp: restoreQueryCooldown_def Let_def runner_ok_def pool_ok_defs zeroCooldown_def pool_simps
      split: LoadAnswer.splits)

lemma clear_ok:
  assumes "runner_ok r" "zeroTime < now"
  shows "runner_ok (clearQueryCooldown now event r)"
  using assms
  by (auto simp: clearQueryCooldown_def Let_def pool_simps intro!: runner_ok_save runner_okI)
    (auto simp: runner_ok_def pool_ok_defs zeroCooldown_def pool_simps)

lemma revalidate_ok:
  assumes "runner_ok r" "\<And>k. zeroTime < now k"
  shows "runner_ok (deferRevalidate now slot r)"
proof -
  have "runner_ok (r\<lparr>rn_queryCooldown := (rn_queryCooldown r)
          \<lparr>qs_scheduleRevision := v, qs_segmentStart := t, qs_until := now 2\<rparr>\<rparr>)"
    if "qs_until (rn_queryCooldown r) \<noteq> zeroTime" for v t
    using assms(1) assms(2) [of 2] that by (auto simp: runner_ok_def pool_ok_defs)
  moreover have "runner_ok (r\<lparr>rn_queryCooldown := (rn_queryCooldown r)\<lparr>qs_scheduleRevision := v, qs_segmentStart := t\<rparr>\<rparr>)"
    for v t using assms(1) by (auto simp: runner_ok_def pool_ok_defs)
  ultimately show ?thesis
    using assms by (auto simp: deferRevalidate_def Let_def intro!: runner_ok_save clear_ok)
qed

lemma defer_ok:
  assumes "runner_ok r" "\<And>k. zeroTime < now k"
  shows "runner_ok (snd (deferUnavailableQuery now slot r))"
  using revalidate_ok [of r now slot, OF assms]
  by (auto simp: deferUnavailableQuery_def Let_def runner_ok_def pool_ok_defs)

lemma usable_period:
  assumes "intervalUsable interval"
  shows "i64 (interval * nanosecondsPerSecond) = interval * nanosecondsPerSecond"
    and "0 < interval * nanosecondsPerSecond"
    and "interval * nanosecondsPerSecond \<le> 24 * 3600 * nanosecondsPerSecond"
  using assms by (auto simp: intervalUsable_def nanosecondsPerSecond_def maxInt64_def intro!: i64_id)

text \<open>The delay of a Query Group in the pool is more than one period.\<close>

lemma delay_exceeds_period:
  assumes "intervalUsable interval"
  shows "interval * nanosecondsPerSecond < queryCooldownDelay queryGroup (interval * nanosecondsPerSecond) failures"
proof -
  note period = usable_period(2,3) [OF assms]
  show ?thesis
    using queryCooldownDelay_range(1) [OF period, of failures queryGroup] plainDelay_bounds(1) [OF period, of failures]
    by linarith
qed

lemma entered_ok:
  assumes "runner_ok r" "u \<noteq> zeroTime" "t \<noteq> zeroTime" "unavailableThreshold \<le> qs_failures (rn_queryCooldown r)"
    and "0 < n \<Longrightarrow> qm_exitedAt (rn_cooldownMemory r) \<noteq> zeroTime"
  shows "runner_ok (r\<lparr>rn_queryCooldown := (rn_queryCooldown r)\<lparr>qs_until := u\<rparr>,
           rn_cooldownMemory := (rn_cooldownMemory r)\<lparr>qm_enteredAt := t, qm_source := SourceProbe, qm_reentries := n\<rparr>\<rparr>)"
  using assms by (auto simp: runner_ok_def pool_ok_defs)

lemma extended_ok:
  assumes "runner_ok r" "u \<noteq> zeroTime" "qs_until (rn_queryCooldown r) \<noteq> zeroTime"
  shows "runner_ok (r\<lparr>rn_queryCooldown := (rn_queryCooldown r)\<lparr>qs_until := u\<rparr>\<rparr>)"
  using assms by (auto simp: runner_ok_def pool_ok_defs)

lemma enter_ok:
  assumes "runner_ok r" "\<And>k. zeroTime < now k" "intervalUsable interval"
    and "unavailableThreshold \<le> qs_failures (rn_queryCooldown r)"
  shows "runner_ok (enterOrExtend now interval r)"
proof -
  define u where "u = now 9 + queryCooldownDelay (rn_queryGroup r) (interval * nanosecondsPerSecond)
                                (qs_failures (rn_queryCooldown r))"
  have u: "u \<noteq> zeroTime"
    using assms(2) [of 9] usable_period(2) [OF assms(3)]
      delay_exceeds_period [OF assms(3), of "rn_queryGroup r" "qs_failures (rn_queryCooldown r)"]
    unfolding u_def by linarith
  have n: "0 < qm_reentries (rn_cooldownMemory r) \<Longrightarrow> qm_exitedAt (rn_cooldownMemory r) \<noteq> zeroTime"
    using assms(1) by (auto simp: runner_ok_def pool_ok_defs)
  show ?thesis
  proof (cases "qs_until (rn_queryCooldown r) = zeroTime")
    case True
    have t: "now 7 \<noteq> zeroTime" using assms(2) [of 7] by simp
    have same: "runner_ok (r\<lparr>rn_queryCooldown := (rn_queryCooldown r)\<lparr>qs_until := u\<rparr>,
        rn_cooldownMemory := (rn_cooldownMemory r)\<lparr>qm_enteredAt := now 7, qm_source := SourceProbe\<rparr>\<rparr>)"
      using entered_ok [OF assms(1) u t assms(4), of "qm_reentries (rn_cooldownMemory r)"] n by simp
    show ?thesis
      unfolding enterOrExtend_def usable_period(1) [OF assms(3)] u_def [symmetric] Let_def
      using True same by (auto intro!: runner_ok_save entered_ok [OF assms(1) u t assms(4)])
  next
    case False
    show ?thesis
      unfolding enterOrExtend_def usable_period(1) [OF assms(3)] u_def [symmetric] Let_def
      using False extended_ok [OF assms(1) u False] by (auto intro!: runner_ok_save)
  qed
qed

lemma counted_ok:
  assumes "runner_ok r" "zeroTime < timeoutAt"
  shows "runner_ok (r\<lparr>rn_queryCooldown := countUnavailable queryAt timeoutAt slot reason (rn_queryCooldown r)\<rparr>)"
  using assms by (auto simp: runner_ok_def pool_ok_defs countUnavailable_def unavailableThreshold_def)

lemma availability_ok:
  assumes "runner_ok r" "\<And>k. zeroTime < now k"
  shows "runner_ok (recordQueryAvailability now slot operation result interval decides r)"
proof -
  define r1 where "r1 = (if decides
     then r\<lparr>rn_cooldownMemory := (rn_cooldownMemory r)\<lparr>qm_lastProbe := Some (queryCooldownProbe (now 0) operation result)\<rparr>\<rparr>
     else r)"
  have r1: "runner_ok r1" using assms(1) by (auto simp: r1_def runner_ok_def pool_ok_defs)
  have asked: "runner_ok (r1\<lparr>rn_queryCooldown := (rn_queryCooldown r1)\<lparr>qs_lastQueryAt := t\<rparr>\<rparr>)" for t
    using r1 by (auto simp: runner_ok_def pool_ok_defs)
  have later: "now 2 + i64 (interval * nanosecondsPerSecond) \<noteq> zeroTime" if "intervalUsable interval"
    using usable_period(1,2) [OF that] assms(2) [of 2] by linarith
  show ?thesis
    unfolding recordQueryAvailability_def Let_def r1_def [symmetric]
    using assms(1) r1 counted_ok [OF r1 assms(2) [of 6]]
    by (auto split: QueryAvailability.split intro!: runner_ok_save extended_ok [OF r1] later clear_ok asked enter_ok assms(2))
qed

subsection \<open>The round\<close>

lemma runner_ok_frame [simp]:
  "runner_ok (r\<lparr>rn_attempt := a\<rparr>) = runner_ok r"
  "runner_ok (r\<lparr>rn_sourceFailures := n\<rparr>) = runner_ok r"
  "runner_ok (r\<lparr>rn_sourceNextAt := t\<rparr>) = runner_ok r"
  "runner_ok (r\<lparr>rn_nextDeadline := t\<rparr>) = runner_ok r"
  "runner_ok (r\<lparr>rn_dueBound := b\<rparr>) = runner_ok r"
  by (simp_all add: runner_ok_def pool_ok_defs)

lemma refused_ok [simp]:
  "runner_ok (refuseViewNotExecutable fl t within r) = runner_ok r" "runner_ok (sourceFailed fl t r) = runner_ok r"
  by (simp_all add: refuseViewNotExecutable_def sourceFailed_def Let_def)

lemma finish_ok:
  assumes "runner_ok r" "\<And>k. zeroTime < ra_now ra k"
  shows "runner_ok (snd (finishExecution fl ra slot operation decides answer r))"
  using assms by (auto simp: finishExecution_def Let_def split: ExecuteAnswer.split intro!: availability_ok)

lemma dispatch_ok:
  assumes "runner_ok r" "\<And>k. zeroTime < ra_now ra k"
  shows "runner_ok (snd (dispatchSlot fl ra slot r))"
  using assms
  by (auto simp: dispatchSlot_def Let_def case_prod_unfold split: option.split AdmissionAnswer.split intro!: finish_ok)

lemma runSlot_ok:
  assumes "runner_ok r" "\<And>k. zeroTime < ra_now ra k"
  shows "runner_ok (snd (runSlot fl ra slot r))"
proof -
  let ?held = "r\<lparr>rn_sourceFailures := 0, rn_sourceNextAt := zeroTime,
                 rn_nextDeadline := timeUnixMilli (fs_EarliestQueryDeadlineUnixMilli slot)\<rparr>"
  have "runner_ok (snd (deferUnavailableQuery (laterReads 5 (ra_now ra)) slot ?held))"
    by (rule defer_ok) (use assms in simp_all)
  then show ?thesis
    using assms by (auto simp: runSlot_def Let_def case_prod_unfold intro!: dispatch_ok)
qed

lemma round_ok:
  assumes "runner_ok r" "\<And>k. zeroTime < ra_now ra k" "\<And>rec. ra_load ra = LoadFound rec \<Longrightarrow> record_ok rec"
  shows "runner_ok (snd (runOneTracked fl ra r))"
proof -
  have restored: "runner_ok (restoreQueryCooldown (ra_load ra) fence r)" for fence
    using assms(1,3) by (rule restore_ok)
  have "runner_ok (snd (snd (decideRound fl ra r)))"
    using assms(1) restored runSlot_ok [OF restored assms(2)]
    by (auto simp: decideRound_def Let_def case_prod_unfold split: option.split NextAnswer.split)
  then show ?thesis by (simp add: runOneTracked_def Let_def case_prod_unfold)
qed

section \<open>How membership changes\<close>

abbreviation exitReasonOf :: "Runner \<Rightarrow> CooldownEvent option" where
  "exitReasonOf r \<equiv> qm_exitReason (rn_cooldownMemory r)"

lemma inPool_frame [simp]:
  "inPool (r\<lparr>rn_attempt := a\<rparr>) = inPool r" "inPool (r\<lparr>rn_sourceFailures := n\<rparr>) = inPool r"
  "inPool (r\<lparr>rn_sourceNextAt := t\<rparr>) = inPool r" "inPool (r\<lparr>rn_nextDeadline := t\<rparr>) = inPool r"
  "inPool (r\<lparr>rn_dueBound := b\<rparr>) = inPool r" "inPool (r\<lparr>rn_cooldownMemory := m\<rparr>) = inPool r"
  "inPool (emitQueryCooldown e r) = inPool r" "inPool (saveQueryCooldown r) = inPool r"
  by (simp_all add: inPool_def pool_simps)

lemma restore_membership:
  "inPool (restoreQueryCooldown answer fence r) \<longleftrightarrow>
     inPool r \<or> (\<not> rn_cooldownLoaded r \<and> rn_cooldownStore r \<and> (\<exists>rec. answer = LoadFound rec \<and> qr_Until rec \<noteq> zeroTime))"
  by (auto simp: restoreQueryCooldown_def Let_def inPool_def pool_simps split: LoadAnswer.splits)

lemma clear_membership:
  "\<not> inPool (clearQueryCooldown now event r)"
  "exitReasonOf (clearQueryCooldown now event r) = (if inPool r then Some event else exitReasonOf r)"
  by (simp_all add: clearQueryCooldown_def Let_def inPool_def zeroCooldown_def pool_simps)

text \<open>The query that failed is not the one of the Slot.\<close>

definition queryChanged :: "FrozenSlot \<Rightarrow> Runner \<Rightarrow> bool" where
  "queryChanged slot r \<longleftrightarrow> qs_failures (rn_queryCooldown r) > 0
     \<and> qs_queryRevision (rn_queryCooldown r) \<noteq> fc_QueryRevision (fs_Contract slot)"

lemma revalidate_membership:
  assumes "\<And>k. zeroTime < now k"
  shows "inPool (deferRevalidate now slot r) \<longleftrightarrow> inPool r \<and> \<not> queryChanged slot r"
    and "exitReasonOf (deferRevalidate now slot r) =
           (if queryChanged slot r \<and> inPool r then Some QueryCooldownQueryRevisionChanged else exitReasonOf r)"
proof -
  have "now 2 \<noteq> zeroTime" using assms(1) [of 2] by simp
  then show "inPool (deferRevalidate now slot r) \<longleftrightarrow> inPool r \<and> \<not> queryChanged slot r"
    unfolding queryChanged_def deferRevalidate_def Let_def
    using clear_membership(1) by (auto simp: inPool_def pool_simps)
  show "exitReasonOf (deferRevalidate now slot r) =
           (if queryChanged slot r \<and> inPool r then Some QueryCooldownQueryRevisionChanged else exitReasonOf r)"
    unfolding queryChanged_def deferRevalidate_def Let_def by (simp add: clear_membership(2) pool_simps)
qed

lemma defer_membership:
  "inPool (snd (deferUnavailableQuery now slot r)) = inPool (deferRevalidate now slot r)"
  "rn_cooldownMemory (snd (deferUnavailableQuery now slot r)) = rn_cooldownMemory (deferRevalidate now slot r)"
  by (simp_all add: deferUnavailableQuery_def Let_def inPool_def)

lemma enter_membership:
  assumes "\<And>k. zeroTime < now k" "intervalUsable interval"
  shows "inPool (enterOrExtend now interval r)"
    and "qs_failures (rn_queryCooldown (enterOrExtend now interval r)) = qs_failures (rn_queryCooldown r)"
    and "\<not> inPool r \<Longrightarrow> qm_source (rn_cooldownMemory (enterOrExtend now interval r)) = SourceProbe"
proof -
  have "now 9 + queryCooldownDelay (rn_queryGroup r) (interval * nanosecondsPerSecond)
            (qs_failures (rn_queryCooldown r)) \<noteq> zeroTime"
    using assms(1) [of 9] usable_period(2) [OF assms(2)]
      delay_exceeds_period [OF assms(2), of "rn_queryGroup r" "qs_failures (rn_queryCooldown r)"] by linarith
  then show "inPool (enterOrExtend now interval r)"
    by (simp add: enterOrExtend_def Let_def usable_period(1) [OF assms(2)] inPool_def pool_simps)
  show "qs_failures (rn_queryCooldown (enterOrExtend now interval r)) = qs_failures (rn_queryCooldown r)"
    and "\<not> inPool r \<Longrightarrow> qm_source (rn_cooldownMemory (enterOrExtend now interval r)) = SourceProbe"
    by (simp_all add: enterOrExtend_def Let_def pool_simps inPool_def)
qed

text \<open>What the result of an execution does to membership.\<close>

lemma availability_leaves:
  assumes "\<And>k. zeroTime < now k" "inPool r"
    and "\<not> inPool (recordQueryAvailability now slot operation result interval decides r)"
  shows "sx_Completed result \<and> sx_QueryAvailability result = QueryAvailabilityAvailable
         \<and> exitReasonOf (recordQueryAvailability now slot operation result interval decides r) = Some QueryCooldownRecovered"
proof -
  have later: "now 2 + i64 (interval * nanosecondsPerSecond) \<noteq> zeroTime" if "intervalUsable interval"
    using usable_period(1,2) [OF that] assms(1) [of 2] by linarith
  show ?thesis
    using assms(2,3) later enter_membership(1) [of now interval, OF assms(1)]
    unfolding recordQueryAvailability_def Let_def
    by (auto simp: clear_membership(2) pool_simps inPool_def countUnavailable_def Let_def
        split: QueryAvailability.splits if_splits)
qed

lemma availability_enters:
  assumes "\<And>k. zeroTime < now k" "\<not> inPool r"
    and "inPool (recordQueryAvailability now slot operation result interval decides r)"
  shows "sx_Completed result \<and> sx_QueryAvailability result = QueryAvailabilityUnavailable
         \<and> unavailableThreshold \<le> qs_failures (rn_queryCooldown (recordQueryAvailability now slot operation result interval decides r))
         \<and> qm_source (rn_cooldownMemory (recordQueryAvailability now slot operation result interval decides r)) = SourceProbe"
proof -
  have counted: "\<not> inPool (r'\<lparr>rn_queryCooldown := countUnavailable q t slot reason (rn_queryCooldown r')\<rparr>)"
    if "\<not> inPool r'" for r' q t reason using that by (simp add: inPool_def countUnavailable_def Let_def)
  have out: "qs_until (rn_queryCooldown r) = zeroTime" using assms(2) by (simp add: inPool_def)
  show ?thesis
    using assms(2,3) out counted clear_membership(1)
      enter_membership(2,3) [of now interval, OF assms(1)]
    unfolding recordQueryAvailability_def Let_def
    by (auto simp: inPool_def [of "_\<lparr>rn_queryCooldown := _\<rparr>"] split: QueryAvailability.splits if_splits)
qed

lemma availability_out:
  assumes "\<not> inPool r" "\<not> inPool (recordQueryAvailability now slot operation result interval decides r)"
    "\<And>k. zeroTime < now k"
  shows "exitReasonOf (recordQueryAvailability now slot operation result interval decides r) = exitReasonOf r"
  using assms(1,2) enter_membership(1) [of now interval, OF assms(3)]
  unfolding recordQueryAvailability_def Let_def
  by (auto simp: clear_membership(2) pool_simps inPool_def split: QueryAvailability.splits if_splits)

end
