(* ===== verification/Round_Props.thy ===== *)
theory Round_Props
  imports Cooldown_Correct
begin

text \<open>
  Properties of the rounds of a Runner: the pool over rounds, restarts and changes of owner, the
  evidence a Query Group enters and leaves it on, when a held query is tried again, and how long
  a failed source is left alone.
\<close>

section \<open>The pool over rounds and restarts\<close>

definition freshRunner :: "string \<Rightarrow> bool \<Rightarrow> bool \<Rightarrow> Runner" where
  "freshRunner queryGroup store observer =
     \<lparr>rn_queryGroup = queryGroup, rn_attempt = None, rn_sourceFailures = 0, rn_sourceNextAt = zeroTime,
      rn_nextDeadline = zeroTime,
      rn_dueBound = \<lparr>db_NotDueUntilUnix = 0, db_IntervalSeconds = 0, db_Deferred = False, db_QueryCooldown = False,
                     db_Retired = False, db_Executed = False, db_Verdict = DueVerdictUnknown\<rparr>,
      rn_queryCooldown = zeroCooldown, rn_cooldownMemory = zeroCooldownMemory, rn_cooldownStore = store,
      rn_cooldownLoaded = False,
      rn_cooldownFence = \<lparr>of_QueryGroup = [], of_OwnerID = [], of_OwnerEpoch = 0, of_LeaseToken = []\<rparr>,
      rn_observer = observer, rn_saved = [], rn_emitted = [],
      rn_heldBy = \<lparr>hb_Decision = [], hb_AtUnixMilli = 0, hb_QueryCooldownFailures = 0, hb_QueryCooldownUntilMilli = 0,
        hb_ReadyAtUnixMilli = 0\<rparr>\<rparr>"

text \<open>
  One owner's Runner after another, on one record kept outside.  A read of the store fails, finds
  nothing it can decode, or finds the record that is kept; the store takes any record a round
  wrote, or none.  A restart, or a change of owner, is a fresh Runner on what is kept.
\<close>

inductive poolStep ::
  "FlightLimits \<Rightarrow> Runner \<times> QueryCooldownRecord option \<Rightarrow> Runner \<times> QueryCooldownRecord option \<Rightarrow> bool"
  for fl where
  round: "\<lbrakk> \<forall>k. zeroTime < ra_now ra k; \<forall>rec. ra_load ra = LoadFound rec \<longrightarrow> kept = Some rec;
            r' = snd (runOneTracked fl ra r); kept' = kept \<or> (\<exists>rec \<in> set (rn_saved r'). kept' = Some rec) \<rbrakk>
          \<Longrightarrow> poolStep fl (r, kept) (r', kept')"
| restart: "poolStep fl (r, kept) (freshRunner (rn_queryGroup r) store observer, kept)"

inductive poolReach ::
  "FlightLimits \<Rightarrow> string \<Rightarrow> Runner \<Rightarrow> QueryCooldownRecord option \<Rightarrow> bool" for fl queryGroup where
  start: "poolReach fl queryGroup (freshRunner queryGroup store observer) None"
| step: "\<lbrakk> poolReach fl queryGroup r kept; poolStep fl (r, kept) (r', kept') \<rbrakk>
         \<Longrightarrow> poolReach fl queryGroup r' kept'"

lemma fresh_ok: "runner_ok (freshRunner queryGroup store observer)"
  by (simp add: freshRunner_def runner_ok_def pool_ok_defs zeroCooldown_def zeroCooldownMemory_def)

lemma reach_ok:
  "poolReach fl queryGroup r kept \<Longrightarrow> runner_ok r \<and> (\<forall>rec. kept = Some rec \<longrightarrow> record_ok rec)"
proof (induction rule: poolReach.induct)
  case (start store observer)
  show ?case using fresh_ok by simp
next
  case (step r kept r' kept')
  from step.hyps(2) show ?case
  proof (cases rule: poolStep.cases)
    case (round ra)
    have "runner_ok r'" unfolding round(3) by (rule round_ok) (use step.IH round in auto)
    then show ?thesis using round(4) step.IH by (auto simp: runner_ok_def list_all_iff)
  qed (use step.IH fresh_ok in auto)
qed

text \<open>
  C27: However the rounds of a Query Group's Runners go (queries that fail, answer or prove
  nothing, reads of the store that fail, restarts and changes of owner), the pool's facts stay
  consistent in memory and in the record kept outside: at most 32 failures are counted and no
  more timeouts than failures, a Query Group is in the pool only after three failures and exactly
  while it has an entry time and a source, an exit is dated exactly when it is explained, and a
  re-entry is counted only after an exit.
\<close>

theorem pool_invariant:
  assumes "poolReach fl queryGroup r kept"
  shows "pool_ok r \<and> (\<forall>rec. kept = Some rec \<longrightarrow> record_ok rec)"
  using reach_ok [OF assms] by (simp add: runner_ok_def)

section \<open>Evidence\<close>

lemma finish_membership:
  assumes "\<And>k. zeroTime < ra_now ra k" "finishExecution fl ra slot operation decides answer r = (outcome, r')"
  shows "inPool r \<Longrightarrow> \<not> inPool r' \<Longrightarrow> sx_Completed (ro_Result outcome)
           \<and> sx_QueryAvailability (ro_Result outcome) = QueryAvailabilityAvailable
           \<and> exitReasonOf r' = Some QueryCooldownRecovered"
    and "\<not> inPool r \<Longrightarrow> inPool r' \<Longrightarrow> sx_Completed (ro_Result outcome)
           \<and> sx_QueryAvailability (ro_Result outcome) = QueryAvailabilityUnavailable
           \<and> unavailableThreshold \<le> qs_failures (rn_queryCooldown r') \<and> qm_source (rn_cooldownMemory r') = SourceProbe"
    and "\<not> inPool r \<Longrightarrow> \<not> inPool r' \<Longrightarrow> exitReasonOf r' = exitReasonOf r"
proof -
  have clock: "\<And>k. zeroTime < laterReads 17 (ra_now ra) k" using assms(1) by simp
  note split = assms(2) [unfolded finishExecution_def Let_def]
  show "inPool r \<Longrightarrow> \<not> inPool r' \<Longrightarrow> sx_Completed (ro_Result outcome)
           \<and> sx_QueryAvailability (ro_Result outcome) = QueryAvailabilityAvailable
           \<and> exitReasonOf r' = Some QueryCooldownRecovered"
    using split by (auto simp: executedRound_def refuseViewNotExecutable_def Let_def
        split: ExecuteAnswer.splits if_splits dest!: availability_leaves [where now = "laterReads 17 (ra_now ra)", OF clock, rotated])
  show "\<not> inPool r \<Longrightarrow> inPool r' \<Longrightarrow> sx_Completed (ro_Result outcome)
           \<and> sx_QueryAvailability (ro_Result outcome) = QueryAvailabilityUnavailable
           \<and> unavailableThreshold \<le> qs_failures (rn_queryCooldown r') \<and> qm_source (rn_cooldownMemory r') = SourceProbe"
    using split by (auto simp: executedRound_def refuseViewNotExecutable_def Let_def
        split: ExecuteAnswer.splits if_splits dest!: availability_enters [where now = "laterReads 17 (ra_now ra)", OF clock, rotated])
  show "\<not> inPool r \<Longrightarrow> \<not> inPool r' \<Longrightarrow> exitReasonOf r' = exitReasonOf r"
    using split by (auto simp: executedRound_def refuseViewNotExecutable_def Let_def
        split: ExecuteAnswer.splits if_splits dest!: availability_out [where now = "laterReads 17 (ra_now ra)", OF _ _ clock, rotated])
qed

lemma dispatch_ends:
  assumes "dispatchSlot fl ra slot r = (outcome, r')"
  obtains "inPool r' = inPool r" "rn_cooldownMemory r' = rn_cooldownMemory r"
  | operation decides answer a where
      "finishExecution fl ra slot operation decides answer (r\<lparr>rn_attempt := a\<rparr>) = (outcome, r')"
  using assms unfolding dispatchSlot_def Let_def case_prod_unfold
  by (auto split: option.splits if_splits AdmissionAnswer.splits)

lemma dispatch_membership:
  assumes "\<And>k. zeroTime < ra_now ra k" "dispatchSlot fl ra slot r = (outcome, r')"
  shows "inPool r \<Longrightarrow> \<not> inPool r' \<Longrightarrow> sx_Completed (ro_Result outcome)
           \<and> sx_QueryAvailability (ro_Result outcome) = QueryAvailabilityAvailable
           \<and> exitReasonOf r' = Some QueryCooldownRecovered"
    and "\<not> inPool r \<Longrightarrow> inPool r' \<Longrightarrow> sx_Completed (ro_Result outcome)
           \<and> sx_QueryAvailability (ro_Result outcome) = QueryAvailabilityUnavailable
           \<and> unavailableThreshold \<le> qs_failures (rn_queryCooldown r') \<and> qm_source (rn_cooldownMemory r') = SourceProbe"
    and "\<not> inPool r \<Longrightarrow> \<not> inPool r' \<Longrightarrow> exitReasonOf r' = exitReasonOf r"
  by (use assms(2) in \<open>cases rule: dispatch_ends; use finish_membership [OF assms(1)] in fastforce\<close>)+

lemma runSlot_membership:
  assumes "\<And>k. zeroTime < ra_now ra k" "runSlot fl ra slot r = (outcome, r')"
  shows "inPool r \<Longrightarrow> \<not> inPool r' \<Longrightarrow>
           (exitReasonOf r' = Some QueryCooldownQueryRevisionChanged \<and> queryChanged slot r)
         \<or> (exitReasonOf r' = Some QueryCooldownRecovered \<and> sx_Completed (ro_Result outcome)
              \<and> sx_QueryAvailability (ro_Result outcome) = QueryAvailabilityAvailable)"
    and "\<not> inPool r \<Longrightarrow> inPool r' \<Longrightarrow> sx_Completed (ro_Result outcome)
           \<and> sx_QueryAvailability (ro_Result outcome) = QueryAvailabilityUnavailable
           \<and> unavailableThreshold \<le> qs_failures (rn_queryCooldown r') \<and> qm_source (rn_cooldownMemory r') = SourceProbe"
proof -
  let ?held = "r\<lparr>rn_sourceFailures := 0, rn_sourceNextAt := zeroTime,
                 rn_nextDeadline := timeUnixMilli (fs_EarliestQueryDeadlineUnixMilli slot)\<rparr>"
  let ?r1 = "snd (deferUnavailableQuery (laterReads 5 (ra_now ra)) slot ?held)"
  have clock: "\<And>k. zeroTime < laterReads 5 (ra_now ra) k" using assms(1) by simp
  have held: "queryChanged slot ?held = queryChanged slot r" "inPool ?held = inPool r"
    by (simp_all add: queryChanged_def)
  have r1: "inPool ?r1 \<longleftrightarrow> inPool r \<and> \<not> queryChanged slot r"
    "exitReasonOf ?r1 = (if queryChanged slot r \<and> inPool r then Some QueryCooldownQueryRevisionChanged else exitReasonOf ?held)"
    unfolding defer_membership revalidate_membership [where now = "laterReads 5 (ra_now ra)", OF clock] held by simp_all
  consider "inPool r' = inPool r" | "r' = ?r1" | "dispatchSlot fl ra slot ?r1 = (outcome, r')"
    using assms(2) by (auto simp: runSlot_def Let_def case_prod_unfold split: if_splits)
  note ends = this
  show "inPool r \<Longrightarrow> \<not> inPool r' \<Longrightarrow>
           (exitReasonOf r' = Some QueryCooldownQueryRevisionChanged \<and> queryChanged slot r)
         \<or> (exitReasonOf r' = Some QueryCooldownRecovered \<and> sx_Completed (ro_Result outcome)
              \<and> sx_QueryAvailability (ro_Result outcome) = QueryAvailabilityAvailable)"
    by (cases rule: ends; use r1 dispatch_membership(1,3) [OF assms(1)] in force)
  show "\<not> inPool r \<Longrightarrow> inPool r' \<Longrightarrow> sx_Completed (ro_Result outcome)
           \<and> sx_QueryAvailability (ro_Result outcome) = QueryAvailabilityUnavailable
           \<and> unavailableThreshold \<le> qs_failures (rn_queryCooldown r') \<and> qm_source (rn_cooldownMemory r') = SourceProbe"
    by (cases rule: ends; use r1 dispatch_membership(2) [OF assms(1)] in force)
qed

lemma round_ends:
  assumes "runOneTracked fl ra r = (outcome, r')"
  obtains (early) "inPool r' = inPool r"
  | (source) fence where "ra_fence ra = Some fence" "inPool r' = inPool (restoreQueryCooldown (ra_load ra) fence r)"
  | (slot) fence held slot r0 where "ra_fence ra = Some fence" "ra_next ra held = NextSlot slot"
      "runSlot fl ra slot (restoreQueryCooldown (ra_load ra) fence r) = (outcome, r0)"
      "rn_queryCooldown r' = rn_queryCooldown r0" "rn_cooldownMemory r' = rn_cooldownMemory r0"
proof -
  obtain outcome' facts r0 where body: "decideRound fl ra r = (outcome', facts, r0)" by (cases "decideRound fl ra r") auto
  have r': "outcome = outcome'" "inPool r' = inPool r0" "rn_queryCooldown r' = rn_queryCooldown r0"
    "rn_cooldownMemory r' = rn_cooldownMemory r0"
    using assms by (auto simp: runOneTracked_def body)
  show thesis
    using body early source slot r' unfolding decideRound_def Let_def
    by (auto simp: refuseViewNotExecutable_def sourceFailed_def Let_def
        split: if_splits option.splits NextAnswer.splits prod.splits)
qed


section \<open>Where a decision comes from\<close>

lemmas round_defs = idleRound_def failedRound_def retryingRound_def executedRound_def

lemma finish_decision [simp]:
  "ro_Decision (fst (finishExecution fl ra slot operation decides answer r)) \<noteq> QueryCooldown"
  "ro_Decision (fst (finishExecution fl ra slot operation decides answer r)) \<noteq> SourceRetry"
  "ro_Decision (fst (finishExecution fl ra slot operation decides answer r)) \<noteq> SourceBlocked"
  by (simp_all add: finishExecution_def Let_def round_defs split: ExecuteAnswer.split)

lemma dispatch_decision [simp]:
  "ro_Decision (fst (dispatchSlot fl ra slot r)) \<noteq> QueryCooldown"
  "ro_Decision (fst (dispatchSlot fl ra slot r)) \<noteq> SourceRetry"
  "ro_Decision (fst (dispatchSlot fl ra slot r)) \<noteq> SourceBlocked"
  by (auto simp: dispatchSlot_def Let_def case_prod_unfold round_defs split: option.split AdmissionAnswer.split)

lemma runSlot_decision [simp]:
  "ro_Decision (fst (runSlot fl ra slot r)) \<noteq> SourceRetry"
  "ro_Decision (fst (runSlot fl ra slot r)) \<noteq> SourceBlocked"
  by (auto simp: runSlot_def Let_def case_prod_unfold round_defs)

section \<open>A held query is tried again\<close>

lemma wakeInstant_bounds:
  assumes "t < until" "UnixMilli u < fs_RecoveryUntilUnixMilli slot" "t \<le> u" "t \<le> v"
  shows "t < wakeInstant v slot until" "wakeInstant v slot until \<le> until"
    "wakeInstant v slot until \<le> timeUnixMilli (fs_RecoveryUntilUnixMilli slot)"
proof -
  have "t < timeUnixMilli (fs_RecoveryUntilUnixMilli slot)"
    using after_UnixMilli [OF assms(2)] assms(3) by simp
  moreover have "UnixMilli v < n \<Longrightarrow> t < timeUnixMilli n" for n
    using after_UnixMilli [of v n] assms(4) by simp
  ultimately show "t < wakeInstant v slot until" "wakeInstant v slot until \<le> until"
    "wakeInstant v slot until \<le> timeUnixMilli (fs_RecoveryUntilUnixMilli slot)"
    using assms(1) by (auto simp: wakeInstant_def Let_def)
qed

lemma deferred_wakes:
  assumes "mono now" "deferUnavailableQuery now slot r = (True, r')"
  shows "now 3 < qs_wakeAt (rn_queryCooldown r')" "qs_wakeAt (rn_queryCooldown r') \<le> qs_until (rn_queryCooldown r')"
    "qs_wakeAt (rn_queryCooldown r') \<le> timeUnixMilli (fs_RecoveryUntilUnixMilli slot)"
proof -
  let ?r = "deferRevalidate now slot r"
  have gate: "now 3 < qs_until (rn_queryCooldown ?r)" "UnixMilli (now 4) < fs_RecoveryUntilUnixMilli slot"
    and r': "r' = ?r\<lparr>rn_queryCooldown := (rn_queryCooldown ?r)
               \<lparr>qs_wakeAt := wakeInstant (now 5) slot (qs_until (rn_queryCooldown ?r))\<rparr>\<rparr>"
    using assms(2) by (auto simp: deferUnavailableQuery_def Let_def split: if_splits)
  have "now 3 \<le> now 4" "now 3 \<le> now 5" using assms(1) by (auto simp: mono_def)
  from wakeInstant_bounds [OF gate this]
  show "now 3 < qs_wakeAt (rn_queryCooldown r')" "qs_wakeAt (rn_queryCooldown r') \<le> qs_until (rn_queryCooldown r')"
    "qs_wakeAt (rn_queryCooldown r') \<le> timeUnixMilli (fs_RecoveryUntilUnixMilli slot)" unfolding r' by simp_all
qed

lemma cooldown_round:
  assumes "runOneTracked fl ra r = (outcome, r')" "ro_Decision outcome = QueryCooldown"
  obtains held slot r1 r2 facts where "ra_next ra held = NextSlot slot" "outcome = idleRound QueryCooldown"
    "deferUnavailableQuery (laterReads 5 (ra_now ra)) slot r1 = (True, r2)"
    "r' = rememberHeldBy (ra_now ra 27) ''query_cooldown'' (r2\<lparr>rn_dueBound := recordDueBound QueryCooldown facts r2\<rparr>)"
proof -
  obtain outcome' facts r0 where body: "decideRound fl ra r = (outcome', facts, r0)" by (cases "decideRound fl ra r") auto
  have r': "outcome' = outcome"
    "r' = rememberHeldBy (ra_now ra 27) ''query_cooldown'' (r0\<lparr>rn_dueBound := recordDueBound QueryCooldown facts r0\<rparr>)"
    using assms by (auto simp: runOneTracked_def body)
  obtain held slot r1 where nxt: "ra_next ra held = NextSlot slot" and run: "runSlot fl ra slot r1 = (outcome, r0)"
    using body assms(2) unfolding decideRound_def Let_def r'(1)
    by (auto simp: round_defs split: if_splits option.splits NextAnswer.splits prod.splits)
  have "\<exists>r1. deferUnavailableQuery (laterReads 5 (ra_now ra)) slot r1 = (True, r0)" "outcome = idleRound QueryCooldown"
    using run assms(2)
    by (auto simp: runSlot_def Let_def failedRound_def split: if_splits prod.splits) (metis dispatch_decision(1) fst_conv)+
  then show thesis using that nxt r'(2) by blast
qed

lemma held_word:
  "rn_heldBy (rememberHeldBy now ''query_cooldown'' r) =
     \<lparr>hb_Decision = ''query_cooldown'', hb_AtUnixMilli = UnixMilli now,
      hb_QueryCooldownFailures = qs_failures (rn_queryCooldown r),
      hb_QueryCooldownUntilMilli = (if qs_until (rn_queryCooldown r) \<noteq> zeroTime then UnixMilli (qs_until (rn_queryCooldown r)) else 0),
      hb_ReadyAtUnixMilli = 0\<rparr>"
  by (simp add: rememberHeldBy_def ValidHeldByDecision_def RunOutcomes_def HeldByReadinessDeferred_def Let_def)

text \<open>
  C29: A round that ends because the pool holds the query has not run the Slot, and wakes again:
  at an instant after the one the pool was asked at, no later than the end of the cooldown and
  no later than the end of the Slot's recovery; the dispatcher's bound is the second of that
  instant, marked as a cooldown.  The next round is told that the cooldown held this one, and until when.
\<close>

theorem held_query_wakes:
  assumes "mono (ra_now ra)" "zeroTime < ra_now ra 0"
    and "runOneTracked fl ra r = (outcome, r')" "ro_Decision outcome = QueryCooldown"
  shows "\<not> ro_Attempted outcome \<and> \<not> ro_Err outcome
       \<and> ra_now ra 8 < qs_wakeAt (rn_queryCooldown r')
       \<and> qs_wakeAt (rn_queryCooldown r') \<le> qs_until (rn_queryCooldown r')
       \<and> (\<exists>held slot. ra_next ra held = NextSlot slot
            \<and> qs_wakeAt (rn_queryCooldown r') \<le> timeUnixMilli (fs_RecoveryUntilUnixMilli slot))
       \<and> db_QueryCooldown (rn_dueBound r')
       \<and> db_NotDueUntilUnix (rn_dueBound r') = qs_wakeAt (rn_queryCooldown r') div nanosecondsPerSecond
       \<and> hb_Decision (rn_heldBy r') = ''query_cooldown''
       \<and> hb_QueryCooldownUntilMilli (rn_heldBy r') = UnixMilli (qs_until (rn_queryCooldown r'))"
proof -
  obtain held slot r1 r2 facts where nxt: "ra_next ra held = NextSlot slot" and outcome: "outcome = idleRound QueryCooldown"
    and deferred: "deferUnavailableQuery (laterReads 5 (ra_now ra)) slot r1 = (True, r2)"
    and r': "r' = rememberHeldBy (ra_now ra 27) ''query_cooldown'' (r2\<lparr>rn_dueBound := recordDueBound QueryCooldown facts r2\<rparr>)"
    using cooldown_round [OF assms(3,4)] by blast
  note wakes = deferred_wakes [OF mono_laterReads [OF assms(1)] deferred, simplified]
  have "zeroTime < ra_now ra 8" using assms(1,2) by (meson monoD order_less_le_trans zero_le)
  then have "qs_wakeAt (rn_queryCooldown r2) \<noteq> zeroTime" "qs_until (rn_queryCooldown r2) \<noteq> zeroTime"
    using wakes(1,2) by linarith+
  then show ?thesis
    using wakes nxt unfolding r' outcome held_word
    by (auto simp: idleRound_def recordDueBound_def Let_def runnerBoundSecond_def)
qed

section \<open>A restart keeps the pool\<close>


section \<open>Delays\<close>

text \<open>
  The delay of a Query Group in the pool doubles with each failure from twice its period, up
  to five minutes or twice the period, and is spread below that value by less than half of it:
  so it is always more than one period and never past the cap, and no arithmetic on it overflows.
\<close>

theorem cooldown_delay_bounds:
  assumes "intervalUsable interval" "period = interval * nanosecondsPerSecond"
    and "plain = min (max (2 * period) fiveMinutes) (2 * period * 2 ^ (failures - unavailableThreshold))"
  shows "plain - plain div 2 < queryCooldownDelay queryGroup (i64 period) failures
       \<and> queryCooldownDelay queryGroup (i64 period) failures \<le> plain
       \<and> period < queryCooldownDelay queryGroup (i64 period) failures"
  using queryCooldownDelay_range [OF usable_period(2,3) [OF assms(1)]] delay_exceeds_period [OF assms(1)]
  unfolding assms(2,3) usable_period(1) [OF assms(1)] plainDelay_def by simp


section \<open>A concrete Query Group\<close>

definition exampleFence :: OwnerFence where
  "exampleFence = \<lparr>of_QueryGroup = ''qg'', of_OwnerID = ''w1'', of_OwnerEpoch = 7, of_LeaseToken = ''t''\<rparr>"

definition exampleSlot :: "int \<Rightarrow> string \<Rightarrow> FrozenSlot" where
  "exampleSlot t revision =
     \<lparr>fs_ExpiredRange = None,
      fs_Contract = \<lparr>fc_Slot = \<lparr>si_QueryGroup = ''qg'', si_EvaluationTime = t\<rparr>, fc_SnapshotRevision = ''s1'',
        fc_QueryRevision = revision, fc_ScheduleRevision = ''p1'', fc_ScheduleSegmentStart = 60,
        fc_DuePlanSetDigest = ''d'', fc_ReadHoldMillis = 0\<rparr>,
      fs_EarliestQueryDeadlineUnixMilli = t * 1000 + 30000, fs_RecoveryUntilUnixMilli = t * 1000 + 600000,
      fs_KeepUntilUnixMilli = t * 1000 + 700000,
      fs_Dispatch = \<lparr>dc_Operation = OperationNormal, dc_OwnerFence = exampleFence, dc_AssignmentGeneration = 1\<rparr>,
      fs_ExpectedNextSlot = t,
      fs_Recovery = \<lparr>rf_RecheckAtUnixMilli = 0, rf_Disposition = ReplayLive, rf_Reason = [], rf_Distance = 0, rf_Age = 0,
        rf_ReadyAtUnixMilli = 0, rf_DistanceBoundaryUnixMilli = 0\<rparr>\<rparr>"

text \<open>A minute's round at second \<open>t\<close>: the source gives the Slot of that second, and the query ends with \<open>a\<close>.\<close>

definition exampleAnswers :: "int \<Rightarrow> NextAnswer \<Rightarrow> QueryAvailability \<Rightarrow> RoundAnswers" where
  "exampleAnswers t nxt a =
     \<lparr>ra_now = (\<lambda>_. t * nanosecondsPerSecond), ra_cancelled = False, ra_flightFree = True, ra_fence = Some exampleFence,
      ra_load = LoadNone, ra_facts = \<lparr>df_NotDueUntilUnix = 0, df_IntervalSeconds = 60, df_Retired = False\<rparr>,
      ra_next = (\<lambda>_. nxt), ra_targetsValid = (\<lambda>_. True), ra_rangeValid = (\<lambda>_. True),
      ra_currentFence = Some exampleFence, ra_requestValid = (\<lambda>_ _. True), ra_admission = (\<lambda>_. Admitted),
      ra_execute = (\<lambda>_ _ _. ExecuteResult (zeroResult\<lparr>sx_QueryAvailability := a,
        sx_QueryUnavailableReason := ReasonQueryTimeout, sx_Completed := True, sx_Result := ''success''\<rparr>))\<rparr>"

definition exampleFlights :: FlightLimits where
  "exampleFlights = \<lparr>fl_recoveryEnabled = True,
     fl_limits = \<lparr>rl_ProcessQueryPermits = 4, rl_RecoveryQueryPermits = 2, rl_ReadyQueueCapacity = 8,
       rl_RecoveryQueueCapacity = 8, rl_MaxQueuedItemsPerQG = 2, rl_MaxReplaySlots = 3,
       rl_MaxReplayAge = 600 * nanosecondsPerSecond, rl_RetryMinDelay = nanosecondsPerSecond,
       rl_RetryMaxDelay = 30 * nanosecondsPerSecond\<rparr>\<rparr>"

definition failRound :: "int \<Rightarrow> Runner \<Rightarrow> Runner" where
  "failRound t r = snd (runOneTracked exampleFlights
     (exampleAnswers t (NextSlot (exampleSlot t ''q1'')) QueryAvailabilityUnavailable) r)"

text \<open>Three Slots whose query timed out: the Query Group is in the pool.\<close>

definition exampleDegraded :: Runner where
  "exampleDegraded = failRound 240 (failRound 180 (failRound 120 (freshRunner ''qg'' True True)))"

lemma exampleDegraded_code:
  "inPool exampleDegraded" "qs_failures (rn_queryCooldown exampleDegraded) = 3"
  "qs_until (rn_queryCooldown exampleDegraded) > 300 * nanosecondsPerSecond"
  by code_simp+

lemma exampleClock: "0 \<le> t \<Longrightarrow> zeroTime < ra_now (exampleAnswers t nxt a) k"
  by (simp add: exampleAnswers_def zeroTime_def nanosecondsPerSecond_def)

lemma failRound_step: "0 \<le> t \<Longrightarrow> poolStep exampleFlights (r, kept) (failRound t r, kept)"
  unfolding failRound_def by (rule poolStep.round) (use exampleClock in \<open>auto simp: exampleAnswers_def\<close>)

lemma exampleDegraded_reach: "poolReach exampleFlights ''qg'' exampleDegraded None"
  unfolding exampleDegraded_def
  by (intro poolReach.step [OF _ failRound_step] poolReach.start) simp_all

theorem pool_invariant_witness:
  "inPool exampleDegraded \<and> pool_ok exampleDegraded \<and> qm_enteredAt (rn_cooldownMemory exampleDegraded) \<noteq> zeroTime"
  using pool_invariant [OF exampleDegraded_reach] exampleDegraded_code(1)
  by (auto simp: pool_ok_defs)

text \<open>The query of the degraded Query Group answers at last, under a cooldown that ran out.\<close>

definition exampleAnswered :: RoundAnswers where
  "exampleAnswered = exampleAnswers 600 (NextSlot (exampleSlot 600 ''q1'')) QueryAvailabilityAvailable"

lemma exampleAnswered_code: "\<not> inPool (snd (runOneTracked exampleFlights exampleAnswered exampleDegraded))"
  by code_simp


text \<open>The minute after it entered, the pool holds its query.\<close>

definition exampleHeld :: RoundAnswers where
  "exampleHeld = exampleAnswers 300 (NextSlot (exampleSlot 300 ''q1'')) QueryAvailabilityUnknown"

lemma exampleHeld_code: "ro_Decision (fst (runOneTracked exampleFlights exampleHeld exampleDegraded)) = QueryCooldown"
  by code_simp

theorem held_query_wakes_witness:
  "300 * nanosecondsPerSecond < qs_wakeAt (rn_queryCooldown (snd (runOneTracked exampleFlights exampleHeld exampleDegraded)))"
proof -
  have "mono (ra_now exampleHeld)" "zeroTime < ra_now exampleHeld 0" "ra_now exampleHeld 8 = 300 * nanosecondsPerSecond"
    by (simp_all add: exampleHeld_def exampleClock) (simp_all add: exampleAnswers_def mono_def)
  with held_query_wakes [OF _ _ surjective_pairing exampleHeld_code] show ?thesis by simp
qed


theorem cooldown_delay_bounds_witness:
  "intervalUsable 60 \<and> 60 * nanosecondsPerSecond < queryCooldownDelay ''qg'' (i64 (60 * nanosecondsPerSecond)) 5
   \<and> queryCooldownDelay ''qg'' (i64 (60 * nanosecondsPerSecond)) 5 \<le> 300 * nanosecondsPerSecond"
proof -
  have usable: "intervalUsable 60" by (simp add: intervalUsable_def)
  from cooldown_delay_bounds [OF this refl refl, of 5 "''qg''"]
  show ?thesis using usable by (simp add: fiveMinutes_def nanosecondsPerSecond_def unavailableThreshold_def)
qed

definition exampleSourceDown :: RoundAnswers where
  "exampleSourceDown = exampleAnswers 300 NextSourceRetry QueryAvailabilityUnknown"


end
