(* ===== verification/Schedule.thy ===== *)
theory Schedule
  imports Packed Runner "HOL-Library.Product_Lexorder"
begin

text \<open>
  The frozen schedule of a Query Group (\<open>execution/schedule_contract.go\<close>) and the lifetime of its
  Slots (\<open>execution/slot_retention.go\<close>).

  A Plan is due on a grid of its interval; a Slot of the Query Group is a time of its Segment at
  which some Plan is due.  An \<open>EvaluationTime\<close> is an \<open>int64\<close> of seconds.  Whether a time zone name
  is known to \<open>time.LoadLocation\<close> depends on the machine's zone database: \<open>zone\<close> is an argument.
\<close>

section \<open>Data\<close>

record ScheduleSpec =
  ss_EvaluationIntervalSeconds :: int
  ss_Alignment :: int
  ss_Timezone :: string
  ss_CompletionDeadlineOffsetSeconds :: int

record ShardRef =
  sh_Dimension :: string
  sh_Index :: int
  sh_Count :: int
  sh_MatcherDigest :: string

record FrozenPlanSchedule =
  ps_Identity :: PlanIdentity
  ps_ScheduleRevision :: string
  ps_Spec :: ScheduleSpec
  ps_Shard :: "ShardRef option"

record FrozenPlanScheduleRef =
  pr_Identity :: PlanIdentity
  pr_ScheduleRevision :: string
  pr_Shard :: "ShardRef option"

record OutputContextRef =
  oc_Plan :: PlanIdentity
  oc_Digest :: string

record OutputContextRevision =
  ov_Since :: int
  ov_Refs :: "OutputContextRef list"

record ScheduleSegmentFact =
  sg_SnapshotRevision :: string
  sg_PublicationEpoch :: nat
  sg_QueryGroup :: string
  sg_QueryRevision :: string
  sg_ScheduleRevision :: string
  sg_Start :: int
  sg_End :: "int option"
  sg_OutputContextRefs :: "OutputContextRef list"
  sg_OutputContextRevisions :: "OutputContextRevision list"

record FrozenQueryGroupSchedule =
  qg_Segment :: ScheduleSegmentFact
  qg_Plans :: "FrozenPlanSchedule list"

section \<open>The cadence of a Plan\<close>

definition specValid :: "(string \<Rightarrow> bool) \<Rightarrow> ScheduleSpec \<Rightarrow> bool" where
  "specValid zone spec \<longleftrightarrow>
     \<not> (ss_CompletionDeadlineOffsetSeconds spec < 0 \<or> ss_EvaluationIntervalSeconds spec \<le> 0
        \<or> ss_Alignment spec < 0 \<or> ss_Alignment spec \<ge> ss_EvaluationIntervalSeconds spec
        \<or> ss_Timezone spec = [] \<or> \<not> zone (ss_Timezone spec))"

definition IsAligned :: "(string \<Rightarrow> bool) \<Rightarrow> ScheduleSpec \<Rightarrow> int \<Rightarrow> bool" where
  "IsAligned zone spec at =
     (if \<not> specValid zone spec \<or> at \<le> 0 \<or> at < ss_Alignment spec then False
      else (at - ss_Alignment spec) smod ss_EvaluationIntervalSeconds spec = 0)"

definition nextAtOrAfter :: "(string \<Rightarrow> bool) \<Rightarrow> ScheduleSpec \<Rightarrow> int \<Rightarrow> int option" where
  "nextAtOrAfter zone spec at =
     (if \<not> specValid zone spec \<or> at \<le> 0 then None
      else if at \<le> ss_Alignment spec
      then (if ss_Alignment spec \<le> 0 then Some (ss_EvaluationIntervalSeconds spec) else Some (ss_Alignment spec))
      else
        (let remainder = (at - ss_Alignment spec) smod ss_EvaluationIntervalSeconds spec
         in if remainder = 0 then Some at
            else
              (let increment = ss_EvaluationIntervalSeconds spec - remainder
               in if at > maxInt64 - increment then None else Some (at + increment))))"

definition CompletionOffsetSeconds :: "ScheduleSpec \<Rightarrow> int" where
  "CompletionOffsetSeconds spec =
     (if ss_CompletionDeadlineOffsetSeconds spec \<noteq> 0 then ss_CompletionDeadlineOffsetSeconds spec
      else ss_EvaluationIntervalSeconds spec)"

definition CompletionDeadlineUnixMilli :: "(string \<Rightarrow> bool) \<Rightarrow> ScheduleSpec \<Rightarrow> int \<Rightarrow> int option" where
  "CompletionDeadlineUnixMilli zone spec at =
     (let offset = CompletionOffsetSeconds spec
      in if \<not> specValid zone spec \<or> at \<le> 0 \<or> at > maxInt64 - offset then None
         else if at + offset > maxInt64 sdiv 1000 then None
         else Some ((at + offset) * 1000))"

definition HeldCompletionDeadlineUnixMilli :: "(string \<Rightarrow> bool) \<Rightarrow> ScheduleSpec \<Rightarrow> int \<Rightarrow> int \<Rightarrow> int option" where
  "HeldCompletionDeadlineUnixMilli zone spec at hold =
     (case CompletionDeadlineUnixMilli zone spec at of
        None \<Rightarrow> None
      | Some deadline \<Rightarrow>
          if hold < 0 \<or> hold > 24 * 3600 * 1000 \<or> deadline > maxInt64 - hold then None else Some (deadline + hold))"

definition MinimumSettlingWait :: int where "MinimumSettlingWait = 10 * nanosecondsPerSecond"

definition SettlingWaitWithinQueryBudget :: "int \<Rightarrow> int \<Rightarrow> int" where
  "SettlingWaitWithinQueryBudget queryBudget configured =
     (if configured < queryBudget then configured else MinimumSettlingWait)"

definition AffordsSettlingWait :: "ScheduleSpec \<Rightarrow> bool" where
  "AffordsSettlingWait spec \<longleftrightarrow> CompletionOffsetSeconds spec > 15"

definition DeriveScheduleSpec :: "int \<Rightarrow> ScheduleSpec" where
  "DeriveScheduleSpec interval =
     \<lparr>ss_EvaluationIntervalSeconds = interval, ss_Alignment = 0, ss_Timezone = ''UTC'',
      ss_CompletionDeadlineOffsetSeconds = (if interval = 10 \<or> interval = 15 then 30 else 0)\<rparr>"

section \<open>The Segment\<close>

fun refsAt :: "int \<Rightarrow> OutputContextRevision list \<Rightarrow> OutputContextRef list \<Rightarrow> OutputContextRef list" where
  "refsAt at [] refs = refs"
| "refsAt at (v # vs) refs = (if ov_Since v > at then refs else refsAt at vs (ov_Refs v))"

definition OutputContextRefsAt :: "ScheduleSegmentFact \<Rightarrow> int \<Rightarrow> OutputContextRef list" where
  "OutputContextRefsAt segment at = refsAt at (sg_OutputContextRevisions segment) (sg_OutputContextRefs segment)"

definition segmentAt :: "ScheduleSegmentFact \<Rightarrow> int \<Rightarrow> ScheduleSegmentFact" where
  "segmentAt segment at =
     segment\<lparr>sg_OutputContextRefs := OutputContextRefsAt segment at, sg_OutputContextRevisions := []\<rparr>"

fun revisionsAdvance :: "int \<Rightarrow> OutputContextRevision list \<Rightarrow> bool" where
  "revisionsAdvance previous [] = True"
| "revisionsAdvance previous (v # vs) =
     (if ov_Since v \<le> previous \<or> ov_Refs v = [] then False else revisionsAdvance (ov_Since v) vs)"

definition segmentValid :: "ScheduleSegmentFact \<Rightarrow> bool" where
  "segmentValid segment =
     (if sg_SnapshotRevision segment = [] \<or> sg_PublicationEpoch segment = 0 then False
      else if sg_QueryGroup segment = [] \<or> sg_QueryRevision segment = [] \<or> sg_ScheduleRevision segment = []
              \<or> sg_Start segment \<le> 0 then False
      else if (case sg_End segment of Some e \<Rightarrow> e \<le> sg_Start segment | None \<Rightarrow> False) then False
      else revisionsAdvance (sg_Start segment) (sg_OutputContextRevisions segment))"

definition Contains :: "ScheduleSegmentFact \<Rightarrow> int \<Rightarrow> bool" where
  "Contains segment at \<longleftrightarrow>
     at \<ge> sg_Start segment \<and> (case sg_End segment of None \<Rightarrow> True | Some e \<Rightarrow> at < e)"

section \<open>The Slots of a Query Group\<close>

definition identityKey :: "PlanIdentity \<Rightarrow> string \<times> string \<times> string" where
  "identityKey p = (pi_TenantID p, pi_BusinessID p, pi_StrategyID p)"

definition DuePlanRefs :: "(string \<Rightarrow> bool) \<Rightarrow> FrozenQueryGroupSchedule \<Rightarrow> int \<Rightarrow> FrozenPlanScheduleRef list" where
  "DuePlanRefs zone schedule at =
     (if \<not> Contains (qg_Segment schedule) at then []
      else sort_key (identityKey \<circ> pr_Identity)
             (map (\<lambda>p. \<lparr>pr_Identity = ps_Identity p, pr_ScheduleRevision = ps_ScheduleRevision p, pr_Shard = ps_Shard p\<rparr>)
                (filter (\<lambda>p. IsAligned zone (ps_Spec p) at) (qg_Plans schedule))))"

fun earliestNext :: "(string \<Rightarrow> bool) \<Rightarrow> int \<Rightarrow> FrozenPlanSchedule list \<Rightarrow> int \<Rightarrow> int" where
  "earliestNext zone at [] next = next"
| "earliestNext zone at (p # ps) next =
     earliestNext zone at ps
       (case nextAtOrAfter zone (ps_Spec p) at of
          Some candidate \<Rightarrow> if candidate < next then candidate else next
        | None \<Rightarrow> next)"

definition nextSlotAtOrAfter :: "(string \<Rightarrow> bool) \<Rightarrow> FrozenQueryGroupSchedule \<Rightarrow> int \<Rightarrow> int option" where
  "nextSlotAtOrAfter zone schedule at0 =
     (let at = (if at0 < sg_Start (qg_Segment schedule) then sg_Start (qg_Segment schedule) else at0);
          next = earliestNext zone at (qg_Plans schedule) maxInt64
      in if next \<noteq> maxInt64 \<and> Contains (qg_Segment schedule) next then Some next else None)"

definition FirstSlot :: "(string \<Rightarrow> bool) \<Rightarrow> FrozenQueryGroupSchedule \<Rightarrow> int option" where
  "FirstSlot zone schedule = nextSlotAtOrAfter zone schedule (sg_Start (qg_Segment schedule))"

definition NextSlotAfter :: "(string \<Rightarrow> bool) \<Rightarrow> FrozenQueryGroupSchedule \<Rightarrow> int \<Rightarrow> int option" where
  "NextSlotAfter zone schedule current =
     (if \<not> Contains (qg_Segment schedule) current \<or> current \<ge> maxInt64 then None
      else nextSlotAtOrAfter zone schedule (current + 1))"

section \<open>How long a Slot is read\<close>

datatype RetentionError = SlotRetentionInvalid | SlotDeadlineDrift | OpenSegment

record SlotRetention =
  sr_QueryReserve :: int
  sr_MaxReplayAge :: int
  sr_TerminalDelay :: int
  sr_ReadHoldBound :: int

text \<open>\<open>Duration.Milliseconds\<close>.\<close>

definition durationMillis :: "int \<Rightarrow> int" where "durationMillis d = d sdiv 1000000"

definition retentionValid :: "SlotRetention \<Rightarrow> bool" where
  "retentionValid retention \<longleftrightarrow>
     \<not> (sr_QueryReserve retention \<le> 0 \<or> sr_MaxReplayAge retention \<le> 0 \<or> sr_TerminalDelay retention \<le> 0
        \<or> sr_ReadHoldBound retention < 0 \<or> durationMillis (sr_ReadHoldBound retention) > 24 * 3600 * 1000)"

fun earliestDeadline ::
  "(string \<Rightarrow> bool) \<Rightarrow> int \<Rightarrow> int \<Rightarrow> FrozenPlanSchedule list \<Rightarrow> int \<Rightarrow> RetentionError + int" where
  "earliestDeadline zone slot reserve [] deadline = Inr deadline"
| "earliestDeadline zone slot reserve (p # ps) deadline =
     (if \<not> IsAligned zone (ps_Spec p) slot then earliestDeadline zone slot reserve ps deadline
      else
        (case CompletionDeadlineUnixMilli zone (ps_Spec p) slot of
           None \<Rightarrow> Inl SlotDeadlineDrift
         | Some completion \<Rightarrow>
             (let candidate = completion - durationMillis reserve
              in if candidate \<le> slot * 1000 then Inl SlotDeadlineDrift
                 else earliestDeadline zone slot reserve ps
                        (if deadline = 0 \<or> candidate < deadline then candidate else deadline))))"

definition SlotQueryDeadlineUnixMilli ::
  "(string \<Rightarrow> bool) \<Rightarrow> FrozenQueryGroupSchedule \<Rightarrow> int \<Rightarrow> int \<Rightarrow> RetentionError + int" where
  "SlotQueryDeadlineUnixMilli zone schedule slot reserve =
     (if reserve \<le> 0 then Inl SlotRetentionInvalid
      else
        (case earliestDeadline zone slot reserve (qg_Plans schedule) 0 of
           Inl e \<Rightarrow> Inl e
         | Inr deadline \<Rightarrow> if deadline = 0 then Inl SlotDeadlineDrift else Inr deadline))"

definition SlotRecoveryBoundaries :: "int \<Rightarrow> int \<Rightarrow> int \<Rightarrow> RetentionError + int \<times> int" where
  "SlotRecoveryBoundaries deadline maxReplayAge terminalDelay =
     (if maxReplayAge \<le> 0 \<or> terminalDelay \<le> 0 then Inl SlotRetentionInvalid
      else
        (let recoveryUntil = i64 (UnixMilli (timeUnixMilli deadline + maxReplayAge));
             keepUntil = i64 (UnixMilli (timeUnixMilli recoveryUntil + terminalDelay))
         in if recoveryUntil \<le> deadline \<or> keepUntil \<le> recoveryUntil then Inl SlotRetentionInvalid
            else Inr (recoveryUntil, keepUntil)))"

section \<open>The grid\<close>

lemma smod_pos: "0 \<le> (a::int) \<Longrightarrow> 0 < b \<Longrightarrow> a smod b = a mod b"
  by (cases "a = 0") (simp_all add: signed_modulo_int_def sdiv_pos minus_div_mult_eq_mod)

lemma IsAligned_iff:
  "IsAligned zone spec at \<longleftrightarrow> specValid zone spec \<and> 0 < at \<and> ss_Alignment spec \<le> at
     \<and> ss_EvaluationIntervalSeconds spec dvd at - ss_Alignment spec"
  by (auto simp: IsAligned_def smod_pos specValid_def mod_eq_0_iff_dvd)

text \<open>Between a time and the next multiple there is none.\<close>

lemma no_multiple_between:
  assumes "0 < (i::int)" "r = d mod i" "r \<noteq> 0" "d \<le> t" "t < d + (i - r)"
  shows "\<not> i dvd t"
proof
  assume "i dvd t"
  moreover have "i dvd d - r" using assms(2) by (simp add: dvd_minus_mod)
  ultimately have "i dvd t - (d - r)" by (rule dvd_diff)
  moreover have "0 < r" "r < i" using assms(1-3) by (simp_all add: order_le_neq_trans)
  ultimately show False using assms(4,5) zdvd_not_zless [of "t - (d - r)" i] by linarith
qed

lemma nextAtOrAfter_Some:
  assumes "nextAtOrAfter zone spec at = Some n"
  shows "at \<le> n" "IsAligned zone spec n" "at \<le> t \<Longrightarrow> t < n \<Longrightarrow> \<not> IsAligned zone spec t"
proof -
  let ?i = "ss_EvaluationIntervalSeconds spec" and ?a = "ss_Alignment spec"
  let ?r = "(at - ?a) mod ?i"
  have valid: "specValid zone spec" "0 < at" "0 < ?i" "0 \<le> ?a" "?a < ?i"
    using assms by (auto simp: nextAtOrAfter_def specValid_def split: if_splits)
  consider "at \<le> ?a" "n = ?a" | "?a < at" "?r = 0" "n = at" | "?a < at" "?r \<noteq> 0" "n = at + (?i - ?r)"
    using assms valid by (auto simp: nextAtOrAfter_def Let_def smod_pos split: if_splits)
  then have "at \<le> n \<and> IsAligned zone spec n \<and> (at \<le> t \<longrightarrow> t < n \<longrightarrow> \<not> IsAligned zone spec t)"
  proof cases
    case 1
    then show ?thesis using valid by (auto simp: IsAligned_iff)
  next
    case 2
    then show ?thesis using valid by (auto simp: IsAligned_iff mod_eq_0_iff_dvd)
  next
    case 3
    have r: "0 \<le> ?r" "?r < ?i" using valid(3) by simp_all
    have split: "n - ?a = (at - ?a - ?r) + ?i" using 3(3) by simp
    have "?i dvd n - ?a" unfolding split by (intro dvd_add dvd_minus_mod dvd_refl)
    moreover have "\<not> ?i dvd t - ?a" if "at \<le> t" "t < n"
      using no_multiple_between [OF valid(3) refl 3(2), of "t - ?a"] that 3(3) by simp
    moreover have "at \<le> n" using r 3(3) by linarith
    ultimately show ?thesis using valid 3(1) by (auto simp: IsAligned_iff)
  qed
  then show "at \<le> n" "IsAligned zone spec n" "at \<le> t \<Longrightarrow> t < n \<Longrightarrow> \<not> IsAligned zone spec t" by blast+
qed

lemma nextAtOrAfter_None:
  assumes "nextAtOrAfter zone spec at = None" "0 < at" "at \<le> t" "t \<le> maxInt64"
  shows "\<not> IsAligned zone spec t"
proof
  let ?i = "ss_EvaluationIntervalSeconds spec" and ?a = "ss_Alignment spec"
  let ?r = "(at - ?a) mod ?i"
  assume al: "IsAligned zone spec t"
  then have valid: "specValid zone spec" "0 < ?i" "0 \<le> ?a" by (auto simp: IsAligned_iff specValid_def)
  then have "?a < at" "?r \<noteq> 0" "at > maxInt64 - (?i - ?r)"
    using assms(1,2) by (auto simp: nextAtOrAfter_def Let_def smod_pos split: if_splits)
  then show False
    using no_multiple_between [OF valid(2) refl, of "at - ?a" "t - ?a"] al assms(3,4) by (auto simp: IsAligned_iff)
qed

section \<open>The next Slot\<close>

text \<open>A Slot: a time of the Segment at which some Plan is due.\<close>

definition isSlot :: "(string \<Rightarrow> bool) \<Rightarrow> FrozenQueryGroupSchedule \<Rightarrow> int \<Rightarrow> bool" where
  "isSlot zone schedule t \<longleftrightarrow> DuePlanRefs zone schedule t \<noteq> []"

lemma sort_key_Nil: "sort_key f xs = [] \<longleftrightarrow> xs = []"
  by (metis length_0_conv length_sort)

lemma isSlot_iff:
  "isSlot zone schedule t \<longleftrightarrow>
     Contains (qg_Segment schedule) t \<and> (\<exists>p \<in> set (qg_Plans schedule). IsAligned zone (ps_Spec p) t)"
  by (auto simp: isSlot_def DuePlanRefs_def filter_empty_conv sort_key_Nil)

lemma earliestNext_le: "earliestNext zone at plans m \<le> m"
proof (induction plans arbitrary: m)
  case (Cons p plans)
  show ?case using Cons [of "case nextAtOrAfter zone (ps_Spec p) at of
      Some candidate \<Rightarrow> if candidate < m then candidate else m | None \<Rightarrow> m"]
    by (auto split: option.splits if_splits)
qed simp

lemma earliestNext_lower:
  "p \<in> set plans \<Longrightarrow> nextAtOrAfter zone (ps_Spec p) at = Some c \<Longrightarrow> earliestNext zone at plans m \<le> c"
proof (induction plans arbitrary: m)
  case (Cons q plans)
  show ?case
  proof (cases "p = q")
    case True
    have "earliestNext zone at (q # plans) m \<le> (if c < m then c else m)"
      using Cons.prems(2) True earliestNext_le [of zone at plans "if c < m then c else m"] by simp
    then show ?thesis by (auto split: if_splits)
  next
    case False
    then show ?thesis using Cons by auto
  qed
qed simp

lemma earliestNext_attained:
  "earliestNext zone at plans m = m
   \<or> (\<exists>p \<in> set plans. nextAtOrAfter zone (ps_Spec p) at = Some (earliestNext zone at plans m))"
proof (induction plans arbitrary: m)
  case (Cons q plans)
  let ?m = "case nextAtOrAfter zone (ps_Spec q) at of
      Some candidate \<Rightarrow> if candidate < m then candidate else m | None \<Rightarrow> m"
  have "?m = m \<or> nextAtOrAfter zone (ps_Spec q) at = Some ?m" by (auto split: option.split)
  then show ?case using Cons [of ?m] by auto
qed simp

text \<open>The search finds the first Slot from a time on, or there is none before the last \<open>int64\<close>.\<close>

lemma nextAtOrAfter_positive: "nextAtOrAfter zone spec at = Some n \<Longrightarrow> 0 < at"
  by (auto simp: nextAtOrAfter_def split: if_splits)

lemma earliestNext_none_before:
  assumes "0 < lo" "lo \<le> t" "t < earliestNext zone lo plans maxInt64" "p \<in> set plans"
  shows "\<not> IsAligned zone (ps_Spec p) t"
proof (cases "nextAtOrAfter zone (ps_Spec p) lo")
  case None
  have "t \<le> maxInt64" using assms(3) earliestNext_le [of zone lo plans maxInt64] by simp
  then show ?thesis using nextAtOrAfter_None [OF None assms(1,2)] by simp
next
  case (Some c)
  have "t < c" using earliestNext_lower [OF assms(4) Some, of maxInt64] assms(3) by simp
  then show ?thesis using nextAtOrAfter_Some(3) [OF Some assms(2)] by simp
qed

lemma nextSlotAtOrAfter_Some:
  assumes "nextSlotAtOrAfter zone schedule at = Some n"
  shows "at \<le> n" "isSlot zone schedule n" "at \<le> t \<Longrightarrow> t < n \<Longrightarrow> \<not> isSlot zone schedule t"
proof -
  define lo where "lo = max at (sg_Start (qg_Segment schedule))"
  have n: "n = earliestNext zone lo (qg_Plans schedule) maxInt64" "n \<noteq> maxInt64" "Contains (qg_Segment schedule) n"
    using assms by (auto simp: nextSlotAtOrAfter_def Let_def lo_def max_def split: if_splits)
  then obtain p where p: "p \<in> set (qg_Plans schedule)" "nextAtOrAfter zone (ps_Spec p) lo = Some n"
    using earliestNext_attained [of zone lo "qg_Plans schedule" maxInt64] by auto
  note least = nextAtOrAfter_Some [OF p(2)]
  show "at \<le> n" using least(1) by (simp add: lo_def)
  show "isSlot zone schedule n" using n(3) p(1) least(2) by (auto simp: isSlot_iff)
  show "\<not> isSlot zone schedule t" if "at \<le> t" "t < n"
    using earliestNext_none_before [OF nextAtOrAfter_positive [OF p(2)], of t zone "qg_Plans schedule"] that
    unfolding n(1) [symmetric] by (auto simp: isSlot_iff Contains_def lo_def)
qed

lemma nextSlotAtOrAfter_None:
  assumes "nextSlotAtOrAfter zone schedule at = None" "0 < sg_Start (qg_Segment schedule)" "at \<le> t" "t < maxInt64"
  shows "\<not> isSlot zone schedule t"
proof
  assume slot: "isSlot zone schedule t"
  define lo where "lo = max at (sg_Start (qg_Segment schedule))"
  let ?n = "earliestNext zone lo (qg_Plans schedule) maxInt64"
  have lo: "0 < lo" "lo \<le> t" using assms(2,3) slot by (auto simp: lo_def isSlot_iff Contains_def)
  have "\<not> t < ?n" using earliestNext_none_before [OF lo] slot by (auto simp: isSlot_iff)
  moreover have "?n = maxInt64 \<or> \<not> Contains (qg_Segment schedule) ?n"
    using assms(1) by (auto simp: nextSlotAtOrAfter_def Let_def lo_def max_def split: if_splits)
  moreover have "lo \<le> ?n"
    using earliestNext_attained [of zone lo "qg_Plans schedule" maxInt64] nextAtOrAfter_Some(1) lo(2) assms(4) by fastforce
  ultimately show False
    using slot assms(4) by (auto simp: isSlot_iff Contains_def lo_def split: option.splits)
qed

lemma NextSlotAfter_increases:
  "NextSlotAfter zone schedule t = Some n \<Longrightarrow> t < n \<and> Contains (qg_Segment schedule) n"
  by (auto simp: NextSlotAfter_def isSlot_iff dest: nextSlotAtOrAfter_Some(1,2) split: if_splits)

section \<open>The end of a closed Segment\<close>

text \<open>
  The loop of \<open>SegmentKeepUntilUnixMilli\<close>.  It is entered for a Segment with an end only; that
  end is what bounds it.
\<close>

function segmentKeepLoop ::
  "(string \<Rightarrow> bool) \<Rightarrow> FrozenQueryGroupSchedule \<Rightarrow> SlotRetention \<Rightarrow> int option \<Rightarrow> int \<Rightarrow> RetentionError + int" where
  "segmentKeepLoop zone schedule retention None keepUntil = Inr keepUntil"
| "segmentKeepLoop zone schedule retention (Some slot) keepUntil =
     (if sg_End (qg_Segment schedule) = None then Inl OpenSegment
      else
        (case SlotQueryDeadlineUnixMilli zone schedule slot (sr_QueryReserve retention) of
           Inl err \<Rightarrow> Inl err
         | Inr deadline \<Rightarrow>
             (case SlotRecoveryBoundaries (i64 (deadline + durationMillis (sr_ReadHoldBound retention)))
                     (sr_MaxReplayAge retention) (sr_TerminalDelay retention) of
                Inl err \<Rightarrow> Inl err
              | Inr (_, slotKeepUntil) \<Rightarrow>
                  segmentKeepLoop zone schedule retention (NextSlotAfter zone schedule slot)
                    (if slotKeepUntil > keepUntil then slotKeepUntil else keepUntil))))"
  by pat_completeness auto
termination
  by (relation "measure (\<lambda>(_, schedule, _, slot, _). case slot of None \<Rightarrow> 0
        | Some s \<Rightarrow> Suc (nat (the (sg_End (qg_Segment schedule)) - s)))")
    (auto simp: Contains_def split: option.split dest!: NextSlotAfter_increases)

definition SegmentKeepUntilUnixMilli ::
  "(string \<Rightarrow> bool) \<Rightarrow> FrozenQueryGroupSchedule \<Rightarrow> SlotRetention \<Rightarrow> RetentionError + int" where
  "SegmentKeepUntilUnixMilli zone schedule retention =
     (if \<not> retentionValid retention then Inl SlotRetentionInvalid
      else if sg_End (qg_Segment schedule) = None then Inl OpenSegment
      else segmentKeepLoop zone schedule retention (FirstSlot zone schedule) 0)"

lemma next_slot_first:
  assumes "0 < sg_Start (qg_Segment schedule)" "Contains (qg_Segment schedule) current"
  shows "case NextSlotAfter zone schedule current of
           Some n \<Rightarrow> current < n \<and> DuePlanRefs zone schedule n \<noteq> []
                      \<and> (\<forall>t. current < t \<and> t < n \<longrightarrow> DuePlanRefs zone schedule t = [])
         | None \<Rightarrow> \<forall>t. current < t \<and> t < maxInt64 \<longrightarrow> DuePlanRefs zone schedule t = []"
proof (cases "NextSlotAfter zone schedule current")
  case None
  then show ?thesis
    using assms nextSlotAtOrAfter_None [of zone schedule "current + 1"]
    by (auto simp: NextSlotAfter_def isSlot_def split: if_splits)
next
  case (Some n)
  then have "nextSlotAtOrAfter zone schedule (current + 1) = Some n" by (auto simp: NextSlotAfter_def split: if_splits)
  from nextSlotAtOrAfter_Some [OF this] Some show ?thesis by (auto simp: isSlot_def)
qed

text \<open>
  C32: After a time of its Segment, the schedule's next Slot is the first time at which a Plan is due,
  and none is skipped: no Plan is due in the Segment in between.  When the schedule says there is
  no next Slot, no Plan is due in the Segment at any later time.
\<close>

theorem next_slot_is_first:
  assumes "0 < sg_Start (qg_Segment schedule)" "Contains (qg_Segment schedule) current"
  shows "case NextSlotAfter zone schedule current of
           Some n \<Rightarrow> current < n \<and> DuePlanRefs zone schedule n \<noteq> []
                      \<and> (\<forall>t. current < t \<and> t < n \<longrightarrow> DuePlanRefs zone schedule t = [])
         | None \<Rightarrow> \<forall>t. current < t \<and> t < maxInt64 \<longrightarrow> DuePlanRefs zone schedule t = []"
  using assms by (rule next_slot_first)

section \<open>A Segment outlives its Slots\<close>

lemma earliestDeadline_range:
  assumes "earliestDeadline zone slot reserve plans d = Inr deadline" "0 \<le> durationMillis reserve"
    and "d = 0 \<or> slot * 1000 < d \<and> d \<le> maxInt64" "0 \<le> slot"
  shows "deadline = 0 \<or> slot * 1000 < deadline \<and> deadline \<le> maxInt64"
  using assms
proof (induction zone slot reserve plans d rule: earliestDeadline.induct)
  case (2 zone slot reserve p ps d)
  have "completion \<le> maxInt64" if "CompletionDeadlineUnixMilli zone (ps_Spec p) slot = Some completion" for completion
    using that by (auto simp: CompletionDeadlineUnixMilli_def Let_def maxInt64_def sdiv_pos split: if_splits)
  with 2 show ?case by (auto simp: Let_def split: if_splits option.splits)
qed simp

text \<open>The end of a Slot's life grows with its deadline, as long as the milliseconds fit an \<open>int64\<close>.\<close>

lemma boundaries_exact:
  assumes "SlotRecoveryBoundaries deadline age delay = Inr (recovery, keep)"
    and "0 \<le> deadline" "deadline \<le> 2 ^ 62" "age \<le> maxInt64" "delay \<le> maxInt64"
  shows "recovery = deadline + age div 1000000" "keep = deadline + age div 1000000 + delay div 1000000"
proof -
  have pos: "0 < age" "0 < delay" using assms(1) by (auto simp: SlotRecoveryBoundaries_def split: if_splits)
  have small: "age div 1000000 \<le> 2 ^ 60" "delay div 1000000 \<le> 2 ^ 60" "0 \<le> age div 1000000" "0 \<le> delay div 1000000"
    using assms(4,5) pos by (auto simp: maxInt64_def)
  have split: "UnixMilli (timeUnixMilli m + a) = m + a div 1000000" for m a
    by (simp add: UnixMilli_def timeUnixMilli_def)
  have "i64 (deadline + age div 1000000) = deadline + age div 1000000"
    "i64 (deadline + age div 1000000 + delay div 1000000) = deadline + age div 1000000 + delay div 1000000"
    using assms(2,3) small by (auto simp: maxInt64_def intro!: i64_id)
  then show "recovery = deadline + age div 1000000" "keep = deadline + age div 1000000 + delay div 1000000"
    using assms(1) by (auto simp: SlotRecoveryBoundaries_def Let_def split split: if_splits)
qed

lemma segmentKeepLoop_covers:
  assumes "segmentKeepLoop zone schedule retention slot acc = Inr k" "0 < sg_Start (qg_Segment schedule)"
  shows "acc \<le> k \<and> (\<forall>s t. slot = Some s \<longrightarrow> Contains (qg_Segment schedule) s \<longrightarrow> isSlot zone schedule t \<longrightarrow> s \<le> t \<longrightarrow> t < maxInt64 \<longrightarrow>
           (\<exists>d r keep. SlotQueryDeadlineUnixMilli zone schedule t (sr_QueryReserve retention) = Inr d
              \<and> SlotRecoveryBoundaries (i64 (d + durationMillis (sr_ReadHoldBound retention)))
                   (sr_MaxReplayAge retention) (sr_TerminalDelay retention) = Inr (r, keep) \<and> keep \<le> k))"
  using assms
proof (induction zone schedule retention slot acc rule: segmentKeepLoop.induct)
  case (2 zone schedule retention s acc)
  obtain d r keep where closed: "sg_End (qg_Segment schedule) \<noteq> None"
    and d: "SlotQueryDeadlineUnixMilli zone schedule s (sr_QueryReserve retention) = Inr d"
    and keep: "SlotRecoveryBoundaries (i64 (d + durationMillis (sr_ReadHoldBound retention)))
                 (sr_MaxReplayAge retention) (sr_TerminalDelay retention) = Inr (r, keep)"
    and loop: "segmentKeepLoop zone schedule retention (NextSlotAfter zone schedule s)
                 (if keep > acc then keep else acc) = Inr k"
    using "2.prems"(1) by (auto split: if_splits sum.splits prod.splits)
  note IH = "2.IH" [OF closed d keep refl loop "2.prems"(2)]
  have bounds: "acc \<le> k" "keep \<le> k" using IH by (auto split: if_splits)
  have later: "\<exists>n. NextSlotAfter zone schedule s = Some n \<and> n \<le> t"
    if "isSlot zone schedule t" "s < t" "t < maxInt64" "Contains (qg_Segment schedule) s" for t
    using next_slot_first [OF "2.prems"(2) that(4), of zone] that(1-3)
    by (auto simp: isSlot_def not_less [symmetric] split: option.splits)
  show ?case
  proof (intro conjI allI impI bounds(1))
    fix s' t
    assume s': "Some s = Some s'" "Contains (qg_Segment schedule) s'"
      and t: "isSlot zone schedule t" "s' \<le> t" "t < maxInt64"
    show "\<exists>d r keep. SlotQueryDeadlineUnixMilli zone schedule t (sr_QueryReserve retention) = Inr d
            \<and> SlotRecoveryBoundaries (i64 (d + durationMillis (sr_ReadHoldBound retention)))
                 (sr_MaxReplayAge retention) (sr_TerminalDelay retention) = Inr (r, keep) \<and> keep \<le> k"
    proof (cases "t = s")
      case True
      then show ?thesis using d keep bounds(2) by auto
    next
      case False
      then obtain n where n: "NextSlotAfter zone schedule s = Some n" "n \<le> t" using later [of t] s' t by auto
      then show ?thesis using IH t NextSlotAfter_increases [OF n(1)] by blast
    qed
  qed
qed simp

text \<open>
  C33: The instant after which a closed Segment may be dropped is not before the end of the life of
  any of its Slots, whatever read hold within the bound the Slot was frozen with: no Segment is
  dropped under a Slot that is still going to run.
\<close>

theorem segment_outlives_its_slots:
  assumes "SegmentKeepUntilUnixMilli zone schedule retention = Inr k" "0 < sg_Start (qg_Segment schedule)"
    and "DuePlanRefs zone schedule t \<noteq> []" "t < maxInt64"
    and "SlotQueryDeadlineUnixMilli zone schedule t (sr_QueryReserve retention) = Inr d" "d \<le> 2 ^ 61"
    and "0 \<le> hold" "hold \<le> durationMillis (sr_ReadHoldBound retention)"
    and "SlotRecoveryBoundaries (d + hold) (sr_MaxReplayAge retention) (sr_TerminalDelay retention) = Inr (recovery, keep)"
    and "sr_MaxReplayAge retention \<le> maxInt64" "sr_TerminalDelay retention \<le> maxInt64"
  shows "keep \<le> k"
proof -
  have retention: "retentionValid retention"
    and loop: "segmentKeepLoop zone schedule retention (FirstSlot zone schedule) 0 = Inr k"
    using assms(1) by (auto simp: SegmentKeepUntilUnixMilli_def split: if_splits)
  have start: "sg_Start (qg_Segment schedule) \<le> t" and slot: "isSlot zone schedule t"
    using assms(3) by (auto simp: isSlot_def DuePlanRefs_def Contains_def split: if_splits)
  obtain s where s: "FirstSlot zone schedule = Some s"
    using nextSlotAtOrAfter_None [OF _ assms(2) start assms(4), of zone] slot by (auto simp: FirstSlot_def)
  note first = nextSlotAtOrAfter_Some [OF s [unfolded FirstSlot_def]]
  have "s \<le> t" using first(3) [OF start] slot by (auto simp: not_less [symmetric])
  moreover have "Contains (qg_Segment schedule) s" using first(2) by (simp add: isSlot_iff)
  ultimately obtain r' keep' where keep': "SlotRecoveryBoundaries (i64 (d + durationMillis (sr_ReadHoldBound retention)))
        (sr_MaxReplayAge retention) (sr_TerminalDelay retention) = Inr (r', keep')" "keep' \<le> k"
    using segmentKeepLoop_covers [OF loop assms(2)] s slot assms(4,5) by auto
  have bound: "durationMillis (sr_ReadHoldBound retention) \<le> 86400000" "0 \<le> durationMillis (sr_QueryReserve retention)"
    using retention by (auto simp: retentionValid_def durationMillis_def sdiv_pos)
  have "0 < t" using assms(2) start by simp
  then have "0 \<le> d"
    using assms(5) earliestDeadline_range [OF _ bound(2), of zone t "qg_Plans schedule" 0 d]
    by (auto simp: SlotQueryDeadlineUnixMilli_def split: if_splits sum.splits)
  then have "i64 (d + durationMillis (sr_ReadHoldBound retention)) = d + durationMillis (sr_ReadHoldBound retention)"
    using bound assms(6-8) by (intro i64_id) (auto simp: maxInt64_def)
  with keep'(1) have "keep' = d + durationMillis (sr_ReadHoldBound retention)
      + sr_MaxReplayAge retention div 1000000 + sr_TerminalDelay retention div 1000000"
    using boundaries_exact(2) [OF _ _ _ assms(10,11)] \<open>0 \<le> d\<close> assms(6-8) bound by simp
  moreover have "keep = d + hold + sr_MaxReplayAge retention div 1000000 + sr_TerminalDelay retention div 1000000"
    using boundaries_exact(2) [OF assms(9) _ _ assms(10,11)] \<open>0 \<le> d\<close> assms(6-8) bound by simp
  ultimately show ?thesis using keep'(2) assms(8) by simp
qed

section \<open>A concrete schedule\<close>

definition examplePlanEvery :: "string \<Rightarrow> int \<Rightarrow> FrozenPlanSchedule" where
  "examplePlanEvery strategy interval =
     \<lparr>ps_Identity = \<lparr>pi_TenantID = ''t'', pi_BusinessID = ''2'', pi_StrategyID = strategy\<rparr>, ps_ScheduleRevision = ''r'',
      ps_Spec = DeriveScheduleSpec interval, ps_Shard = None\<rparr>"

text \<open>Two Plans, of 60 and of 90 seconds, in a Segment of five minutes.\<close>

definition exampleSchedule :: FrozenQueryGroupSchedule where
  "exampleSchedule =
     \<lparr>qg_Segment = \<lparr>sg_SnapshotRevision = ''s'', sg_PublicationEpoch = 1, sg_QueryGroup = ''qg'', sg_QueryRevision = ''q'',
        sg_ScheduleRevision = ''p'', sg_Start = 60, sg_End = Some 360, sg_OutputContextRefs = [],
        sg_OutputContextRevisions = []\<rparr>,
      qg_Plans = [examplePlanEvery ''b'' 60, examplePlanEvery ''a'' 90]\<rparr>"

definition exampleRetention :: SlotRetention where
  "exampleRetention = \<lparr>sr_QueryReserve = 5 * nanosecondsPerSecond, sr_MaxReplayAge = 600 * nanosecondsPerSecond,
     sr_TerminalDelay = 60 * nanosecondsPerSecond, sr_ReadHoldBound = 10 * nanosecondsPerSecond\<rparr>"

lemma exampleSchedule_code:
  "NextSlotAfter (\<lambda>_. True) exampleSchedule 60 = Some 90"
  "SegmentKeepUntilUnixMilli (\<lambda>_. True) exampleSchedule exampleRetention = Inr 1025000"
  "SlotQueryDeadlineUnixMilli (\<lambda>_. True) exampleSchedule 180 (sr_QueryReserve exampleRetention) = Inr 235000"
  "SlotRecoveryBoundaries (235000 + 10000) (sr_MaxReplayAge exampleRetention) (sr_TerminalDelay exampleRetention)
     = Inr (845000, 905000)"
  by code_simp+

theorem next_slot_is_first_witness:
  "DuePlanRefs (\<lambda>_. True) exampleSchedule 75 = [] \<and> DuePlanRefs (\<lambda>_. True) exampleSchedule 90 \<noteq> []"
proof -
  have "0 < sg_Start (qg_Segment exampleSchedule)" "Contains (qg_Segment exampleSchedule) 60"
    by (simp_all add: exampleSchedule_def Contains_def)
  from next_slot_is_first [OF this, of "\<lambda>_. True"] show ?thesis by (simp add: exampleSchedule_code(1))
qed

theorem segment_outlives_its_slots_witness: "DuePlanRefs (\<lambda>_. True) exampleSchedule 180 \<noteq> [] \<and> (905000::int) \<le> 1025000"
proof -
  have due: "DuePlanRefs (\<lambda>_. True) exampleSchedule 180 \<noteq> []"
    unfolding isSlot_def [symmetric] isSlot_iff
    by (simp add: exampleSchedule_def Contains_def examplePlanEvery_def DeriveScheduleSpec_def IsAligned_iff specValid_def)
  have "0 < sg_Start (qg_Segment exampleSchedule)" "(180::int) < maxInt64" "(235000::int) \<le> 2 ^ 61" "(0::int) \<le> 10000"
    "10000 \<le> durationMillis (sr_ReadHoldBound exampleRetention)"
    "sr_MaxReplayAge exampleRetention \<le> maxInt64" "sr_TerminalDelay exampleRetention \<le> maxInt64"
    by (simp_all add: exampleSchedule_def maxInt64_def exampleRetention_def durationMillis_def sdiv_pos nanosecondsPerSecond_def)
  note small = this
  show ?thesis
    using due segment_outlives_its_slots [OF exampleSchedule_code(2) small(1) due small(2) exampleSchedule_code(3) small(3-5)
        exampleSchedule_code(4) small(6,7)] by simp
qed

end
