(* ===== verification/Recovery.thy ===== *)
theory Recovery
  imports Round Schedule
begin

text \<open>
  Which Slots that missed their deadline are replayed: the takeover clock
  (\<open>scheduler/takeover_clock.go\<close>) and the classification of a Slot (\<open>classifyRecovery\<close> and the
  walks it makes over the schedule, \<open>scheduler/slot_source.go\<close>).

  The schedule timeline is read through a catalog that is not part of this model: \<open>Catalog\<close> holds
  what its reads answer, \<^term>\<open>None\<close> for a read that fails.  The two walks of one classification
  read it one after the other and may see different answers.
\<close>

section \<open>The takeover clock\<close>

record takeover =
  to_epoch :: nat
  to_at :: int
  to_classified :: "string \<rightharpoonup> int"

type_synonym TakeoverClock = "string \<rightharpoonup> takeover"

text \<open>A nil clock is \<^term>\<open>None\<close>.\<close>

definition Anchor :: "TakeoverClock option \<Rightarrow> string \<Rightarrow> OwnerFence \<Rightarrow> int \<Rightarrow> int \<times> TakeoverClock option" where
  "Anchor clock queryGroup fence now =
     (case clock of
        None \<Rightarrow> (zeroTime, None)
      | Some owned \<Rightarrow>
          if of_OwnerEpoch fence = 0 then (zeroTime, Some owned)
          else
            (let took = (now, Some (owned(queryGroup \<mapsto>
                   \<lparr>to_epoch = of_OwnerEpoch fence, to_at = now, to_classified = Map.empty\<rparr>)))
             in case owned queryGroup of
                  None \<Rightarrow> took
                | Some prev \<Rightarrow>
                    if of_OwnerEpoch fence = to_epoch prev then (to_at prev, Some owned)
                    else if of_OwnerEpoch fence = u64 (to_epoch prev + 1)
                    then (to_at prev, Some (owned(queryGroup \<mapsto> prev\<lparr>to_epoch := of_OwnerEpoch fence\<rparr>)))
                    else took))"

definition FirstClassification ::
  "TakeoverClock option \<Rightarrow> string \<Rightarrow> int \<Rightarrow> string \<Rightarrow> bool \<times> TakeoverClock option" where
  "FirstClassification clock queryGroup evaluationTime outcome =
     (case clock of
        None \<Rightarrow> (True, None)
      | Some owned \<Rightarrow>
          (case owned queryGroup of
             None \<Rightarrow> (True, Some owned)
           | Some prev \<Rightarrow>
               if evaluationTime \<le> (case to_classified prev outcome of Some t \<Rightarrow> t | None \<Rightarrow> 0)
               then (False, Some owned)
               else (True, Some (owned(queryGroup \<mapsto>
                      prev\<lparr>to_classified := (to_classified prev)(outcome \<mapsto> evaluationTime)\<rparr>)))))"

section \<open>The walks over the schedule\<close>

datatype ClassifyError = CatalogReadFailed | ScheduleFactsInvalid | SlotContractDrift

record Catalog =
  ct_retirement :: "int option option"
  ct_next :: "int \<Rightarrow> int option"

text \<open>
  The loop of \<open>replayDistance\<close>: the grid points passed, one more than the limit at most, and when
  the next one is passed.
\<close>

function distanceLoop ::
  "(int \<Rightarrow> int option) \<Rightarrow> int option \<Rightarrow> nat \<Rightarrow> int \<Rightarrow> int \<Rightarrow> nat \<Rightarrow> int \<Rightarrow> ClassifyError + nat \<times> int" where
  "distanceLoop nextOf retiredAt limit hold shifted distance cursor =
     (if \<not> distance \<le> limit then Inr (distance, 0)
      else
        (case nextOf cursor of
           None \<Rightarrow> Inl CatalogReadFailed
         | Some next \<Rightarrow>
             if next \<le> cursor then Inl ScheduleFactsInvalid
             else if retiredAt = Some next then Inr (distance, 0)
             else if next > shifted then Inr (distance, i64 (i64 (next * 1000) + hold))
             else distanceLoop nextOf retiredAt limit hold shifted (u32 (distance + 1)) next))"
  by pat_completeness auto
termination
  by (relation "measure (\<lambda>(_, _, _, _, shifted, _, cursor). nat (shifted - cursor))") auto

declare distanceLoop.simps [simp del]

definition shiftedSecond :: "int \<Rightarrow> int \<Rightarrow> int" where
  "shiftedSecond at hold = (at + i64 (- i64 (hold * 1000000))) div nanosecondsPerSecond"

definition replayDistance :: "Catalog \<Rightarrow> RecoveryLimits \<Rightarrow> int \<Rightarrow> int \<Rightarrow> int \<Rightarrow> ClassifyError + nat \<times> int" where
  "replayDistance catalog limits first hold at =
     (case ct_retirement catalog of
        None \<Rightarrow> Inl CatalogReadFailed
      | Some retiredAt \<Rightarrow>
          distanceLoop (ct_next catalog) retiredAt (rl_MaxReplaySlots limits) hold (shiftedSecond at hold) 1 first)"

fun boundaryLoop :: "(int \<Rightarrow> int option) \<Rightarrow> int option \<Rightarrow> nat \<Rightarrow> int \<Rightarrow> ClassifyError + int option" where
  "boundaryLoop nextOf retiredAt 0 cursor = Inr (Some cursor)"
| "boundaryLoop nextOf retiredAt (Suc steps) cursor =
     (case nextOf cursor of
        None \<Rightarrow> Inl CatalogReadFailed
      | Some next \<Rightarrow>
          if next \<le> cursor then Inl ScheduleFactsInvalid
          else if retiredAt = Some next then Inr None
          else boundaryLoop nextOf retiredAt steps next)"

definition replayDistanceBoundary :: "Catalog \<Rightarrow> RecoveryLimits \<Rightarrow> int \<Rightarrow> ClassifyError + int option" where
  "replayDistanceBoundary catalog limits first =
     (case ct_retirement catalog of
        None \<Rightarrow> Inl CatalogReadFailed
      | Some retiredAt \<Rightarrow> boundaryLoop (ct_next catalog) retiredAt (rl_MaxReplaySlots limits) first)"

definition replayWaitOutlastsDistance ::
  "Catalog \<Rightarrow> RecoveryLimits \<Rightarrow> int \<Rightarrow> int \<Rightarrow> int \<Rightarrow> int \<Rightarrow> SlotRecoveryFacts \<Rightarrow> ClassifyError + bool \<times> SlotRecoveryFacts" where
  "replayWaitOutlastsDistance catalog limits settlingWait evaluationTime deadline hold facts =
     (if settlingWait \<le> 0 then Inr (False, facts)
      else
        (let queryBudget = i64 (i64 (i64 (deadline - i64 (evaluationTime * 1000)) - hold) * 1000000);
             readyAt = i64 (i64 (UnixMilli (evaluationTime * nanosecondsPerSecond
                         + SettlingWaitWithinQueryBudget queryBudget settlingWait)) + hold)
         in if rf_Distance facts \<le> rl_MaxReplaySlots limits
               \<and> (rf_RecheckAtUnixMilli facts = 0 \<or> readyAt < rf_RecheckAtUnixMilli facts)
            then Inr (False, facts)
            else
              (case replayDistanceBoundary catalog limits evaluationTime of
                 Inl e \<Rightarrow> Inl e
               | Inr None \<Rightarrow> Inr (False, facts)
               | Inr (Some boundary) \<Rightarrow>
                   (let boundaryMilli = i64 (i64 (boundary * 1000) + hold)
                    in if readyAt < boundaryMilli then Inr (False, facts)
                       else Inr (True, facts\<lparr>rf_Disposition := ReplayExpired, rf_Reason := ''REPLAY_WAIT_EXCEEDS_DISTANCE'',
                                             rf_ReadyAtUnixMilli := readyAt,
                                             rf_DistanceBoundaryUnixMilli := boundaryMilli\<rparr>)))))"

section \<open>The classification\<close>

datatype RecoveryObservation =
    ReplayExpiryObserved int SlotRecoveryFacts
  | ReplayTakeoverObserved int string int int

record SlotSourceState =
  sl_takeovers :: "TakeoverClock option"
  sl_observed :: "RecoveryObservation list"

record SlotSourceConfig =
  sc_queryGroup :: string
  sc_recovery :: "RecoveryLimits option"
  sc_settlingWait :: int
  sc_observer :: bool

definition zeroRecoveryFacts :: SlotRecoveryFacts where
  "zeroRecoveryFacts = \<lparr>rf_RecheckAtUnixMilli = 0, rf_Disposition = ReplayUnset, rf_Reason = [], rf_Distance = 0,
     rf_Age = 0, rf_ReadyAtUnixMilli = 0, rf_DistanceBoundaryUnixMilli = 0\<rparr>"

definition observeReplayExpiry :: "SlotSourceConfig \<Rightarrow> int \<Rightarrow> SlotRecoveryFacts \<Rightarrow> SlotSourceState \<Rightarrow> SlotSourceState" where
  "observeReplayExpiry config evaluationTime facts st =
     (if \<not> sc_observer config then st
      else st\<lparr>sl_observed := sl_observed st @ [ReplayExpiryObserved evaluationTime facts]\<rparr>)"

definition observeReplayTakeover ::
  "SlotSourceConfig \<Rightarrow> int \<Rightarrow> string \<Rightarrow> int \<Rightarrow> int \<Rightarrow> SlotSourceState \<Rightarrow> SlotSourceState" where
  "observeReplayTakeover config evaluationTime outcome age sinceTakeover st =
     (if \<not> sc_observer config then st
      else
        (let (first, clock) = FirstClassification (sl_takeovers st) (sc_queryGroup config) evaluationTime outcome
         in if \<not> first then st\<lparr>sl_takeovers := clock\<rparr>
            else st\<lparr>sl_takeovers := clock,
                    sl_observed := sl_observed st @ [ReplayTakeoverObserved evaluationTime outcome age sinceTakeover]\<rparr>))"

definition ReplayTakeoverReplayed :: string where "ReplayTakeoverReplayed = ''replayed''"
definition ReplayTakeoverAgeExceeded :: string where "ReplayTakeoverAgeExceeded = ''age_exceeded''"

text \<open>The end of \<open>classifyRecovery\<close>: a Slot its own owner fell behind on.\<close>

definition classifyOwnSlot ::
  "SlotSourceConfig \<Rightarrow> RecoveryLimits \<Rightarrow> Catalog \<Rightarrow> int \<Rightarrow> int \<Rightarrow> int \<Rightarrow> SlotRecoveryFacts \<Rightarrow> SlotSourceState
     \<Rightarrow> (ClassifyError + Operation \<times> SlotRecoveryFacts) \<times> SlotSourceState" where
  "classifyOwnSlot config limits catalog evaluationTime deadline hold facts st =
     (case replayWaitOutlastsDistance catalog limits (sc_settlingWait config) evaluationTime deadline hold facts of
        Inl e \<Rightarrow> (Inl e, st)
      | Inr (True, waited) \<Rightarrow> (Inr (OperationNormal, waited), observeReplayExpiry config evaluationTime waited st)
      | Inr (False, _) \<Rightarrow>
          if rf_Distance facts > rl_MaxReplaySlots limits
          then
            (let far = facts\<lparr>rf_Disposition := ReplayExpired, rf_Reason := ''REPLAY_DISTANCE_EXCEEDED''\<rparr>
             in (Inr (OperationNormal, far), observeReplayExpiry config evaluationTime far st))
          else (Inr (OperationReplay, facts), st))"

definition classifyRecovery ::
  "SlotSourceConfig \<Rightarrow> Catalog \<Rightarrow> Catalog \<Rightarrow> bool \<Rightarrow> int \<Rightarrow> int \<Rightarrow> int \<Rightarrow> int \<Rightarrow> OwnerFence \<Rightarrow> SlotSourceState
     \<Rightarrow> (ClassifyError + Operation \<times> SlotRecoveryFacts) \<times> SlotSourceState" where
  "classifyRecovery config catalog catalog' cooldownHeld evaluationTime deadline hold at fence st =
     (case sc_recovery config of
        None \<Rightarrow> (Inr (OperationNormal, zeroRecoveryFacts), st)
      | Some limits \<Rightarrow>
          if deadline \<le> 0 then (Inl SlotContractDrift, st)
          else if UnixMilli at < deadline
          then (Inr (OperationNormal,
                  zeroRecoveryFacts\<lparr>rf_Disposition := ReplayLive, rf_RecheckAtUnixMilli := deadline\<rparr>), st)
          else
            (let age = timeSub at (timeUnixMilli deadline);
                 (takenOver, clock) = Anchor (sl_takeovers st) (sc_queryGroup config) fence at;
                 anchored = st\<lparr>sl_takeovers := clock\<rparr>;
                 beforeTakeover = takenOver \<noteq> zeroTime \<and> evaluationTime * nanosecondsPerSecond < takenOver \<and> \<not> cooldownHeld
             in if age \<ge> rl_MaxReplayAge limits
                then
                  (let aged = zeroRecoveryFacts\<lparr>rf_Disposition := ReplayExpired, rf_Reason := ''REPLAY_AGE_EXCEEDED'',
                                                rf_Distance := 1, rf_Age := age\<rparr>;
                       told = observeReplayExpiry config evaluationTime aged anchored
                   in (Inr (OperationNormal, aged),
                       if beforeTakeover
                       then observeReplayTakeover config evaluationTime ReplayTakeoverAgeExceeded age (timeSub at takenOver) told
                       else told))
                else
                  (case replayDistance catalog limits evaluationTime hold at of
                     Inl e \<Rightarrow> (Inl e, anchored)
                   | Inr (distance, recheckAt) \<Rightarrow>
                       (let facts = zeroRecoveryFacts\<lparr>rf_Disposition := ReplayEligible, rf_Distance := distance,
                                                      rf_Age := age, rf_RecheckAtUnixMilli := recheckAt\<rparr>
                        in if beforeTakeover
                           then (Inr (OperationReplay, facts),
                                 observeReplayTakeover config evaluationTime ReplayTakeoverReplayed age
                                   (timeSub at takenOver) anchored)
                           else classifyOwnSlot config limits catalog' evaluationTime deadline hold facts anchored))))"

end
