(* ===== verification/Recovery_Props.thy ===== *)
theory Recovery_Props
  imports Recovery Round_Props
begin

text \<open>
  Properties of the classification of a Slot that missed its deadline: its facts pass the checks
  of the frozen Slot, a Slot is given up on for a cause it names, the distance and its boundary
  are two readings of one walk, and a Slot of before a takeover is reported once.
\<close>

section \<open>The distance\<close>

lemma distanceLoop_range:
  "distanceLoop nextOf retiredAt limit hold shifted d cursor = Inr (n, recheck) \<Longrightarrow>
    limit < maxUint32 \<Longrightarrow> 0 < d \<Longrightarrow> d \<le> limit + 1 \<Longrightarrow> d \<le> n \<and> n \<le> limit + 1"
proof (induction nextOf retiredAt limit hold shifted d cursor rule: distanceLoop.induct)
  case (1 nextOf retiredAt limit hold shifted d cursor)
  have no_wrap: "u32 (d + 1) = d + 1" if "d \<le> limit" using that "1.prems"(2) by (intro u32_id) simp
  from "1.prems"(1) show ?case
    using 1 no_wrap by (subst (asm) distanceLoop.simps) (fastforce split: if_splits option.splits)
qed

lemma boundaryLoop_ge: "boundaryLoop nextOf retiredAt steps cursor = Inr (Some t) \<Longrightarrow> cursor \<le> t"
  by (induction nextOf retiredAt steps cursor rule: boundaryLoop.induct) (fastforce split: option.splits if_splits)+

lemma distance_boundary_loop:
  "distanceLoop nextOf retiredAt limit hold shifted d cursor = Inr (n, recheck) \<Longrightarrow>
   boundaryLoop nextOf retiredAt (limit + 1 - d) cursor = Inr b \<Longrightarrow>
   limit < maxUint32 \<Longrightarrow> 0 < d \<Longrightarrow> d \<le> limit + 1 \<Longrightarrow> d \<le> limit \<or> cursor \<le> shifted \<Longrightarrow>
   limit < n \<longleftrightarrow> (\<exists>t. b = Some t \<and> t \<le> shifted)"
proof (induction nextOf retiredAt limit hold shifted d cursor rule: distanceLoop.induct)
  case (1 nextOf retiredAt limit hold shifted d cursor)
  have no_wrap: "u32 (d + 1) = d + 1" if "d \<le> limit" using that "1.prems"(3) by (intro u32_id) simp
  show ?case
  proof (cases "d \<le> limit")
    case False
    have "n = d" using "1.prems"(1) False by (subst (asm) distanceLoop.simps) auto
    moreover have "b = Some cursor" using "1.prems"(2,5) False by simp
    ultimately show ?thesis using "1.prems"(6) False by simp
  next
    case True
    then have steps: "limit + 1 - d = Suc (limit + 1 - (d + 1))" by simp
    obtain nxt where nxt: "nextOf cursor = Some nxt" "\<not> nxt \<le> cursor"
      using "1.prems"(1) True by (subst (asm) distanceLoop.simps) (auto split: option.splits if_splits)
    have b: "if retiredAt = Some nxt then b = None else boundaryLoop nextOf retiredAt (limit + 1 - (d + 1)) nxt = Inr b"
      using "1.prems"(2) nxt unfolding steps by (auto split: if_splits)
    consider "retiredAt = Some nxt" | "retiredAt \<noteq> Some nxt" "nxt > shifted" | "retiredAt \<noteq> Some nxt" "nxt \<le> shifted" by linarith
    then show ?thesis
    proof cases
      case 1
      then show ?thesis using "1.prems"(1) True nxt b by (subst (asm) distanceLoop.simps) auto
    next
      case 2
      then have "n = d" using "1.prems"(1) True nxt by (subst (asm) distanceLoop.simps) auto
      then show ?thesis using True 2 b boundaryLoop_ge by fastforce
    next
      case 3
      then have "distanceLoop nextOf retiredAt limit hold shifted (d + 1) nxt = Inr (n, recheck)"
        using "1.prems"(1) True nxt no_wrap by (subst (asm) distanceLoop.simps) auto
      then show ?thesis
        using "1.IH" [of nxt] True nxt 3 b "1.prems"(3) no_wrap by simp
    qed
  qed
qed
text \<open>
  The boundary of the replay distance is exactly where the distance passes the limit: read on
  the same schedule, a Slot is more than the largest number of Slots behind if and only if the
  boundary exists (the Query Group does not retire before it) and has been passed.
\<close>

theorem boundary_is_distance_limit:
  assumes "replayDistance catalog limits first hold at = Inr (distance, recheckAt)"
    and "replayDistanceBoundary catalog limits first = Inr boundary"
    and "0 < rl_MaxReplaySlots limits" "rl_MaxReplaySlots limits < maxUint32"
  shows "rl_MaxReplaySlots limits < distance \<longleftrightarrow> (\<exists>t. boundary = Some t \<and> t \<le> shiftedSecond at hold)"
  using assms distance_boundary_loop [of "ct_next catalog" _ "rl_MaxReplaySlots limits" hold "shiftedSecond at hold" 1 first]
  by (auto simp: replayDistance_def replayDistanceBoundary_def split: option.splits)

section \<open>The classification\<close>

lemma replayDistance_range:
  assumes "replayDistance catalog limits first hold at = Inr (distance, recheckAt)" "rl_MaxReplaySlots limits < maxUint32"
  shows "0 < distance \<and> distance \<le> rl_MaxReplaySlots limits + 1"
proof -
  obtain retiredAt where "distanceLoop (ct_next catalog) retiredAt (rl_MaxReplaySlots limits) hold
      (shiftedSecond at hold) 1 first = Inr (distance, recheckAt)"
    using assms(1) by (auto simp: replayDistance_def split: option.splits)
  from distanceLoop_range [OF this assms(2)] show ?thesis by simp
qed

lemma age_nonnegative: "\<not> UnixMilli at < deadline \<Longrightarrow> 0 \<le> timeSub at (timeUnixMilli deadline)"
proof -
  assume "\<not> UnixMilli at < deadline"
  then have "deadline * 1000000 \<le> (at div 1000000) * 1000000" by (intro mult_right_mono) (auto simp: UnixMilli_def)
  also have "\<dots> \<le> at" by simp
  finally show ?thesis by (simp add: timeSub_def timeUnixMilli_def maxInt64_def)
qed

lemma wait_facts:
  assumes "replayWaitOutlastsDistance catalog limits wait t deadline hold facts = Inr (expired, facts')"
  shows "expired \<Longrightarrow> rf_Disposition facts' = ReplayExpired \<and> rf_Reason facts' = ''REPLAY_WAIT_EXCEEDS_DISTANCE''
           \<and> rf_Distance facts' = rf_Distance facts \<and> rf_Age facts' = rf_Age facts
           \<and> rf_DistanceBoundaryUnixMilli facts' \<le> rf_ReadyAtUnixMilli facts'"
    and "\<not> expired \<Longrightarrow> facts' = facts"
  using assms
  by (auto simp: replayWaitOutlastsDistance_def Let_def split: if_splits sum.splits option.splits)

lemma classifyOwnSlot_valid:
  assumes "classifyOwnSlot config limits catalog t deadline hold facts st = (Inr (operation, facts'), st')"
    and "rf_Disposition facts = ReplayEligible" "rf_Reason facts = []" "0 < rf_Distance facts" "0 \<le> rf_Age facts"
  shows "recoveryFactsValid facts' operation"
  using assms wait_facts [of catalog limits "sc_settlingWait config" t deadline hold facts]
  by (auto simp: classifyOwnSlot_def recoveryFactsValid_def ReplayExpiryReasons_def Let_def
      split: sum.splits prod.splits bool.splits if_splits)

lemma classifyOwnSlot_expired:
  assumes "classifyOwnSlot config limits catalog t deadline hold facts st = (Inr (operation, facts'), st')"
    and "rf_Disposition facts = ReplayEligible" "rf_Disposition facts' = ReplayExpired"
  shows "operation = OperationNormal \<and> rf_Age facts' = rf_Age facts
    \<and> (rf_Reason facts' = ''REPLAY_DISTANCE_EXCEEDED'' \<and> rl_MaxReplaySlots limits < rf_Distance facts'
       \<or> rf_Reason facts' = ''REPLAY_WAIT_EXCEEDS_DISTANCE''
         \<and> rf_DistanceBoundaryUnixMilli facts' \<le> rf_ReadyAtUnixMilli facts')"
proof -
  obtain waitOut waited where
    wait: "replayWaitOutlastsDistance catalog limits (sc_settlingWait config) t deadline hold facts = Inr (waitOut, waited)"
    using assms(1) by (auto simp: classifyOwnSlot_def split: sum.splits)
  show ?thesis
  proof (cases waitOut)
    case True
    then show ?thesis using assms(1) wait wait_facts(1) [OF wait] by (simp add: classifyOwnSlot_def)
  next
    case False
    then show ?thesis using assms wait by (simp add: classifyOwnSlot_def Let_def split: if_splits) force
  qed
qed

definition eligibleFacts :: "nat \<Rightarrow> int \<Rightarrow> int \<Rightarrow> SlotRecoveryFacts" where
  "eligibleFacts distance age recheckAt = zeroRecoveryFacts\<lparr>rf_Disposition := ReplayEligible, rf_Distance := distance,
     rf_Age := age, rf_RecheckAtUnixMilli := recheckAt\<rparr>"

text \<open>A Slot inherited from before the takeover the clock answers, that the cooldown pool did not hold.\<close>

definition inheritedSlot :: "SlotSourceConfig \<Rightarrow> bool \<Rightarrow> int \<Rightarrow> OwnerFence \<Rightarrow> int \<Rightarrow> SlotSourceState \<Rightarrow> bool" where
  "inheritedSlot config held t fence at st =
     (let takenOver = fst (Anchor (sl_takeovers st) (sc_queryGroup config) fence at)
      in takenOver \<noteq> zeroTime \<and> t * nanosecondsPerSecond < takenOver \<and> \<not> held)"

lemma classifyRecovery_cases [consumes 1, case_names unlimited live aged inherited own]:
  assumes "classifyRecovery config catalog catalog' held t deadline hold at fence st = (Inr (operation, facts), st')"
  obtains "sc_recovery config = None" "operation = OperationNormal" "facts = zeroRecoveryFacts"
  | limits where "sc_recovery config = Some limits" "0 < deadline" "UnixMilli at < deadline" "operation = OperationNormal"
      "facts = zeroRecoveryFacts\<lparr>rf_Disposition := ReplayLive, rf_RecheckAtUnixMilli := deadline\<rparr>"
  | limits where "sc_recovery config = Some limits" "\<not> UnixMilli at < deadline"
      "rl_MaxReplayAge limits \<le> timeSub at (timeUnixMilli deadline)" "operation = OperationNormal"
      "facts = zeroRecoveryFacts\<lparr>rf_Disposition := ReplayExpired, rf_Reason := ''REPLAY_AGE_EXCEEDED'',
         rf_Distance := 1, rf_Age := timeSub at (timeUnixMilli deadline)\<rparr>"
  | limits distance recheckAt where "sc_recovery config = Some limits" "\<not> UnixMilli at < deadline"
      "timeSub at (timeUnixMilli deadline) < rl_MaxReplayAge limits"
      "replayDistance catalog limits t hold at = Inr (distance, recheckAt)" "inheritedSlot config held t fence at st"
      "operation = OperationReplay" "facts = eligibleFacts distance (timeSub at (timeUnixMilli deadline)) recheckAt"
  | limits distance recheckAt anchored where "sc_recovery config = Some limits" "\<not> UnixMilli at < deadline"
      "timeSub at (timeUnixMilli deadline) < rl_MaxReplayAge limits"
      "replayDistance catalog limits t hold at = Inr (distance, recheckAt)" "\<not> inheritedSlot config held t fence at st"
      "classifyOwnSlot config limits catalog' t deadline hold
         (eligibleFacts distance (timeSub at (timeUnixMilli deadline)) recheckAt) anchored = (Inr (operation, facts), st')"
proof (cases "sc_recovery config")
  case None
  then show ?thesis using assms by (intro that(1)) (auto simp: classifyRecovery_def)
next
  case (Some limits)
  obtain takenOver clock where anchor: "Anchor (sl_takeovers st) (sc_queryGroup config) fence at = (takenOver, clock)"
    by fastforce
  have known: "0 < deadline" using assms by (auto simp: classifyRecovery_def Some split: if_splits)
  show ?thesis
  proof (cases "UnixMilli at < deadline")
    case True
    then show ?thesis using assms known by (intro that(2) [OF Some]) (auto simp: classifyRecovery_def Some)
  next
    case late: False
    show ?thesis
    proof (cases "rl_MaxReplayAge limits \<le> timeSub at (timeUnixMilli deadline)")
      case True
      then show ?thesis
        using assms known late by (intro that(3) [OF Some]) (auto simp: classifyRecovery_def Some anchor Let_def split: if_splits)
    next
      case young: False
      obtain distance recheckAt where walk: "replayDistance catalog limits t hold at = Inr (distance, recheckAt)"
        using assms known late young by (auto simp: classifyRecovery_def Some anchor Let_def split: sum.splits if_splits)
      show ?thesis
      proof (cases "inheritedSlot config held t fence at st")
        case True
        then show ?thesis
          using assms known late young walk
          by (intro that(4) [OF Some]) (auto simp: classifyRecovery_def Some anchor Let_def inheritedSlot_def eligibleFacts_def)
      next
        case False
        then show ?thesis
          using assms known late young walk
          by (intro that(5) [OF Some, where anchored = "st\<lparr>sl_takeovers := clock\<rparr>"])
             (auto simp: classifyRecovery_def Some anchor Let_def inheritedSlot_def eligibleFacts_def split: if_splits)
      qed
    qed
  qed
qed

text \<open>
  C34: Whatever a Slot is classified as, its operation and its recovery facts are ones the frozen
  Slot's own check accepts: a live Slot runs normally and carries neither distance nor age, a
  replay has a distance and an age, and a Slot given up on runs normally and names its reason.
\<close>

theorem classification_well_formed:
  assumes "classifyRecovery config catalog catalog' held t deadline hold at fence st = (Inr (operation, facts), st')"
    and "\<And>limits. sc_recovery config = Some limits \<Longrightarrow> rl_MaxReplaySlots limits < maxUint32"
  shows "recoveryFactsValid facts operation"
  using assms(1)
proof (cases rule: classifyRecovery_cases)
  case (own limits distance recheckAt anchored)
  then show ?thesis
    using replayDistance_range [OF own(4) assms(2) [OF own(1)]] age_nonnegative [OF own(2)]
    by (intro classifyOwnSlot_valid [OF own(6)]) (simp_all add: eligibleFacts_def zeroRecoveryFacts_def)
next
  case (inherited limits distance recheckAt)
  then show ?thesis
    using replayDistance_range [OF inherited(4) assms(2) [OF inherited(1)]] age_nonnegative [OF inherited(2)]
    by (simp add: recoveryFactsValid_def eligibleFacts_def zeroRecoveryFacts_def)
qed (auto simp: recoveryFactsValid_def zeroRecoveryFacts_def ReplayExpiryReasons_def dest: age_nonnegative)


section \<open>Takeovers\<close>

text \<open>The Slots reported as inherited with an outcome, in the order of the reports.\<close>

fun reportedTimes :: "string \<Rightarrow> RecoveryObservation list \<Rightarrow> int list" where
  "reportedTimes outcome [] = []"
| "reportedTimes outcome (ReplayTakeoverObserved t told age since # observed) =
     (if told = outcome then [t] else []) @ reportedTimes outcome observed"
| "reportedTimes outcome (ReplayExpiryObserved t facts # observed) = reportedTimes outcome observed"

lemma reportedTimes_append [simp]: "reportedTimes outcome (xs @ ys) = reportedTimes outcome xs @ reportedTimes outcome ys"
  by (induction outcome xs rule: reportedTimes.induct) auto

text \<open>The epoch of a fence that continues the ownership the clock knows: the same one or its successor.\<close>

definition ownershipContinues :: "TakeoverClock option \<Rightarrow> string \<Rightarrow> OwnerFence \<Rightarrow> bool" where
  "ownershipContinues clock queryGroup fence =
     (case clock of
        None \<Rightarrow> True
      | Some owned \<Rightarrow> (case owned queryGroup of
          None \<Rightarrow> True
        | Some prev \<Rightarrow> of_OwnerEpoch fence \<in> {0, to_epoch prev, u64 (to_epoch prev + 1)}))"

text \<open>
  What the source of one Query Group does while its ownership continues: it classifies Slots,
  whatever the answers are, and the sources of other Query Groups move the clock they share.
\<close>

inductive ownedRun :: "SlotSourceConfig \<Rightarrow> SlotSourceState \<Rightarrow> SlotSourceState \<Rightarrow> bool" for config st where
  start: "ownedRun config st st"
| classified: "ownedRun config st s \<Longrightarrow> ownershipContinues (sl_takeovers s) (sc_queryGroup config) fence \<Longrightarrow>
    classifyRecovery config catalog catalog' held t deadline hold at fence s = (answer, s') \<Longrightarrow> ownedRun config st s'"
| elsewhere: "ownedRun config st s \<Longrightarrow> sl_takeovers s = Some owned \<Longrightarrow>
    owned' (sc_queryGroup config) = owned (sc_queryGroup config) \<Longrightarrow> ownedRun config st (s\<lparr>sl_takeovers := Some owned'\<rparr>)"

definition reports_ok :: "SlotSourceConfig \<Rightarrow> string \<Rightarrow> SlotSourceState \<Rightarrow> bool" where
  "reports_ok config outcome s \<longleftrightarrow>
     sorted_wrt (<) (reportedTimes outcome (sl_observed s))
     \<and> (\<exists>owned. sl_takeovers s = Some owned
        \<and> (\<forall>t \<in> set (reportedTimes outcome (sl_observed s)).
             \<exists>prev latest. owned (sc_queryGroup config) = Some prev \<and> to_classified prev outcome = Some latest \<and> t \<le> latest))"

lemma reports_ok_expiry [simp]: "reports_ok config outcome (observeReplayExpiry config t facts s) = reports_ok config outcome s"
  by (simp add: observeReplayExpiry_def reports_ok_def)

lemma reports_ok_anchor:
  assumes "reports_ok config outcome s" "ownershipContinues (sl_takeovers s) (sc_queryGroup config) fence"
    and "Anchor (sl_takeovers s) (sc_queryGroup config) fence at = (takenOver, clock)"
  shows "reports_ok config outcome (s\<lparr>sl_takeovers := clock\<rparr>)
    \<and> (takenOver \<noteq> zeroTime \<longrightarrow> (\<exists>owned prev. clock = Some owned \<and> owned (sc_queryGroup config) = Some prev))"
proof -
  obtain owned where owned: "sl_takeovers s = Some owned" using assms(1) by (auto simp: reports_ok_def)
  show ?thesis
  proof (cases "owned (sc_queryGroup config)")
    case None
    then have "reportedTimes outcome (sl_observed s) = []"
      using assms(1) owned by (cases "reportedTimes outcome (sl_observed s)") (auto simp: reports_ok_def)
    then show ?thesis
      using assms(3) None by (auto simp: reports_ok_def owned Anchor_def Let_def split: if_splits)
  next
    case (Some prev)
    then show ?thesis
      using assms by (auto simp: reports_ok_def owned ownershipContinues_def Anchor_def Let_def split: if_splits)
  qed
qed

lemma reports_ok_takeover:
  assumes "reports_ok config outcome s" "sl_takeovers s = Some owned" "owned (sc_queryGroup config) = Some prev"
  shows "reports_ok config outcome (observeReplayTakeover config t told age since s)"
  using assms
  by (auto simp: reports_ok_def observeReplayTakeover_def FirstClassification_def Let_def sorted_wrt_append
      split: option.splits if_splits; force)

lemma reports_ok_own:
  assumes "classifyOwnSlot config limits catalog t deadline hold facts s = (answer, s')"
  shows "reports_ok config outcome s' = reports_ok config outcome s"
  using assms by (auto simp: classifyOwnSlot_def Let_def split: sum.splits prod.splits bool.splits if_splits)

lemma reports_ok_classify:
  assumes ok: "reports_ok config outcome s" and cont: "ownershipContinues (sl_takeovers s) (sc_queryGroup config) fence"
    and call: "classifyRecovery config catalog catalog' held t deadline hold at fence s = (answer, s')"
  shows "reports_ok config outcome s'"
proof -
  obtain takenOver clock where anchor: "Anchor (sl_takeovers s) (sc_queryGroup config) fence at = (takenOver, clock)"
    by fastforce
  note anchored = reports_ok_anchor [OF ok cont anchor, THEN conjunct1] reports_ok_anchor [OF ok cont anchor, THEN conjunct2, rule_format]
  have told: "reports_ok config outcome (observeReplayTakeover config t' told age since s'')"
    if "reports_ok config outcome s''" "sl_takeovers s'' = clock" "takenOver \<noteq> zeroTime" for t' told age since s''
    using reports_ok_takeover [OF that(1)] anchored(2) [OF that(3)] that(2) by auto
  have expiry: "sl_takeovers (observeReplayExpiry config t' facts s'') = sl_takeovers s''" for t' facts s''
    by (simp add: observeReplayExpiry_def)
  show ?thesis
    using call ok anchored(1)
    by (auto simp: classifyRecovery_def anchor Let_def reports_ok_own expiry intro!: told
        split: option.splits if_splits sum.splits)
qed

text \<open>
  C36: A takeover is reported once for each Slot it inherited: for as long as the ownership of the
  Query Group continues, through renewed epochs, failed classifications and the calls of other
  Query Groups on the shared clock, the Slots reported with one outcome have strictly increasing
  evaluation times, so that a Slot which is classified again is not reported again.
\<close>

theorem takeover_counted_once:
  assumes "ownedRun config st s" and "sl_takeovers st = Some owned" and "sl_observed st = []"
  shows "sorted_wrt (<) (reportedTimes outcome (sl_observed s))"
proof -
  have "reports_ok config outcome s"
    using assms(1)
  proof (induction rule: ownedRun.induct)
    case start
    show ?case using assms(2,3) by (simp add: reports_ok_def)
  next
    case (classified s fence)
    then show ?case by (blast intro: reports_ok_classify)
  next
    case (elsewhere s owned owned')
    then show ?case by (auto simp: reports_ok_def)
  qed
  then show ?thesis by (simp add: reports_ok_def)
qed

section \<open>An example\<close>

text \<open>
  A Query Group due every minute, of which at most two Slots and at most an hour may be replayed;
  its Slot of second 60 is classified at second 200 by an owner that took over at second 150.
\<close>

definition minuteCatalog :: Catalog where
  "minuteCatalog = \<lparr>ct_retirement = Some None, ct_next = (\<lambda>cursor. Some (cursor + 60))\<rparr>"

definition twoSlotLimits :: RecoveryLimits where
  "twoSlotLimits = \<lparr>rl_ProcessQueryPermits = 8, rl_RecoveryQueryPermits = 2, rl_ReadyQueueCapacity = 100,
     rl_RecoveryQueueCapacity = 10, rl_MaxQueuedItemsPerQG = 4, rl_MaxReplaySlots = 2,
     rl_MaxReplayAge = 3600000000000, rl_RetryMinDelay = 1000000000, rl_RetryMaxDelay = 60000000000\<rparr>"

definition minuteConfig :: SlotSourceConfig where
  "minuteConfig = \<lparr>sc_queryGroup = ''qg'', sc_recovery = Some twoSlotLimits, sc_settlingWait = 0, sc_observer = True\<rparr>"

definition takenOverFence :: OwnerFence where
  "takenOverFence = \<lparr>of_QueryGroup = ''qg'', of_OwnerID = ''o'', of_OwnerEpoch = 3, of_LeaseToken = ''t''\<rparr>"

definition takenOverState :: SlotSourceState where
  "takenOverState = \<lparr>sl_takeovers = Some [''qg'' \<mapsto> \<lparr>to_epoch = 3, to_at = 150000000000, to_classified = Map.empty\<rparr>],
     sl_observed = []\<rparr>"

lemma exampleWalks:
  "replayDistance minuteCatalog twoSlotLimits 60 0 200000000000 = Inr (3, 0)"
  "replayDistanceBoundary minuteCatalog twoSlotLimits 60 = Inr (Some 180)"
  by (simp add: replayDistance_def minuteCatalog_def twoSlotLimits_def distanceLoop.simps
        shiftedSecond_def nanosecondsPerSecond_def i64_def u32_def)
     (simp add: replayDistanceBoundary_def minuteCatalog_def twoSlotLimits_def numeral_2_eq_2)

lemmas example_defs = minuteConfig_def takenOverFence_def takenOverState_def Let_def Anchor_def zeroTime_def
  UnixMilli_def timeSub_def timeUnixMilli_def nanosecondsPerSecond_def maxInt64_def

lemma exampleClassified:
  "classifyRecovery minuteConfig minuteCatalog minuteCatalog held 60 90000 0 200000000000 takenOverFence takenOverState
   = (if held then (Inr (OperationNormal, (eligibleFacts 3 110000000000 0)\<lparr>rf_Disposition := ReplayExpired,
          rf_Reason := ''REPLAY_DISTANCE_EXCEEDED''\<rparr>),
        takenOverState\<lparr>sl_observed := [ReplayExpiryObserved 60 ((eligibleFacts 3 110000000000 0)\<lparr>rf_Disposition := ReplayExpired,
          rf_Reason := ''REPLAY_DISTANCE_EXCEEDED''\<rparr>)]\<rparr>)
      else (Inr (OperationReplay, eligibleFacts 3 110000000000 0),
        takenOverState\<lparr>sl_takeovers := Some [''qg'' \<mapsto> \<lparr>to_epoch = 3, to_at = 150000000000, to_classified = [''replayed'' \<mapsto> 60]\<rparr>],
          sl_observed := [ReplayTakeoverObserved 60 ''replayed'' 110000000000 50000000000]\<rparr>))"
  using exampleWalks
  by (simp add: classifyRecovery_def classifyOwnSlot_def replayWaitOutlastsDistance_def observeReplayExpiry_def
      observeReplayTakeover_def FirstClassification_def ReplayTakeoverReplayed_def eligibleFacts_def zeroRecoveryFacts_def
      twoSlotLimits_def example_defs)

theorem boundary_is_distance_limit_witness: "2 < (3::nat) \<longleftrightarrow> (\<exists>t. Some (180::int) = Some t \<and> t \<le> shiftedSecond 200000000000 0)"
  using boundary_is_distance_limit [OF exampleWalks] by (simp add: twoSlotLimits_def maxUint32_def)

theorem classification_well_formed_witness: "recoveryFactsValid (eligibleFacts 3 110000000000 0) OperationReplay"
proof (rule classification_well_formed)
  show "classifyRecovery minuteConfig minuteCatalog minuteCatalog False 60 90000 0 200000000000 takenOverFence takenOverState
    = (Inr (OperationReplay, eligibleFacts 3 110000000000 0), snd (classifyRecovery minuteConfig minuteCatalog minuteCatalog
        False 60 90000 0 200000000000 takenOverFence takenOverState))"
    by (simp add: exampleClassified)
qed (simp add: minuteConfig_def twoSlotLimits_def maxUint32_def)


theorem takeover_counted_once_witness:
  "\<exists>s :: SlotSourceState. reportedTimes ''replayed'' (sl_observed s) = [60] \<and> sorted_wrt (<) (reportedTimes ''replayed'' (sl_observed s))"
proof -
  have "ownershipContinues (sl_takeovers takenOverState) (sc_queryGroup minuteConfig) takenOverFence"
    by (simp add: ownershipContinues_def takenOverState_def minuteConfig_def takenOverFence_def)
  from ownedRun.classified [OF ownedRun.start this exampleClassified [where held = False, simplified]]
  obtain s where s: "ownedRun minuteConfig takenOverState s"
    and observed: "sl_observed s = [ReplayTakeoverObserved 60 ''replayed'' 110000000000 50000000000]"
    by force
  have "sorted_wrt (<) (reportedTimes ''replayed'' (sl_observed s))"
    by (rule takeover_counted_once [OF s]) (simp_all add: takenOverState_def)
  moreover have "reportedTimes ''replayed'' (sl_observed s) = [60]" by (simp add: observed)
  ultimately show ?thesis by blast
qed

end
