(* ===== verification/Permits.thy ===== *)
theory Permits
  imports Round "HOL-Library.Product_Lexorder" "HOL-Library.AList"
begin

text \<open>
  The query budget of the process: the permits of \<open>scheduler/recovery.go\<close>, the recovery channels
  of \<open>scheduler/recovery_channels.go\<close>, the lookback permits of \<open>scheduler/lookback_permit.go\<close>, and
  the flights of \<open>scheduler/runtime.go\<close>, all kept by one \<open>FlightCoordinator\<close> behind one mutex.

  A section of code under the mutex is one atomic function on the coordinator; a call that waits
  is split where it unlocks: a request puts a waiter in a queue, and the wait ends by receiving
  what was sent on the waiter's channel or by giving up (the context is done or the timer fires).

  \<^item> a grant channel is buffered with one place.  What was sent and not yet received is
    \<open>co_answers\<close>; a send that would find the place taken sets \<open>co_wouldBlock\<close>, for it would block
    under the mutex;
  \<^item> permits, channels and lookback permits are objects: a reference is an index into the list
    of those made so far, and their \<open>sync.Once\<close> is a flag of the object;
  \<^item> a waiter knows, in place of the frame that waits, through which recovery channels it was
    made (\<open>qw_channel\<close>);
  \<^item> the clock gives one reading for each call site, in the order they are reached;
  \<^item> the held seconds, which are sums of floating point numbers, and the observations are left
    out.
\<close>

section \<open>Data\<close>

text \<open>
  Through which channels a permit is acquired: none, channels that outlive it, or channels made
  for it alone by \<open>AcquireQueryPermit\<close>, which are released with it.
\<close>

datatype PermitChannel = NoChannel | ViaChannel nat | ViaOwnChannel nat

record queryPermitWaiter =
  qw_ref :: nat
  qw_slot :: SlotIdentity
  qw_operation :: Operation
  qw_deadline :: int
  qw_channel :: PermitChannel

record RecoveryPermit =
  rp_PermitID :: string
  rp_Slot :: SlotIdentity
  rp_Operation :: Operation
  rp_ExpiresAtUnixMilli :: int

record QueryPermit =
  pm_operation :: Operation
  pm_id :: nat
  pm_recovery :: "RecoveryPermit option"
  pm_releaseChannel :: PermitChannel
  pm_once :: bool

record recoveryChannelWaiter =
  rw_ref :: nat
  rw_slot :: SlotIdentity
  rw_operation :: Operation
  rw_deadline :: int
  rw_maximum :: int

record RecoveryChannels =
  rc_slot :: SlotIdentity
  rc_operation :: Operation
  rc_deadline :: int
  rc_available :: int
  rc_count :: int
  rc_once :: bool

text \<open>The yield channel of a lookback permit is named by the permit's reference.\<close>

record heldPermit =
  hp_operation :: "Operation option"
  hp_since :: int
  hp_yield :: "nat option"

record LookbackPermit =
  lp_id :: nat
  lp_once :: bool

record flightHold =
  fh_holder :: string
  fh_turnedAway :: bool

record FlightCoordinator =
  co_active :: "string \<rightharpoonup> flightHold"
  co_told :: "string list"
  co_normalWaiters :: "queryPermitWaiter list"
  co_recoveryWaiters :: "queryPermitWaiter list"
  co_recoveryChannelWaiters :: "recoveryChannelWaiter list"
  co_lastNormalQG :: string
  co_lastRecoveryQG :: string
  co_queryInflight :: int
  co_recoveryInflight :: int
  co_nextRecovery :: bool
  co_permitSequence :: nat
  co_inflightByOp :: "Operation \<Rightarrow> int"
  co_permitAcquires :: nat
  co_permitQueued :: nat
  co_heldPermits :: "(nat \<times> heldPermit) list"
  co_lookbackInflight :: int
  co_lookbackHeld :: "(nat \<times> heldPermit) list"
  co_closedYields :: "nat list"
  co_answers :: "(queryPermitWaiter \<times> nat option) list"
  co_permits :: "QueryPermit list"
  co_channelAnswers :: "(recoveryChannelWaiter \<times> nat option) list"
  co_channels :: "RecoveryChannels list"
  co_lookbacks :: "LookbackPermit list"
  co_nextRef :: nat
  co_wouldBlock :: bool

text \<open>\<open>NewFlightCoordinatorWithRecovery\<close>; its limits, which never change, are an argument below.\<close>

definition NewFlightCoordinatorWithRecovery :: "RecoveryLimits \<Rightarrow> FlightCoordinator option" where
  "NewFlightCoordinatorWithRecovery limits =
     (if \<not> limitsValid limits then None
      else Some \<lparr>co_active = Map.empty, co_told = [], co_normalWaiters = [], co_recoveryWaiters = [],
        co_recoveryChannelWaiters = [], co_lastNormalQG = [], co_lastRecoveryQG = [], co_queryInflight = 0,
        co_recoveryInflight = 0, co_nextRecovery = True, co_permitSequence = 0, co_inflightByOp = (\<lambda>_. 0),
        co_permitAcquires = 0, co_permitQueued = 0, co_heldPermits = [], co_lookbackInflight = 0, co_lookbackHeld = [],
        co_closedYields = [], co_answers = [], co_permits = [], co_channelAnswers = [], co_channels = [],
        co_lookbacks = [], co_nextRef = 0, co_wouldBlock = False\<rparr>)"

section \<open>The two queues\<close>

text \<open>Which queue, and which turn marker with it, a pointer of the code is to.\<close>

datatype QueueKind = NormalQueue | RecoveryQueue

definition queueOf :: "QueueKind \<Rightarrow> FlightCoordinator \<Rightarrow> queryPermitWaiter list" where
  "queueOf kind co = (case kind of NormalQueue \<Rightarrow> co_normalWaiters co | RecoveryQueue \<Rightarrow> co_recoveryWaiters co)"

definition setQueue :: "QueueKind \<Rightarrow> queryPermitWaiter list \<Rightarrow> FlightCoordinator \<Rightarrow> FlightCoordinator" where
  "setQueue kind queue co =
     (case kind of NormalQueue \<Rightarrow> co\<lparr>co_normalWaiters := queue\<rparr> | RecoveryQueue \<Rightarrow> co\<lparr>co_recoveryWaiters := queue\<rparr>)"

definition sendGrant :: "queryPermitWaiter \<Rightarrow> nat option \<Rightarrow> FlightCoordinator \<Rightarrow> FlightCoordinator" where
  "sendGrant waiter permit co =
     (if qw_ref waiter \<in> set (map (qw_ref \<circ> fst) (co_answers co)) then co\<lparr>co_wouldBlock := True\<rparr>
      else co\<lparr>co_answers := co_answers co @ [(waiter, permit)]\<rparr>)"

definition expireWaitersLocked :: "int \<Rightarrow> QueueKind \<Rightarrow> FlightCoordinator \<Rightarrow> FlightCoordinator" where
  "expireWaitersLocked now kind co =
     (let queue = queueOf kind co
      in setQueue kind (filter (\<lambda>w. qw_deadline w > now) queue)
           (fold (\<lambda>w. sendGrant w None) (filter (\<lambda>w. \<not> qw_deadline w > now) queue) co))"

definition queuedForQueryGroup :: "queryPermitWaiter list \<Rightarrow> string \<Rightarrow> nat" where
  "queuedForQueryGroup queue queryGroup = length (filter (\<lambda>w. si_QueryGroup (qw_slot w) = queryGroup) queue)"

text \<open>
  The first loop of \<open>popFairWaiterLocked\<close>: for each Query Group the index of its waiter with the
  earliest deadline, and the Query Groups in the order they are met.
\<close>

definition groupAt :: "queryPermitWaiter list \<Rightarrow> nat \<Rightarrow> string" where
  "groupAt queue index = si_QueryGroup (qw_slot (queue ! index))"

definition scanWaiter :: "queryPermitWaiter list \<Rightarrow> nat \<Rightarrow> (string \<rightharpoonup> nat) \<times> string list \<Rightarrow> (string \<rightharpoonup> nat) \<times> string list" where
  "scanWaiter queue index = (\<lambda>(firstByGroup, groups).
     (let queryGroup = groupAt queue index
      in case firstByGroup queryGroup of
           None \<Rightarrow> (firstByGroup(queryGroup \<mapsto> index), groups @ [queryGroup])
         | Some candidate \<Rightarrow>
             if qw_deadline (queue ! index) < qw_deadline (queue ! candidate)
             then (firstByGroup(queryGroup \<mapsto> index), groups) else (firstByGroup, groups)))"

definition scanWaiters :: "queryPermitWaiter list \<Rightarrow> (string \<rightharpoonup> nat) \<times> string list" where
  "scanWaiters queue = fold (scanWaiter queue) [0..<length queue] (Map.empty, [])"

text \<open>A missing key reads as zero.\<close>

definition firstOf :: "(string \<rightharpoonup> nat) \<Rightarrow> string \<Rightarrow> nat" where
  "firstOf firstByGroup queryGroup = (case firstByGroup queryGroup of Some index \<Rightarrow> index | None \<Rightarrow> 0)"

text \<open>The Query Group after the one that was served last, or the first of the round.\<close>

definition selectGroup :: "string \<Rightarrow> string list \<Rightarrow> string" where
  "selectGroup latest groups =
     (case List.find (\<lambda>index. groups ! index = latest) [0..<length groups] of
        Some index \<Rightarrow> groups ! ((index + 1) mod length groups)
      | None \<Rightarrow> groups ! 0)"

definition popFairWaiterLocked ::
  "queryPermitWaiter list \<Rightarrow> string \<Rightarrow> queryPermitWaiter \<times> queryPermitWaiter list \<times> string" where
  "popFairWaiterLocked queue latest =
     (let (firstByGroup, met) = scanWaiters queue;
          groups = sort_key (\<lambda>g. (qw_deadline (queue ! firstOf firstByGroup g), g)) met;
          selectedGroup = selectGroup latest groups;
          selected = firstOf firstByGroup selectedGroup
      in (queue ! selected, take selected queue @ drop (selected + 1) queue, selectedGroup))"

section \<open>Query permits\<close>

definition permitOf :: "queryPermitWaiter \<Rightarrow> bool \<Rightarrow> nat \<Rightarrow> QueryPermit" where
  "permitOf waiter recovery sequence =
     \<lparr>pm_operation = qw_operation waiter, pm_id = sequence,
      pm_recovery = (if recovery
        then Some \<lparr>rp_PermitID = ''query-recovery-'' @ formatNat sequence, rp_Slot = qw_slot waiter,
                   rp_Operation = qw_operation waiter, rp_ExpiresAtUnixMilli = UnixMilli (qw_deadline waiter)\<rparr>
        else None),
      pm_releaseChannel = NoChannel, pm_once = False\<rparr>"

text \<open>One grant of the dispatch loop, to the queue whose turn it is.\<close>

definition grantNext :: "int \<Rightarrow> FlightCoordinator \<Rightarrow> FlightCoordinator" where
  "grantNext now co =
     (let canRecovery = co_recoveryWaiters co \<noteq> []; canNormal = co_normalWaiters co \<noteq> [];
          useRecovery = canRecovery \<and> (\<not> canNormal \<or> co_nextRecovery co);
          kind = (if useRecovery then RecoveryQueue else NormalQueue);
          latest = (if useRecovery then co_lastRecoveryQG co else co_lastNormalQG co);
          (waiter, queue, selected) = popFairWaiterLocked (queueOf kind co) latest;
          popped = (if useRecovery
            then (setQueue kind queue co)\<lparr>co_lastRecoveryQG := selected, co_nextRecovery := False\<rparr>
            else (setQueue kind queue co)\<lparr>co_lastNormalQG := selected,
                   co_nextRecovery := (if canRecovery then True else co_nextRecovery co)\<rparr>);
          sequence = u64 (co_permitSequence co + 1);
          operation = qw_operation waiter
      in sendGrant waiter (Some (length (co_permits co)))
           (popped\<lparr>co_queryInflight := co_queryInflight co + 1, co_permitSequence := sequence,
                   co_permits := co_permits co @ [permitOf waiter useRecovery sequence],
                   co_inflightByOp := (co_inflightByOp co)(operation := co_inflightByOp co operation + 1),
                   co_heldPermits := AList.update sequence
                     \<lparr>hp_operation = Some operation, hp_since = now, hp_yield = None\<rparr> (co_heldPermits co)\<rparr>))"

lemma inflight_expire [simp]: "co_queryInflight (expireWaitersLocked now kind co) = co_queryInflight co"
proof -
  have "co_queryInflight (fold (\<lambda>w. sendGrant w None) ws c) = co_queryInflight c" for ws c
    by (induction ws arbitrary: c) (auto simp: sendGrant_def)
  then show ?thesis by (cases kind) (simp_all add: expireWaitersLocked_def setQueue_def Let_def)
qed

lemma inflight_grantNext [simp]: "co_queryInflight (grantNext now co) = co_queryInflight co + 1"
  by (simp add: grantNext_def Let_def sendGrant_def case_prod_unfold)

function dispatchQueryPermitsLocked :: "RecoveryLimits \<Rightarrow> (nat \<Rightarrow> int) \<Rightarrow> nat \<Rightarrow> FlightCoordinator \<Rightarrow> FlightCoordinator" where
  "dispatchQueryPermitsLocked limits now k co =
     (if co_queryInflight co < rl_ProcessQueryPermits limits
      then
        (let co' = expireWaitersLocked (now (k + 1)) RecoveryQueue (expireWaitersLocked (now k) NormalQueue co)
         in if co_recoveryWaiters co' = [] \<and> co_normalWaiters co' = [] then co'
            else dispatchQueryPermitsLocked limits now (k + 3) (grantNext (now (k + 2)) co'))
      else co)"
  by pat_completeness auto
termination
  by (relation "measure (\<lambda>(limits, _, _, co). nat (rl_ProcessQueryPermits limits - co_queryInflight co))")
    (auto simp: Let_def)

declare dispatchQueryPermitsLocked.simps [simp del]

text \<open>Every lookback permit held is asked to yield, once each: its yield channel is closed.\<close>

definition yieldLookbackLocked :: "FlightCoordinator \<Rightarrow> FlightCoordinator" where
  "yieldLookbackLocked co =
     co\<lparr>co_closedYields := co_closedYields co @ List.map_filter (hp_yield \<circ> snd) (co_lookbackHeld co),
        co_lookbackHeld := map (\<lambda>(i, held). (i, held\<lparr>hp_yield := None\<rparr>)) (co_lookbackHeld co)\<rparr>"

datatype PermitError =
  RecoveryLimitsInvalid | PermitRequestInvalid | ContextDone | DeadlineExceeded | QueryPermitQueueFull | RecoveryPermitsOff

text \<open>
  \<open>acquireProcessQueryPermit\<close> up to its unlock.  The coordinator was made with recovery limits;
  one that was not answers \<open>RecoveryLimitsInvalid\<close> to every request.
\<close>

definition enqueueQueryPermit ::
  "RecoveryLimits \<Rightarrow> (nat \<Rightarrow> int) \<Rightarrow> bool \<Rightarrow> SlotIdentity \<Rightarrow> Operation \<Rightarrow> int \<Rightarrow> PermitChannel \<Rightarrow> FlightCoordinator
     \<Rightarrow> (PermitError + nat) \<times> FlightCoordinator" where
  "enqueueQueryPermit limits now cancelled slot operation deadline channel co0 =
     (if si_QueryGroup slot = [] \<or> si_EvaluationTime slot \<le> 0 \<or> \<not> operationValid operation \<or> deadline = zeroTime
      then (Inl PermitRequestInvalid, co0)
      else if cancelled then (Inl ContextDone, co0)
      else if \<not> deadline > now 0 then (Inl DeadlineExceeded, co0)
      else
        (let recovery = operation \<noteq> OperationNormal;
             kind = (if recovery then RecoveryQueue else NormalQueue);
             capacity = (if recovery then rl_RecoveryQueueCapacity limits else rl_ReadyQueueCapacity limits);
             waiter = \<lparr>qw_ref = co_nextRef co0, qw_slot = slot, qw_operation = operation, qw_deadline = deadline, qw_channel = channel\<rparr>;
             co = expireWaitersLocked (now 1) kind (co0\<lparr>co_nextRef := co_nextRef co0 + 1\<rparr>)
         in if int (length (queueOf kind co)) \<ge> capacity
               \<or> int (queuedForQueryGroup (queueOf kind co) (si_QueryGroup slot)) \<ge> rl_MaxQueuedItemsPerQG limits
            then (Inl QueryPermitQueueFull, co)
            else
              (let co1 = dispatchQueryPermitsLocked limits now 2 (setQueue kind (queueOf kind co @ [waiter]) co);
                   queued = qw_ref waiter \<in> set (map qw_ref (queueOf kind co1));
                   co2 = co1\<lparr>co_permitAcquires := u64 (co_permitAcquires co1 + 1)\<rparr>
               in (Inr (qw_ref waiter),
                   if queued then yieldLookbackLocked (co2\<lparr>co_permitQueued := u64 (co_permitQueued co2 + 1)\<rparr>) else co2))))"

text \<open>\<open>releaseQueryPermit\<close>\<close>

definition releaseQueryPermit :: "RecoveryLimits \<Rightarrow> (nat \<Rightarrow> int) \<Rightarrow> Operation \<Rightarrow> nat \<Rightarrow> FlightCoordinator \<Rightarrow> FlightCoordinator" where
  "releaseQueryPermit limits now operation permitID co =
     dispatchQueryPermitsLocked limits now 1
       (co\<lparr>co_queryInflight := (if co_queryInflight co > 0 then co_queryInflight co - 1 else co_queryInflight co),
           co_inflightByOp := (if co_inflightByOp co operation > 0
             then (co_inflightByOp co)(operation := co_inflightByOp co operation - 1) else co_inflightByOp co),
           co_heldPermits := AList.delete permitID (co_heldPermits co)\<rparr>)"

section \<open>Recovery channels\<close>

definition sendChannels :: "recoveryChannelWaiter \<Rightarrow> nat option \<Rightarrow> FlightCoordinator \<Rightarrow> FlightCoordinator" where
  "sendChannels waiter channels co =
     (if rw_ref waiter \<in> set (map (rw_ref \<circ> fst) (co_channelAnswers co)) then co\<lparr>co_wouldBlock := True\<rparr>
      else co\<lparr>co_channelAnswers := co_channelAnswers co @ [(waiter, channels)]\<rparr>)"

definition grantChannels :: "RecoveryLimits \<Rightarrow> recoveryChannelWaiter \<Rightarrow> FlightCoordinator \<Rightarrow> FlightCoordinator" where
  "grantChannels limits waiter co =
     (let count = min (rw_maximum waiter) (rl_RecoveryQueryPermits limits - co_recoveryInflight co)
      in sendChannels waiter (Some (length (co_channels co)))
           (co\<lparr>co_recoveryInflight := co_recoveryInflight co + count,
               co_channels := co_channels co @
                 [\<lparr>rc_slot = rw_slot waiter, rc_operation = rw_operation waiter, rc_deadline = rw_deadline waiter,
                   rc_available = count, rc_count = count, rc_once = False\<rparr>]\<rparr>))"

function dispatchRecoveryChannelsLocked ::
  "RecoveryLimits \<Rightarrow> (nat \<Rightarrow> int) \<Rightarrow> nat \<Rightarrow> FlightCoordinator \<Rightarrow> FlightCoordinator" where
  "dispatchRecoveryChannelsLocked limits now k co =
     (case co_recoveryChannelWaiters co of
        [] \<Rightarrow> co
      | w # ws \<Rightarrow>
          if co_recoveryInflight co < rl_RecoveryQueryPermits limits
          then dispatchRecoveryChannelsLocked limits now (k + 1)
                 (let popped = co\<lparr>co_recoveryChannelWaiters := ws\<rparr>
                  in if \<not> rw_deadline w > now k then sendChannels w None popped else grantChannels limits w popped)
          else co)"
  by pat_completeness auto
termination
  by (relation "measure (\<lambda>(_, _, _, co). length (co_recoveryChannelWaiters co))")
    (auto simp: Let_def sendChannels_def grantChannels_def)

declare dispatchRecoveryChannelsLocked.simps [simp del]

text \<open>\<open>acquireRecoveryChannels\<close> up to its unlock\<close>

definition enqueueRecoveryChannels ::
  "RecoveryLimits \<Rightarrow> (nat \<Rightarrow> int) \<Rightarrow> bool \<Rightarrow> SlotIdentity \<Rightarrow> Operation \<Rightarrow> int \<Rightarrow> int \<Rightarrow> FlightCoordinator
     \<Rightarrow> (PermitError + nat) \<times> FlightCoordinator" where
  "enqueueRecoveryChannels limits now cancelled slot operation deadline maximum co0 =
     (if si_QueryGroup slot = [] \<or> si_EvaluationTime slot \<le> 0 \<or> \<not> operationValid operation
         \<or> operation = OperationNormal \<or> maximum \<le> 0
      then (Inl PermitRequestInvalid, co0)
      else if cancelled then (Inl ContextDone, co0)
      else if \<not> deadline > now 0 then (Inl DeadlineExceeded, co0)
      else if rl_RecoveryQueryPermits limits = 0 then (Inl RecoveryPermitsOff, co0)
      else
        (let waiter = \<lparr>rw_ref = co_nextRef co0, rw_slot = slot, rw_operation = operation, rw_deadline = deadline, rw_maximum = maximum\<rparr>;
             co = co0\<lparr>co_nextRef := co_nextRef co0 + 1\<rparr>;
             perQG = length (filter (\<lambda>w. si_QueryGroup (rw_slot w) = si_QueryGroup slot) (co_recoveryChannelWaiters co))
         in if int (length (co_recoveryChannelWaiters co)) \<ge> rl_RecoveryQueueCapacity limits
               \<or> int perQG \<ge> rl_MaxQueuedItemsPerQG limits
            then (Inl QueryPermitQueueFull, co)
            else (Inr (rw_ref waiter),
                  dispatchRecoveryChannelsLocked limits now 1
                    (co\<lparr>co_recoveryChannelWaiters := co_recoveryChannelWaiters co @ [waiter]\<rparr>))))"

text \<open>\<open>RecoveryChannels.Release\<close>\<close>

definition releaseChannels :: "RecoveryLimits \<Rightarrow> (nat \<Rightarrow> int) \<Rightarrow> nat \<Rightarrow> FlightCoordinator \<Rightarrow> FlightCoordinator" where
  "releaseChannels limits now c co =
     (let channels = co_channels co ! c
      in if rc_once channels then co
         else dispatchRecoveryChannelsLocked limits now 0
                (co\<lparr>co_channels := (co_channels co)[c := channels\<lparr>rc_once := True\<rparr>],
                    co_recoveryInflight := co_recoveryInflight co - rc_count channels\<rparr>))"

text \<open>A place of the channels given back, and the channels with it when they were made for one query.\<close>

definition returnPlace :: "nat \<Rightarrow> FlightCoordinator \<Rightarrow> FlightCoordinator" where
  "returnPlace c co =
     (let channels = co_channels co ! c
      in co\<lparr>co_channels := (co_channels co)[c := channels\<lparr>rc_available := rc_available channels + 1\<rparr>]\<rparr>)"

definition returnChannel :: "RecoveryLimits \<Rightarrow> (nat \<Rightarrow> int) \<Rightarrow> PermitChannel \<Rightarrow> FlightCoordinator \<Rightarrow> FlightCoordinator" where
  "returnChannel limits now channel co =
     (case channel of
        NoChannel \<Rightarrow> co
      | ViaChannel c \<Rightarrow> returnPlace c co
      | ViaOwnChannel c \<Rightarrow> releaseChannels limits now c (returnPlace c co))"

text \<open>\<open>QueryPermit.Release\<close>\<close>

definition releasePermit :: "RecoveryLimits \<Rightarrow> (nat \<Rightarrow> int) \<Rightarrow> (nat \<Rightarrow> int) \<Rightarrow> nat \<Rightarrow> FlightCoordinator \<Rightarrow> FlightCoordinator" where
  "releasePermit limits now now' p co =
     (let permit = co_permits co ! p
      in if pm_once permit then co
         else returnChannel limits now' (pm_releaseChannel permit)
                (releaseQueryPermit limits now (pm_operation permit) (pm_id permit)
                   (co\<lparr>co_permits := (co_permits co)[p := permit\<lparr>pm_once := True\<rparr>]\<rparr>)))"

section \<open>The ends of a wait\<close>

text \<open>
  What follows the wait in \<open>channels.acquireQueryPermit\<close> and \<open>AcquireQueryPermit\<close>: a failure gives
  the place back, a success leaves that to the permit.
\<close>

definition finishAcquire ::
  "RecoveryLimits \<Rightarrow> (nat \<Rightarrow> int) \<Rightarrow> PermitChannel \<Rightarrow> (PermitError + nat) \<times> FlightCoordinator \<Rightarrow> (PermitError + nat) \<times> FlightCoordinator" where
  "finishAcquire limits now channel = (\<lambda>(answer, co).
     (case answer of
        Inl e \<Rightarrow> (Inl e, returnChannel limits now channel co)
      | Inr p \<Rightarrow> (Inr p, co\<lparr>co_permits := (co_permits co)[p := (co_permits co ! p)\<lparr>pm_releaseChannel := channel\<rparr>]\<rparr>)))"

text \<open>
  The wait ends by receiving: nothing was granted before the deadline, a permit comes too late,
  or a permit.
\<close>

definition receiveGrant ::
  "RecoveryLimits \<Rightarrow> (nat \<Rightarrow> int) \<Rightarrow> (nat \<Rightarrow> int) \<Rightarrow> queryPermitWaiter \<times> nat option \<Rightarrow> FlightCoordinator
     \<Rightarrow> (PermitError + nat) \<times> FlightCoordinator" where
  "receiveGrant limits now now' answer co0 =
     (let (waiter, grant) = answer; co = co0\<lparr>co_answers := remove1 answer (co_answers co0)\<rparr>
      in finishAcquire limits now' (qw_channel waiter)
           (case grant of
              None \<Rightarrow> (Inl DeadlineExceeded, co)
            | Some p \<Rightarrow>
                if \<not> qw_deadline waiter > now 0
                then (Inl DeadlineExceeded, releasePermit limits (laterReads 1 now) now' p co)
                else (Inr p, co)))"

text \<open>
  The wait ends by giving up, with the error of the context or of the timer.  A waiter that is
  no longer queued receives what was sent to it, and would wait forever if nothing was:
  \<^term>\<open>None\<close>.
\<close>

definition abandonWait ::
  "RecoveryLimits \<Rightarrow> (nat \<Rightarrow> int) \<Rightarrow> (nat \<Rightarrow> int) \<Rightarrow> (nat \<Rightarrow> int) \<Rightarrow> PermitError \<Rightarrow> queryPermitWaiter \<Rightarrow> FlightCoordinator
     \<Rightarrow> ((PermitError + nat) \<times> FlightCoordinator) option" where
  "abandonWait limits now now' now'' e waiter co0 =
     (let kind = (if qw_operation waiter \<noteq> OperationNormal then RecoveryQueue else NormalQueue);
          removed = waiter \<in> set (queueOf kind co0);
          co = dispatchQueryPermitsLocked limits now 0 (setQueue kind (remove1 waiter (queueOf kind co0)) co0)
      in map_option (\<lambda>left. finishAcquire limits now'' (qw_channel waiter) (Inl e, left))
           (if removed then Some co
            else
              (case List.find (\<lambda>a. qw_ref (fst a) = qw_ref waiter) (co_answers co) of
                 None \<Rightarrow> None
               | Some answer \<Rightarrow>
                   (let taken = co\<lparr>co_answers := remove1 answer (co_answers co)\<rparr>
                    in case snd answer of
                         None \<Rightarrow> Some taken
                       | Some p \<Rightarrow> Some (releasePermit limits now' now'' p taken)))))"

definition receiveChannels ::
  "RecoveryLimits \<Rightarrow> (nat \<Rightarrow> int) \<Rightarrow> bool \<Rightarrow> recoveryChannelWaiter \<times> nat option \<Rightarrow> FlightCoordinator
     \<Rightarrow> (PermitError + nat) \<times> FlightCoordinator" where
  "receiveChannels limits now cancelled answer co0 =
     (let (waiter, grant) = answer; co = co0\<lparr>co_channelAnswers := remove1 answer (co_channelAnswers co0)\<rparr>
      in case grant of
           None \<Rightarrow> (Inl DeadlineExceeded, co)
         | Some c \<Rightarrow>
             if cancelled then (Inl ContextDone, releaseChannels limits (laterReads 1 now) c co)
             else if \<not> rw_deadline waiter > now 0 then (Inl DeadlineExceeded, releaseChannels limits (laterReads 1 now) c co)
             else (Inr c, co))"

definition abandonChannels ::
  "RecoveryLimits \<Rightarrow> (nat \<Rightarrow> int) \<Rightarrow> (nat \<Rightarrow> int) \<Rightarrow> recoveryChannelWaiter \<Rightarrow> FlightCoordinator \<Rightarrow> FlightCoordinator option" where
  "abandonChannels limits now now' waiter co0 =
     (let removed = waiter \<in> set (co_recoveryChannelWaiters co0);
          co = dispatchRecoveryChannelsLocked limits now 0
                 (co0\<lparr>co_recoveryChannelWaiters := remove1 waiter (co_recoveryChannelWaiters co0)\<rparr>)
      in if removed then Some co
         else
           (case List.find (\<lambda>a. rw_ref (fst a) = rw_ref waiter) (co_channelAnswers co) of
              None \<Rightarrow> None
            | Some answer \<Rightarrow>
                (let taken = co\<lparr>co_channelAnswers := remove1 answer (co_channelAnswers co)\<rparr>
                 in case snd answer of
                      None \<Rightarrow> Some taken
                    | Some c \<Rightarrow> Some (releaseChannels limits now' c taken))))"

text \<open>
  \<open>channels.acquireQueryPermit\<close> once a place was taken: a request that is refused at once gives
  the place back.
\<close>

definition requestThrough ::
  "RecoveryLimits \<Rightarrow> (nat \<Rightarrow> int) \<Rightarrow> (nat \<Rightarrow> int) \<Rightarrow> bool \<Rightarrow> SlotIdentity \<Rightarrow> Operation \<Rightarrow> int \<Rightarrow> PermitChannel \<Rightarrow> nat
     \<Rightarrow> FlightCoordinator \<Rightarrow> (PermitError + nat) \<times> FlightCoordinator" where
  "requestThrough limits now now' cancelled slot operation deadline channel c co =
     (let channels = co_channels co ! c;
          taken = co\<lparr>co_channels := (co_channels co)[c := channels\<lparr>rc_available := rc_available channels - 1\<rparr>]\<rparr>
      in case enqueueQueryPermit limits now cancelled slot operation deadline channel taken of
           (Inl e, co') \<Rightarrow> (Inl e, returnChannel limits now' channel co')
         | (Inr ref, co') \<Rightarrow> (Inr ref, co'))"

section \<open>Lookback permits\<close>

datatype LookbackRefusal = LookbackRefusedDisabled | LookbackRefusedWaiting | LookbackRefusedFull

definition TryAcquireLookbackPermit ::
  "RecoveryLimits \<Rightarrow> (nat \<Rightarrow> int) \<Rightarrow> FlightCoordinator \<Rightarrow> (LookbackRefusal + nat) \<times> FlightCoordinator" where
  "TryAcquireLookbackPermit limits now co0 =
     (let co = expireWaitersLocked (now 1) RecoveryQueue (expireWaitersLocked (now 0) NormalQueue co0)
      in if co_normalWaiters co \<noteq> [] \<or> co_recoveryWaiters co \<noteq> [] \<or> co_recoveryChannelWaiters co \<noteq> []
         then (Inl LookbackRefusedWaiting, co)
         else if co_queryInflight co \<ge> rl_ProcessQueryPermits limits then (Inl LookbackRefusedFull, co)
         else
           (let sequence = u64 (co_permitSequence co + 1); l = length (co_lookbacks co)
            in (Inr l,
                co\<lparr>co_queryInflight := co_queryInflight co + 1, co_lookbackInflight := co_lookbackInflight co + 1,
                   co_permitSequence := sequence, co_lookbacks := co_lookbacks co @ [\<lparr>lp_id = sequence, lp_once = False\<rparr>],
                   co_lookbackHeld := AList.update sequence
                     \<lparr>hp_operation = None, hp_since = now 2, hp_yield = Some l\<rparr> (co_lookbackHeld co)\<rparr>)))"

definition releaseLookbackPermit :: "RecoveryLimits \<Rightarrow> (nat \<Rightarrow> int) \<Rightarrow> nat \<Rightarrow> FlightCoordinator \<Rightarrow> FlightCoordinator" where
  "releaseLookbackPermit limits now i co =
     dispatchQueryPermitsLocked limits now 1
       (co\<lparr>co_queryInflight := (if co_queryInflight co > 0 then co_queryInflight co - 1 else co_queryInflight co),
           co_lookbackInflight := (if co_lookbackInflight co > 0 then co_lookbackInflight co - 1 else co_lookbackInflight co),
           co_lookbackHeld := AList.delete i (co_lookbackHeld co)\<rparr>)"

text \<open>\<open>LookbackPermit.Release\<close>\<close>

definition releaseLookback :: "RecoveryLimits \<Rightarrow> (nat \<Rightarrow> int) \<Rightarrow> nat \<Rightarrow> FlightCoordinator \<Rightarrow> FlightCoordinator" where
  "releaseLookback limits now l co =
     (let permit = co_lookbacks co ! l
      in if lp_once permit then co
         else releaseLookbackPermit limits now (lp_id permit)
                (co\<lparr>co_lookbacks := (co_lookbacks co)[l := permit\<lparr>lp_once := True\<rparr>]\<rparr>))"

section \<open>Flights\<close>

definition FlightHeldBySlot :: string where "FlightHeldBySlot = ''slot''"

text \<open>The flight of a Query Group, taken or refused with its holder's name.\<close>

definition tryAcquireAs :: "string \<Rightarrow> string \<Rightarrow> FlightCoordinator \<Rightarrow> (string + unit) \<times> FlightCoordinator" where
  "tryAcquireAs queryGroup holder co =
     (case co_active co queryGroup of
        Some hold \<Rightarrow>
          (Inl (fh_holder hold),
           if holder = FlightHeldBySlot \<and> fh_holder hold \<noteq> FlightHeldBySlot \<and> \<not> fh_turnedAway hold
           then co\<lparr>co_active := (co_active co)(queryGroup \<mapsto> hold\<lparr>fh_turnedAway := True\<rparr>)\<rparr>
           else co)
      | None \<Rightarrow> (Inr (), co\<lparr>co_active := (co_active co)(queryGroup \<mapsto> \<lparr>fh_holder = holder, fh_turnedAway = False\<rparr>)\<rparr>))"

text \<open>The end of a flight; \<open>listening\<close> says that \<open>OnTurnedAwayReleased\<close> was given a function.\<close>

definition releaseFlight :: "bool \<Rightarrow> string \<Rightarrow> FlightCoordinator \<Rightarrow> FlightCoordinator" where
  "releaseFlight listening queryGroup co =
     (let left = co\<lparr>co_active := (co_active co)(queryGroup := None)\<rparr>
      in case co_active co queryGroup of
           Some hold \<Rightarrow>
             if fh_turnedAway hold \<and> listening then left\<lparr>co_told := co_told left @ [queryGroup]\<rparr> else left
         | None \<Rightarrow> left)"

definition FlightHeld :: "string \<Rightarrow> FlightCoordinator \<Rightarrow> string option" where
  "FlightHeld queryGroup co = map_option fh_holder (co_active co queryGroup)"

end
