(* ===== verification/Permits_Correct.thy ===== *)
theory Permits_Correct
  imports Permits
begin

text \<open>
  What the operations of the \<open>FlightCoordinator\<close> do to its parts: the fair choice of a waiter, the
  waiters and their answers, the counts of the permits, and the lookback permits.  The dispatch
  loop keeps whatever expiring a queue and granting once keep.
\<close>

section \<open>Sums over objects\<close>

lemma sum_update:
  fixes f :: "'a \<Rightarrow> int"
  shows "p < length xs \<Longrightarrow> sum_list (map f (xs[p := x])) = sum_list (map f xs) - f (xs ! p) + f x"
  by (induction xs arbitrary: p) (auto split: nat.splits)

lemma sum_list_perm:
  fixes f :: "'a \<Rightarrow> int"
  shows "mset xs = mset ys \<Longrightarrow> sum_list (map f xs) = sum_list (map f ys)"
  by (metis mset_map sum_mset_sum_list)

section \<open>The fair choice\<close>

definition earliestAt :: "queryPermitWaiter list \<Rightarrow> nat \<Rightarrow> string \<Rightarrow> nat \<Rightarrow> bool" where
  "earliestAt queue n g i \<longleftrightarrow> i < n \<and> groupAt queue i = g
     \<and> (\<forall>j < n. groupAt queue j = g \<longrightarrow> qw_deadline (queue ! i) \<le> qw_deadline (queue ! j))"

definition scanned :: "queryPermitWaiter list \<Rightarrow> nat \<Rightarrow> (string \<rightharpoonup> nat) \<Rightarrow> string list \<Rightarrow> bool" where
  "scanned queue n firstByGroup groups \<longleftrightarrow> distinct groups \<and> set groups = groupAt queue ` {..<n}
     \<and> dom firstByGroup = set groups \<and> (\<forall>g i. firstByGroup g = Some i \<longrightarrow> earliestAt queue n g i)"

lemma earliestAt_other: "earliestAt queue n g i \<Longrightarrow> g \<noteq> groupAt queue n \<Longrightarrow> earliestAt queue (Suc n) g i"
  by (auto simp: earliestAt_def less_Suc_eq)

lemma scanned_step:
  assumes "scanned queue n firstByGroup groups" "scanWaiter queue n (firstByGroup, groups) = (first', groups')"
  shows "scanned queue (Suc n) first' groups'"
proof (cases "firstByGroup (groupAt queue n)")
  case None
  then have new: "groupAt queue n \<notin> set groups" using assms(1) by (auto simp: scanned_def)
  have step: "first' = firstByGroup(groupAt queue n \<mapsto> n)" "groups' = groups @ [groupAt queue n]"
    using assms(2) None by (auto simp: scanWaiter_def Let_def)
  have "earliestAt queue (Suc n) (groupAt queue n) n"
    using assms(1) new unfolding earliestAt_def scanned_def by (metis image_eqI lessI less_Suc_eq lessThan_iff order_refl)
  then show ?thesis
    using assms(1) new unfolding scanned_def step by (auto simp: lessThan_Suc intro: earliestAt_other)
next
  case (Some candidate)
  then have known: "groupAt queue n \<in> set groups" and cand: "earliestAt queue n (groupAt queue n) candidate"
    using assms(1) by (auto simp: scanned_def)
  let ?best = "if qw_deadline (queue ! n) < qw_deadline (queue ! candidate) then n else candidate"
  have "first' = firstByGroup(groupAt queue n \<mapsto> ?best)" and "groups' = groups"
    using assms(2) Some by (auto simp: scanWaiter_def Let_def split: if_splits)
  moreover have "earliestAt queue (Suc n) (groupAt queue n) ?best"
    using cand by (fastforce simp: earliestAt_def less_Suc_eq)
  ultimately show ?thesis
    using assms(1) known unfolding scanned_def by (auto simp: lessThan_Suc intro: earliestAt_other)
qed

lemma scan_facts: "fold (scanWaiter queue) [0..<n] (Map.empty, []) = (firstByGroup, groups) \<Longrightarrow> scanned queue n firstByGroup groups"
proof (induction n arbitrary: firstByGroup groups)
  case 0
  then show ?case by (auto simp: scanned_def)
next
  case (Suc n)
  obtain first' groups' where prev: "fold (scanWaiter queue) [0..<n] (Map.empty, []) = (first', groups')" by fastforce
  show ?case by (rule scanned_step [OF Suc.IH [OF prev]]) (use Suc.prems prev in simp)
qed

lemma selectGroup_mem: "groups \<noteq> [] \<Longrightarrow> selectGroup latest groups \<in> set groups"
  by (auto simp: selectGroup_def split: option.splits)

lemma selectGroup_next:
  assumes "distinct groups" "g \<in> set groups" "g \<noteq> latest"
  shows "selectGroup latest groups \<noteq> latest"
proof (cases "List.find (\<lambda>index. groups ! index = latest) [0..<length groups]")
  case None
  then have "latest \<notin> set groups" by (auto simp: find_None_iff in_set_conv_nth)
  then show ?thesis using None assms(2) by (cases groups) (auto simp: selectGroup_def)
next
  case (Some i)
  then have i: "i < length groups" "groups ! i = latest" by (auto simp: find_Some_iff)
  have "length groups \<noteq> 1" using assms(2,3) i by (auto simp: in_set_conv_nth)
  then have "(i + 1) mod length groups \<noteq> i" "(i + 1) mod length groups < length groups"
    using i(1) by (auto simp: mod_Suc)
  then show ?thesis using Some i assms(1) by (auto simp: selectGroup_def nth_eq_iff_index_eq)
qed

text \<open>
  The waiter taken is one of the queue, the earliest of its Query Group, and the others stay in
  their order; the Query Group served last is not served again while another one waits.
\<close>

lemma popFair_facts:
  assumes "queue \<noteq> []" "popFairWaiterLocked queue latest = (waiter, rest, selected)"
  shows "\<exists>i < length queue. waiter = queue ! i \<and> rest = take i queue @ drop (i + 1) queue
    \<and> selected = si_QueryGroup (qw_slot waiter)
    \<and> (\<forall>w \<in> set queue. si_QueryGroup (qw_slot w) = selected \<longrightarrow> qw_deadline waiter \<le> qw_deadline w)
    \<and> ((\<exists>w \<in> set queue. si_QueryGroup (qw_slot w) \<noteq> latest) \<longrightarrow> selected \<noteq> latest)"
proof -
  obtain firstByGroup met where scan: "scanWaiters queue = (firstByGroup, met)" by fastforce
  note facts = scan_facts [OF scan [unfolded scanWaiters_def]]
  let ?groups = "sort_key (\<lambda>g. (qw_deadline (queue ! firstOf firstByGroup g), g)) met"
  have pop: "selected = selectGroup latest ?groups" "waiter = queue ! firstOf firstByGroup selected"
    "rest = take (firstOf firstByGroup selected) queue @ drop (firstOf firstByGroup selected + 1) queue"
    using assms(2) by (auto simp: popFairWaiterLocked_def scan Let_def)
  have groups: "set met = (\<lambda>w. si_QueryGroup (qw_slot w)) ` set queue"
    using facts by (auto simp: scanned_def groupAt_def set_conv_nth)
  then have "?groups \<noteq> []" using assms(1) by (metis image_is_empty set_empty set_sort)
  then have "selected \<in> set met" using selectGroup_mem pop(1) by (metis set_sort)
  then obtain i where i: "firstByGroup selected = Some i" using facts unfolding scanned_def by blast
  then have early: "earliestAt queue (length queue) selected i" using facts by (auto simp: scanned_def)
  have "selected \<noteq> latest" if "w \<in> set queue" "si_QueryGroup (qw_slot w) \<noteq> latest" for w
    unfolding pop(1) by (rule selectGroup_next [of _ "si_QueryGroup (qw_slot w)"]) (use facts that groups in \<open>auto simp: scanned_def\<close>)
  moreover have "qw_deadline (queue ! i) \<le> qw_deadline w" if "w \<in> set queue" "si_QueryGroup (qw_slot w) = selected" for w
    using early that by (auto simp: earliestAt_def groupAt_def in_set_conv_nth)
  ultimately show ?thesis
    using early i pop(2,3) by (intro exI [of _ i]) (auto simp: firstOf_def earliestAt_def groupAt_def)
qed

lemma popFair_perm:
  assumes "queue \<noteq> []" "popFairWaiterLocked queue latest = (waiter, rest, selected)"
  shows "mset queue = add_mset waiter (mset rest)"
proof -
  obtain i where "i < length queue" "waiter = queue ! i" "rest = take i queue @ drop (i + 1) queue"
    using popFair_facts [OF assms] by blast
  then show ?thesis by (metis Suc_eq_plus1 id_take_nth_drop mset.simps(2) mset_append union_mset_add_mset_right)
qed

section \<open>Waiters and answers\<close>

definition allWaiters :: "FlightCoordinator \<Rightarrow> queryPermitWaiter list" where
  "allWaiters co = co_normalWaiters co @ co_recoveryWaiters co @ map fst (co_answers co)"

definition waiting :: "FlightCoordinator \<Rightarrow> bool" where
  "waiting co \<longleftrightarrow> co_normalWaiters co \<noteq> [] \<or> co_recoveryWaiters co \<noteq> []"

text \<open>A waiter is in one queue or has one answer, and no send has blocked.\<close>

definition refs_ok :: "FlightCoordinator \<Rightarrow> bool" where
  "refs_ok co \<longleftrightarrow> distinct (map qw_ref (allWaiters co)) \<and> (\<forall>w \<in> set (allWaiters co). qw_ref w < co_nextRef co)
     \<and> (\<forall>w \<in> set (co_normalWaiters co). qw_operation w = OperationNormal)
     \<and> (\<forall>w \<in> set (co_recoveryWaiters co). qw_operation w \<noteq> OperationNormal)
     \<and> distinct (map rw_ref (co_recoveryChannelWaiters co @ map fst (co_channelAnswers co)))
     \<and> (\<forall>w \<in> set (co_recoveryChannelWaiters co @ map fst (co_channelAnswers co)). rw_ref w < co_nextRef co)
     \<and> \<not> co_wouldBlock co"

lemma sendGrant_fresh:
  "qw_ref w \<notin> set (map (qw_ref \<circ> fst) (co_answers co)) \<Longrightarrow> sendGrant w p co = co\<lparr>co_answers := co_answers co @ [(w, p)]\<rparr>"
  by (simp add: sendGrant_def)

lemma fold_sendGrant:
  "distinct (map qw_ref ws) \<Longrightarrow> set (map qw_ref ws) \<inter> set (map (qw_ref \<circ> fst) (co_answers co)) = {} \<Longrightarrow>
   fold (\<lambda>w. sendGrant w None) ws co = co\<lparr>co_answers := co_answers co @ map (\<lambda>w. (w, None)) ws\<rparr>"
proof (induction ws arbitrary: co)
  case (Cons w ws)
  have "sendGrant w None co = co\<lparr>co_answers := co_answers co @ [(w, None)]\<rparr>"
    using Cons.prems(2) by (intro sendGrant_fresh) auto
  then show ?case
    using Cons.prems Cons.IH [of "co\<lparr>co_answers := co_answers co @ [(w, None)]\<rparr>"] by (auto simp: image_iff)
qed simp

lemma distinct_filter_refs: "distinct (map f xs) \<Longrightarrow> distinct (map f (filter P xs))"
  by (simp add: distinct_map inj_on_def)

lemma expire_eq:
  assumes "refs_ok co"
  shows "expireWaitersLocked now kind co =
    setQueue kind (filter (\<lambda>w. qw_deadline w > now) (queueOf kind co))
      (co\<lparr>co_answers := co_answers co @ map (\<lambda>w. (w, None)) (filter (\<lambda>w. \<not> qw_deadline w > now) (queueOf kind co))\<rparr>)"
proof -
  have "distinct (map qw_ref (queueOf kind co))"
    "set (map qw_ref (queueOf kind co)) \<inter> set (map (qw_ref \<circ> fst) (co_answers co)) = {}"
    using assms by (cases kind; auto simp: refs_ok_def allWaiters_def queueOf_def)+
  then have "fold (\<lambda>w. sendGrant w None) (filter (\<lambda>w. \<not> qw_deadline w > now) (queueOf kind co)) co =
    co\<lparr>co_answers := co_answers co @ map (\<lambda>w. (w, None)) (filter (\<lambda>w. \<not> qw_deadline w > now) (queueOf kind co))\<rparr>"
    by (intro fold_sendGrant distinct_filter_refs) auto
  then show ?thesis by (simp only: expireWaitersLocked_def Let_def)
qed

lemma expire_waiters:
  assumes "refs_ok co"
  shows "mset (allWaiters (expireWaitersLocked now kind co)) = mset (allWaiters co)"
proof -
  have "mset (filter (\<lambda>w. qw_deadline w > now) q) + mset (filter (\<lambda>w. \<not> qw_deadline w > now) q) = mset q" for q
    by (simp add: multiset_partition [symmetric])
  then show ?thesis
    unfolding expire_eq [OF assms]
    by (cases kind) (simp_all add: allWaiters_def setQueue_def queueOf_def add.assoc add.commute add.left_commute comp_def)
qed

section \<open>What dispatching leaves alone\<close>

definition frameOf :: "FlightCoordinator \<Rightarrow> _" where
  "frameOf co = (co_active co, co_told co, co_recoveryChannelWaiters co, co_recoveryInflight co, co_permitAcquires co,
     co_permitQueued co, co_lookbackInflight co, co_lookbackHeld co, co_closedYields co, co_channelAnswers co,
     co_channels co, co_lookbacks co, co_nextRef co)"

lemma frame_sendGrant [simp]: "frameOf (sendGrant w p co) = frameOf co"
  by (simp add: frameOf_def sendGrant_def)

lemma frame_setQueue [simp]: "frameOf (setQueue kind queue co) = frameOf co"
  by (cases kind) (simp_all add: frameOf_def setQueue_def)

lemma frame_expire [simp]: "frameOf (expireWaitersLocked now kind co) = frameOf co"
proof -
  have "frameOf (fold (\<lambda>w. sendGrant w None) ws c) = frameOf c" for ws c by (induction ws arbitrary: c) auto
  then show ?thesis by (simp add: expireWaitersLocked_def Let_def)
qed

lemma frame_grantNext [simp]: "frameOf (grantNext now co) = frameOf co"
  by (cases "co_recoveryWaiters co \<noteq> [] \<and> (co_normalWaiters co = [] \<or> co_nextRecovery co)")
    (simp_all add: grantNext_def Let_def case_prod_unfold setQueue_def, simp_all add: frameOf_def)

text \<open>
  The dispatch loop: what holds of the coordinator through expiring and granting holds after it,
  and it stops only when nobody waits or no permit is left.
\<close>

lemma dispatch_keeps [consumes 1, case_names expire grant]:
  assumes "Q co"
    and "\<And>t kind c. Q c \<Longrightarrow> Q (expireWaitersLocked t kind c)"
    and "\<And>t c. Q c \<Longrightarrow> waiting c \<Longrightarrow> co_queryInflight c < rl_ProcessQueryPermits limits \<Longrightarrow> Q (grantNext t c)"
  shows "Q (dispatchQueryPermitsLocked limits now k co)"
  using assms(1,3)
proof (induction limits now k co rule: dispatchQueryPermitsLocked.induct)
  case (1 limits now k co)
  let ?expired = "expireWaitersLocked (now (k + 1)) RecoveryQueue (expireWaitersLocked (now k) NormalQueue co)"
  have expired: "Q ?expired" by (intro assms(2) "1.prems"(1))
  show ?case
  proof (cases "co_queryInflight co < rl_ProcessQueryPermits limits \<and> waiting ?expired")
    case True
    then have "Q (dispatchQueryPermitsLocked limits now (k + 3) (grantNext (now (k + 2)) ?expired))"
      by (intro "1.IH" [OF _ refl] "1.prems"(2) expired) (auto simp: waiting_def)
    then show ?thesis
      using True by (subst dispatchQueryPermitsLocked.simps) (auto simp: Let_def waiting_def)
  next
    case False
    then show ?thesis
      using expired "1.prems"(1) by (subst dispatchQueryPermitsLocked.simps) (auto simp: Let_def waiting_def)
  qed
qed

lemma dispatch_full: "waiting (dispatchQueryPermitsLocked limits now k co) \<Longrightarrow>
    rl_ProcessQueryPermits limits \<le> co_queryInflight (dispatchQueryPermitsLocked limits now k co)"
proof (induction limits now k co rule: dispatchQueryPermitsLocked.induct)
  case (1 limits now k co)
  let ?expired = "expireWaitersLocked (now (k + 1)) RecoveryQueue (expireWaitersLocked (now k) NormalQueue co)"
  consider "\<not> co_queryInflight co < rl_ProcessQueryPermits limits"
    | "co_queryInflight co < rl_ProcessQueryPermits limits" "\<not> waiting ?expired"
    | "co_queryInflight co < rl_ProcessQueryPermits limits" "waiting ?expired" by blast
  then show ?case
  proof cases
    case 3
    then have "dispatchQueryPermitsLocked limits now k co =
        dispatchQueryPermitsLocked limits now (k + 3) (grantNext (now (k + 2)) ?expired)"
      by (subst dispatchQueryPermitsLocked.simps) (auto simp: Let_def waiting_def)
    moreover have "\<not> (co_recoveryWaiters ?expired = [] \<and> co_normalWaiters ?expired = [])" using 3(2) by (auto simp: waiting_def)
    ultimately show ?thesis using "1.IH" [OF 3(1) refl] "1.prems" by metis
  next
    case 2
    then have "dispatchQueryPermitsLocked limits now k co = ?expired"
      by (subst dispatchQueryPermitsLocked.simps) (auto simp: Let_def waiting_def)
    then show ?thesis using 2 "1.prems" by simp
  next
    case 1
    then have "dispatchQueryPermitsLocked limits now k co = co" by (subst dispatchQueryPermitsLocked.simps) simp
    then show ?thesis using 1 by simp
  qed
qed

lemma frame_dispatch [simp]: "frameOf (dispatchQueryPermitsLocked limits now k co) = frameOf co"
  using refl by (rule dispatch_keeps [where Q = "\<lambda>c. frameOf c = frameOf co"]) simp_all

lemma frame_eqD:
  assumes "frameOf co = frameOf co'"
  shows "co_active co = co_active co'" "co_told co = co_told co'"
    "co_recoveryChannelWaiters co = co_recoveryChannelWaiters co'" "co_recoveryInflight co = co_recoveryInflight co'"
    "co_lookbackInflight co = co_lookbackInflight co'" "co_lookbackHeld co = co_lookbackHeld co'"
    "co_closedYields co = co_closedYields co'" "co_channelAnswers co = co_channelAnswers co'"
    "co_channels co = co_channels co'" "co_lookbacks co = co_lookbacks co'" "co_nextRef co = co_nextRef co'"
  using assms by (simp_all add: frameOf_def)

lemmas frame_expire_simps [simp] = frame_eqD [OF frame_expire]
lemmas frame_grant_simps [simp] = frame_eqD [OF frame_grantNext]
lemmas frame_dispatch_simps [simp] = frame_eqD [OF frame_dispatch]
lemmas frame_setQueue_simps [simp] = frame_eqD [OF frame_setQueue]

section \<open>A grant\<close>

definition otherQueue :: "QueueKind \<Rightarrow> QueueKind" where
  "otherQueue kind = (case kind of NormalQueue \<Rightarrow> RecoveryQueue | RecoveryQueue \<Rightarrow> NormalQueue)"

lemma queue_simps [simp]:
  "queueOf kind (setQueue kind q co) = q" "queueOf (otherQueue kind) (setQueue kind q co) = queueOf (otherQueue kind) co"
  "co_answers (setQueue kind q co) = co_answers co" "co_permits (setQueue kind q co) = co_permits co"
  "co_wouldBlock (setQueue kind q co) = co_wouldBlock co" "co_queryInflight (setQueue kind q co) = co_queryInflight co"
  "co_inflightByOp (setQueue kind q co) = co_inflightByOp co"
  by (cases kind; simp add: queueOf_def setQueue_def otherQueue_def)+

lemma allWaiters_kind: "mset (allWaiters co) = mset (queueOf kind co) + mset (queueOf (otherQueue kind) co) + mset (map fst (co_answers co))"
  by (cases kind) (simp_all add: allWaiters_def queueOf_def otherQueue_def)

lemma waiting_kind: "waiting co \<longleftrightarrow> queueOf kind co \<noteq> [] \<or> queueOf (otherQueue kind) co \<noteq> []"
  by (cases kind) (auto simp: waiting_def queueOf_def otherQueue_def)

lemma grantNext_cases:
  assumes "refs_ok co" "waiting co"
  obtains kind w rest sequence where "queueOf kind co \<noteq> []" "mset (queueOf kind co) = add_mset w (mset rest)"
    "set rest \<subseteq> set (queueOf kind co)" "w \<in> set (queueOf kind co)"
    "queueOf kind (grantNext now co) = rest" "queueOf (otherQueue kind) (grantNext now co) = queueOf (otherQueue kind) co"
    "co_answers (grantNext now co) = co_answers co @ [(w, Some (length (co_permits co)))]"
    "co_permits (grantNext now co) = co_permits co @ [permitOf w (kind = RecoveryQueue) sequence]"
    "co_wouldBlock (grantNext now co) = co_wouldBlock co" "co_permitSequence (grantNext now co) = u64 (co_permitSequence co + 1)"
    "co_inflightByOp (grantNext now co) = (co_inflightByOp co)(qw_operation w := co_inflightByOp co (qw_operation w) + 1)"
proof -
  define use where "use \<longleftrightarrow> co_recoveryWaiters co \<noteq> [] \<and> (co_normalWaiters co = [] \<or> co_nextRecovery co)"
  define kind where "kind = (if use then RecoveryQueue else NormalQueue)"
  have turn: "(co_recoveryWaiters co \<noteq> [] \<and> (\<not> co_normalWaiters co \<noteq> [] \<or> co_nextRecovery co)) = use" by (simp add: use_def)
  have nonempty: "queueOf kind co \<noteq> []" using assms(2) by (auto simp: kind_def use_def waiting_def queueOf_def)
  obtain w rest selected where
    pop: "popFairWaiterLocked (queueOf kind co) (if use then co_lastRecoveryQG co else co_lastNormalQG co) = (w, rest, selected)"
    using prod_cases3 by blast
  have perm: "mset (queueOf kind co) = add_mset w (mset rest)" by (rule popFair_perm [OF nonempty pop])
  have sets: "w \<in> set (queueOf kind co)" "set rest \<subseteq> set (queueOf kind co)"
    using perm by (metis insert_iff set_mset_add_mset_insert set_mset_mset) (metis insert_iff perm set_mset_add_mset_insert set_mset_mset subsetI)
  have "qw_ref w \<notin> set (map (qw_ref \<circ> fst) (co_answers co))"
    using sets(1) assms(1) by (cases kind) (auto simp: refs_ok_def allWaiters_def queueOf_def)
  then have grant: "grantNext now co = (let sequence = u64 (co_permitSequence co + 1) in
      (if use then (setQueue kind rest co)\<lparr>co_lastRecoveryQG := selected, co_nextRecovery := False\<rparr>
       else (setQueue kind rest co)\<lparr>co_lastNormalQG := selected,
              co_nextRecovery := (if co_recoveryWaiters co \<noteq> [] then True else co_nextRecovery co)\<rparr>)
      \<lparr>co_queryInflight := co_queryInflight co + 1, co_permitSequence := sequence,
       co_permits := co_permits co @ [permitOf w use sequence],
       co_inflightByOp := (co_inflightByOp co)(qw_operation w := co_inflightByOp co (qw_operation w) + 1),
       co_heldPermits := AList.update sequence
         \<lparr>hp_operation = Some (qw_operation w), hp_since = now, hp_yield = None\<rparr> (co_heldPermits co),
       co_answers := co_answers co @ [(w, Some (length (co_permits co)))]\<rparr>)"
    unfolding grantNext_def Let_def turn kind_def [symmetric] pop prod.case
    by (cases use) (simp_all add: kind_def sendGrant_def setQueue_def)
  have use: "use = (kind = RecoveryQueue)" by (simp add: kind_def)
  show thesis
    by (rule that [OF nonempty perm sets(2,1)]) (cases kind; simp add: grant Let_def use setQueue_def queueOf_def otherQueue_def)+
qed

lemma grant_waiters:
  assumes "refs_ok co" "waiting co"
  shows "mset (allWaiters (grantNext now co)) = mset (allWaiters co)"
proof (cases rule: grantNext_cases [OF assms, of now])
  case (1 kind w rest sequence)
  then show ?thesis by (simp add: allWaiters_kind [of _ kind])
qed

section \<open>Every waiter is answered once\<close>

lemma refs_ok_perm:
  assumes "refs_ok co" "mset (allWaiters co') = mset (allWaiters co)" "co_nextRef co \<le> co_nextRef co'"
    and "set (co_normalWaiters co') \<subseteq> set (co_normalWaiters co)" "set (co_recoveryWaiters co') \<subseteq> set (co_recoveryWaiters co)"
    and "co_recoveryChannelWaiters co' = co_recoveryChannelWaiters co" "co_channelAnswers co' = co_channelAnswers co"
    and "co_wouldBlock co' = co_wouldBlock co"
  shows "refs_ok co'"
proof -
  have "distinct (map qw_ref (allWaiters co')) = distinct (map qw_ref (allWaiters co))"
    using assms(2) by (intro mset_eq_imp_distinct_iff) simp
  moreover have "set (allWaiters co') = set (allWaiters co)" using assms(2) by (rule mset_eq_setD)
  ultimately show ?thesis using assms unfolding refs_ok_def by (auto intro: less_le_trans)
qed

lemma refs_ok_expire: "refs_ok co \<Longrightarrow> refs_ok (expireWaitersLocked now kind co)"
  by (rule refs_ok_perm [OF _ expire_waiters]) (cases kind; auto simp: expire_eq setQueue_def queueOf_def)+

lemma refs_ok_grant: "refs_ok co \<Longrightarrow> waiting co \<Longrightarrow> refs_ok (grantNext now co)"
proof (rule grantNext_cases [where now = now], assumption+)
  fix kind w rest sequence
  assume "refs_ok co" "waiting co" "set rest \<subseteq> set (queueOf kind co)" "queueOf kind (grantNext now co) = rest"
    "queueOf (otherQueue kind) (grantNext now co) = queueOf (otherQueue kind) co" "co_wouldBlock (grantNext now co) = co_wouldBlock co"
  then show "refs_ok (grantNext now co)"
    by (intro refs_ok_perm [OF _ grant_waiters]) (cases kind; simp add: queueOf_def otherQueue_def)+
qed

lemma refs_ok_dispatch: "refs_ok co \<Longrightarrow> refs_ok (dispatchQueryPermitsLocked limits now k co)"
  by (rule dispatch_keeps [where Q = refs_ok]) (auto intro: refs_ok_expire refs_ok_grant)

lemma dispatch_waiters:
  assumes "refs_ok co"
  shows "mset (allWaiters (dispatchQueryPermitsLocked limits now k co)) = mset (allWaiters co)"
proof -
  have "refs_ok (dispatchQueryPermitsLocked limits now k co)
    \<and> mset (allWaiters (dispatchQueryPermitsLocked limits now k co)) = mset (allWaiters co)"
    by (rule dispatch_keeps [where Q = "\<lambda>c. refs_ok c \<and> mset (allWaiters c) = mset (allWaiters co)"])
      (use assms in \<open>simp_all add: refs_ok_expire refs_ok_grant expire_waiters grant_waiters\<close>)
  then show ?thesis ..
qed

section \<open>Counting what is held\<close>

definition heldWeight :: "QueryPermit \<Rightarrow> int" where "heldWeight p = (if pm_once p then 0 else 1)"
definition opWeight :: "Operation \<Rightarrow> QueryPermit \<Rightarrow> int" where
  "opWeight op p = (if pm_once p \<or> pm_operation p \<noteq> op then 0 else 1)"
definition lookWeight :: "LookbackPermit \<Rightarrow> int" where "lookWeight l = (if lp_once l then 0 else 1)"
definition chanWeight :: "RecoveryChannels \<Rightarrow> int" where "chanWeight c = (if rc_once c then 0 else rc_count c)"

definition weigh :: "('a \<Rightarrow> int) \<Rightarrow> 'a list \<Rightarrow> int" where "weigh f xs = sum_list (map f xs)"

lemma weigh_simps [simp]: "weigh f [] = 0" "weigh f (xs @ ys) = weigh f xs + weigh f ys" "weigh f (x # xs) = f x + weigh f xs"
  by (simp_all add: weigh_def)

lemma weigh_update: "p < length xs \<Longrightarrow> weigh f (xs[p := x]) = weigh f xs - f (xs ! p) + f x"
  by (simp add: weigh_def sum_update)

lemma weigh_perm: "mset xs = mset ys \<Longrightarrow> weigh f xs = weigh f ys"
  unfolding weigh_def by (rule sum_list_perm)

lemma weigh_nonneg: "(\<And>x. x \<in> set xs \<Longrightarrow> 0 \<le> f x) \<Longrightarrow> 0 \<le> weigh f xs"
  by (induction xs) (auto simp: weigh_def)

lemma weigh_ge:
  assumes "\<And>x. x \<in> set xs \<Longrightarrow> 0 \<le> f x" "p < length xs"
  shows "f (xs ! p) \<le> weigh f xs"
proof -
  have "xs = take p xs @ xs ! p # drop (Suc p) xs" using assms(2) by (rule id_take_nth_drop)
  then have "weigh f xs = weigh f (take p xs) + (f (xs ! p) + weigh f (drop (Suc p) xs))" by (metis weigh_simps(2,3))
  moreover have "0 \<le> weigh f (take p xs)" "0 \<le> weigh f (drop (Suc p) xs)"
    using assms(1) by (auto intro!: weigh_nonneg dest: in_set_takeD in_set_dropD)
  ultimately show ?thesis by linarith
qed

definition counts_ok :: "RecoveryLimits \<Rightarrow> FlightCoordinator \<Rightarrow> bool" where
  "counts_ok limits co \<longleftrightarrow>
     co_queryInflight co = weigh heldWeight (co_permits co) + weigh lookWeight (co_lookbacks co)
     \<and> co_lookbackInflight co = weigh lookWeight (co_lookbacks co)
     \<and> (\<forall>op. co_inflightByOp co op = weigh (opWeight op) (co_permits co))
     \<and> co_queryInflight co \<le> rl_ProcessQueryPermits limits"

definition channels_ok :: "RecoveryLimits \<Rightarrow> FlightCoordinator \<Rightarrow> bool" where
  "channels_ok limits co \<longleftrightarrow>
     co_recoveryInflight co = weigh chanWeight (co_channels co) \<and> co_recoveryInflight co \<le> rl_RecoveryQueryPermits limits
     \<and> (\<forall>c \<in> set (co_channels co). 0 < rc_count c) \<and> (\<forall>w \<in> set (co_recoveryChannelWaiters co). 0 < rw_maximum w)"

lemma expire_permits [simp]:
  "co_permits (expireWaitersLocked now kind co) = co_permits co"
  "co_inflightByOp (expireWaitersLocked now kind co) = co_inflightByOp co"
proof -
  have "co_permits (fold (\<lambda>w. sendGrant w None) ws c) = co_permits c
    \<and> co_inflightByOp (fold (\<lambda>w. sendGrant w None) ws c) = co_inflightByOp c" for ws c
    by (induction ws arbitrary: c) (auto simp: sendGrant_def)
  then show "co_permits (expireWaitersLocked now kind co) = co_permits co"
    "co_inflightByOp (expireWaitersLocked now kind co) = co_inflightByOp co"
    by (simp_all add: expireWaitersLocked_def Let_def)
qed

lemma counts_ok_grant:
  assumes "counts_ok limits co" "refs_ok co" "waiting co" "co_queryInflight co < rl_ProcessQueryPermits limits"
  shows "counts_ok limits (grantNext now co)"
proof (cases rule: grantNext_cases [OF assms(2,3), of now])
  case (1 kind w rest sequence)
  have "weigh heldWeight (co_permits (grantNext now co)) = weigh heldWeight (co_permits co) + 1"
    "weigh (opWeight op) (co_permits (grantNext now co)) = weigh (opWeight op) (co_permits co) + (if qw_operation w = op then 1 else 0)" for op
    unfolding 1(8) by (simp_all add: heldWeight_def opWeight_def permitOf_def)
  then show ?thesis using assms(1,4) 1(11) by (auto simp: counts_ok_def)
qed

lemma counts_ok_dispatch:
  assumes "counts_ok limits co" "refs_ok co"
  shows "counts_ok limits (dispatchQueryPermitsLocked limits now k co)"
proof -
  have "counts_ok limits (dispatchQueryPermitsLocked limits now k co) \<and> refs_ok (dispatchQueryPermitsLocked limits now k co)"
    by (rule dispatch_keeps [where Q = "\<lambda>c. counts_ok limits c \<and> refs_ok c"])
      (use assms in \<open>simp_all add: refs_ok_expire refs_ok_grant counts_ok_grant, simp add: counts_ok_def\<close>)
  then show ?thesis ..
qed

section \<open>Recovery channels\<close>

text \<open>One turn of the loop that hands out channels.\<close>

definition channelTurn :: "RecoveryLimits \<Rightarrow> int \<Rightarrow> recoveryChannelWaiter \<Rightarrow> recoveryChannelWaiter list \<Rightarrow> FlightCoordinator \<Rightarrow> FlightCoordinator" where
  "channelTurn limits t w ws co =
     (let popped = co\<lparr>co_recoveryChannelWaiters := ws\<rparr>
      in if \<not> rw_deadline w > t then sendChannels w None popped else grantChannels limits w popped)"

lemma channels_keep [consumes 1, case_names turn]:
  assumes "Q co"
    and "\<And>t w ws c. Q c \<Longrightarrow> co_recoveryChannelWaiters c = w # ws \<Longrightarrow> co_recoveryInflight c < rl_RecoveryQueryPermits limits \<Longrightarrow>
      Q (channelTurn limits t w ws c)"
  shows "Q (dispatchRecoveryChannelsLocked limits now k co)"
  using assms
proof (induction limits now k co rule: dispatchRecoveryChannelsLocked.induct)
  case (1 limits now k co)
  show ?case
  proof (cases "co_recoveryChannelWaiters co")
    case Nil
    then show ?thesis using "1.prems"(1) by (subst dispatchRecoveryChannelsLocked.simps) simp
  next
    case (Cons w ws)
    show ?thesis
    proof (cases "co_recoveryInflight co < rl_RecoveryQueryPermits limits")
      case True
      have "Q (dispatchRecoveryChannelsLocked limits now (k + 1) (channelTurn limits (now k) w ws co))"
        unfolding channelTurn_def by (rule "1.IH" [OF Cons True _ "1.prems"(2)])
          (use "1.prems"(2) [OF "1.prems"(1) Cons True] in \<open>simp_all add: channelTurn_def\<close>)
      then show ?thesis
        using Cons True by (subst dispatchRecoveryChannelsLocked.simps) (simp add: channelTurn_def)
    next
      case False
      then show ?thesis using Cons "1.prems"(1) by (subst dispatchRecoveryChannelsLocked.simps) simp
    qed
  qed
qed

lemma channels_full: "co_recoveryChannelWaiters (dispatchRecoveryChannelsLocked limits now k co) \<noteq> [] \<Longrightarrow>
    rl_RecoveryQueryPermits limits \<le> co_recoveryInflight (dispatchRecoveryChannelsLocked limits now k co)"
proof (induction limits now k co rule: dispatchRecoveryChannelsLocked.induct)
  case (1 limits now k co)
  show ?case
  proof (cases "co_recoveryChannelWaiters co")
    case Nil
    then show ?thesis using "1.prems" by (subst (asm) dispatchRecoveryChannelsLocked.simps) simp
  next
    case (Cons w ws)
    show ?thesis
    proof (cases "co_recoveryInflight co < rl_RecoveryQueryPermits limits")
      case True
      then have turn: "dispatchRecoveryChannelsLocked limits now k co =
          dispatchRecoveryChannelsLocked limits now (k + 1)
            (let popped = co\<lparr>co_recoveryChannelWaiters := ws\<rparr>
             in if \<not> rw_deadline w > now k then sendChannels w None popped else grantChannels limits w popped)"
        using Cons by (subst dispatchRecoveryChannelsLocked.simps) simp
      show ?thesis using "1.IH" [OF Cons True] "1.prems" unfolding turn by blast
    next
      case False
      then have "dispatchRecoveryChannelsLocked limits now k co = co"
        using Cons by (subst dispatchRecoveryChannelsLocked.simps) simp
      then show ?thesis using False by simp
    qed
  qed
qed

definition channelFrame :: "FlightCoordinator \<Rightarrow> _" where
  "channelFrame co = (co_active co, co_told co, co_normalWaiters co, co_recoveryWaiters co, co_queryInflight co,
     co_permitSequence co, co_inflightByOp co, co_lookbackInflight co, co_lookbackHeld co, co_closedYields co,
     co_answers co, co_permits co, co_lookbacks co, co_nextRef co)"

lemma channelFrame_turn: "channelFrame (channelTurn limits t w ws co) = channelFrame co"
  by (simp add: channelTurn_def Let_def sendChannels_def grantChannels_def channelFrame_def)

lemma channelFrame_dispatch: "channelFrame (dispatchRecoveryChannelsLocked limits now k co) = channelFrame co"
  using refl by (rule channels_keep [where Q = "\<lambda>c. channelFrame c = channelFrame co"]) (simp add: channelFrame_turn)

lemma channelFrame_eqD:
  assumes "channelFrame co = channelFrame co'"
  shows "co_active co = co_active co'" "co_told co = co_told co'" "co_normalWaiters co = co_normalWaiters co'"
    "co_recoveryWaiters co = co_recoveryWaiters co'" "co_queryInflight co = co_queryInflight co'"
    "co_permitSequence co = co_permitSequence co'" "co_inflightByOp co = co_inflightByOp co'"
    "co_lookbackInflight co = co_lookbackInflight co'" "co_lookbackHeld co = co_lookbackHeld co'"
    "co_closedYields co = co_closedYields co'" "co_answers co = co_answers co'" "co_permits co = co_permits co'"
    "co_lookbacks co = co_lookbacks co'" "co_nextRef co = co_nextRef co'"
  using assms by (simp_all add: channelFrame_def)

lemmas channelFrame_simps [simp] = channelFrame_eqD [OF channelFrame_dispatch] channelFrame_eqD [OF channelFrame_turn]

lemma channelTurn_eq:
  assumes "refs_ok co" "co_recoveryChannelWaiters co = w # ws"
  shows "channelTurn limits t w ws co =
    (if \<not> rw_deadline w > t
     then co\<lparr>co_recoveryChannelWaiters := ws, co_channelAnswers := co_channelAnswers co @ [(w, None)]\<rparr>
     else (let count = min (rw_maximum w) (rl_RecoveryQueryPermits limits - co_recoveryInflight co)
           in co\<lparr>co_recoveryChannelWaiters := ws, co_recoveryInflight := co_recoveryInflight co + count,
                 co_channels := co_channels co @
                   [\<lparr>rc_slot = rw_slot w, rc_operation = rw_operation w, rc_deadline = rw_deadline w,
                     rc_available = count, rc_count = count, rc_once = False\<rparr>],
                 co_channelAnswers := co_channelAnswers co @ [(w, Some (length (co_channels co)))]\<rparr>))"
  using assms by (auto simp: channelTurn_def Let_def sendChannels_def grantChannels_def refs_ok_def)

lemma refs_ok_turn:
  assumes "refs_ok co" "co_recoveryChannelWaiters co = w # ws"
  shows "refs_ok (channelTurn limits t w ws co)"
  using assms by (auto simp: channelTurn_eq Let_def refs_ok_def allWaiters_def)

lemma channels_ok_turn:
  assumes "channels_ok limits co" "refs_ok co" "co_recoveryChannelWaiters co = w # ws"
    and "co_recoveryInflight co < rl_RecoveryQueryPermits limits"
  shows "channels_ok limits (channelTurn limits t w ws co)"
  using assms by (auto simp: channelTurn_eq Let_def channels_ok_def chanWeight_def)

lemma channels_dispatch_ok:
  assumes "channels_ok limits co" "refs_ok co"
  shows "channels_ok limits (dispatchRecoveryChannelsLocked limits now k co)
    \<and> refs_ok (dispatchRecoveryChannelsLocked limits now k co)"
  by (rule channels_keep [where Q = "\<lambda>c. channels_ok limits c \<and> refs_ok c"])
    (use assms in \<open>simp_all add: refs_ok_turn channels_ok_turn\<close>)

end
