(* ===== verification/Permits_Inv.thy ===== *)
theory Permits_Inv
  imports Permits_Correct
begin

text \<open>
  The invariant of the \<open>FlightCoordinator\<close> and that every operation keeps it: waiters are answered
  once, the counts are the permits, channels and lookback permits held, nobody waits while a
  permit is free, and nobody waits while a lookback permit was not asked to yield.
\<close>

section \<open>The invariant\<close>

definition yields :: "FlightCoordinator \<Rightarrow> nat list" where
  "yields co = List.map_filter (hp_yield \<circ> snd) (co_lookbackHeld co)"

definition yields_ok :: "FlightCoordinator \<Rightarrow> bool" where
  "yields_ok co \<longleftrightarrow> distinct (yields co @ co_closedYields co)
     \<and> set (yields co @ co_closedYields co) \<subseteq> {..<length (co_lookbacks co)}"

definition channelIndex :: "nat \<Rightarrow> PermitChannel \<Rightarrow> bool" where
  "channelIndex n channel \<longleftrightarrow> (case channel of NoChannel \<Rightarrow> True | ViaChannel c \<Rightarrow> c < n | ViaOwnChannel c \<Rightarrow> c < n)"

lemma channelIndex_simps [simp]:
  "channelIndex n NoChannel" "channelIndex n (ViaChannel c) \<longleftrightarrow> c < n" "channelIndex n (ViaOwnChannel c) \<longleftrightarrow> c < n"
  by (simp_all add: channelIndex_def)

lemma channelIndex_mono: "channelIndex n channel \<Longrightarrow> n \<le> m \<Longrightarrow> channelIndex m channel"
  by (cases channel) auto

text \<open>Every reference is to an object that was made.\<close>

definition index_ok :: "FlightCoordinator \<Rightarrow> bool" where
  "index_ok co \<longleftrightarrow>
     (\<forall>w \<in> set (allWaiters co). channelIndex (length (co_channels co)) (qw_channel w))
     \<and> (\<forall>p \<in> set (co_permits co). channelIndex (length (co_channels co)) (pm_releaseChannel p))
     \<and> (\<forall>w p. (w, Some p) \<in> set (co_answers co) \<longrightarrow> p < length (co_permits co))
     \<and> (\<forall>w c. (w, Some c) \<in> set (co_channelAnswers co) \<longrightarrow> c < length (co_channels co))"

text \<open>As long as the sequence of the permits has not wrapped, a lookback permit held is asked to yield or can be.\<close>

definition issued :: "FlightCoordinator \<Rightarrow> nat" where
  "issued co = length (co_permits co) + length (co_lookbacks co)"

definition lookbacks_ok :: "FlightCoordinator \<Rightarrow> bool" where
  "lookbacks_ok co \<longleftrightarrow> (issued co < 2 ^ 64 \<longrightarrow>
     co_permitSequence co = issued co \<and> distinct (map lp_id (co_lookbacks co))
     \<and> (\<forall>l < length (co_lookbacks co). lp_id (co_lookbacks co ! l) \<le> issued co
          \<and> (\<not> lp_once (co_lookbacks co ! l) \<longrightarrow> l \<in> set (co_closedYields co)
               \<or> (\<exists>h. (lp_id (co_lookbacks co ! l), h) \<in> set (co_lookbackHeld co) \<and> hp_yield h = Some l))))"

definition core_ok :: "RecoveryLimits \<Rightarrow> FlightCoordinator \<Rightarrow> bool" where
  "core_ok limits co \<longleftrightarrow> refs_ok co \<and> counts_ok limits co \<and> channels_ok limits co \<and> yields_ok co \<and> index_ok co \<and> lookbacks_ok co"

definition full_ok :: "RecoveryLimits \<Rightarrow> FlightCoordinator \<Rightarrow> bool" where
  "full_ok limits co \<longleftrightarrow> (waiting co \<longrightarrow> rl_ProcessQueryPermits limits \<le> co_queryInflight co)
     \<and> (co_recoveryChannelWaiters co \<noteq> [] \<longrightarrow> rl_RecoveryQueryPermits limits \<le> co_recoveryInflight co)"

definition calm :: "FlightCoordinator \<Rightarrow> bool" where
  "calm co \<longleftrightarrow> (waiting co \<longrightarrow> yields co = [])"

definition coordinator_ok :: "RecoveryLimits \<Rightarrow> FlightCoordinator \<Rightarrow> bool" where
  "coordinator_ok limits co \<longleftrightarrow> core_ok limits co \<and> full_ok limits co \<and> calm co"

lemma new_ok: "NewFlightCoordinatorWithRecovery limits = Some co \<Longrightarrow> coordinator_ok limits co"
  by (auto simp: NewFlightCoordinatorWithRecovery_def coordinator_ok_def core_ok_def full_ok_def calm_def refs_ok_def
      counts_ok_def channels_ok_def yields_ok_def yields_def index_ok_def lookbacks_ok_def issued_def allWaiters_def waiting_def
      limitsValid_def map_filter_def split: if_splits)

section \<open>Dispatching permits\<close>

lemma queue_expire: "refs_ok co \<Longrightarrow> set (queueOf k (expireWaitersLocked now kind co)) \<subseteq> set (queueOf k co)"
  by (cases kind; cases k) (auto simp: expire_eq setQueue_def queueOf_def)

lemma queue_grant:
  assumes "refs_ok co" "waiting co"
  shows "set (queueOf k (grantNext now co)) \<subseteq> set (queueOf k co)"
proof (cases rule: grantNext_cases [OF assms, of now])
  case (1 kind w rest sequence)
  then show ?thesis by (cases kind; cases k) (auto simp: otherQueue_def)
qed

lemma queue_dispatch:
  assumes "refs_ok co"
  shows "set (queueOf kind (dispatchQueryPermitsLocked limits now k co)) \<subseteq> set (queueOf kind co)"
proof -
  have "refs_ok (dispatchQueryPermitsLocked limits now k co)
    \<and> set (queueOf kind (dispatchQueryPermitsLocked limits now k co)) \<subseteq> set (queueOf kind co)"
    by (rule dispatch_keeps [where Q = "\<lambda>c. refs_ok c \<and> set (queueOf kind c) \<subseteq> set (queueOf kind co)"])
      (use assms in simp, (meson queue_expire queue_grant refs_ok_expire refs_ok_grant subset_trans)+)
  then show ?thesis ..
qed

lemma waiting_queue: "waiting co \<longleftrightarrow> (\<exists>kind. set (queueOf kind co) \<noteq> {})"
proof
  assume "waiting co"
  then show "\<exists>kind. set (queueOf kind co) \<noteq> {}"
    by (auto simp: waiting_def queueOf_def intro: exI [of _ NormalQueue] exI [of _ RecoveryQueue])
next
  assume "\<exists>kind. set (queueOf kind co) \<noteq> {}"
  then obtain kind where "set (queueOf kind co) \<noteq> {}" ..
  then show "waiting co" by (cases kind) (auto simp: waiting_def queueOf_def)
qed

lemma waiting_dispatch: "refs_ok co \<Longrightarrow> waiting (dispatchQueryPermitsLocked limits now k co) \<Longrightarrow> waiting co"
  unfolding waiting_queue using queue_dispatch by (metis subset_empty)

lemma waiting_expire: "refs_ok co \<Longrightarrow> waiting (expireWaitersLocked now kind co) \<Longrightarrow> waiting co"
  unfolding waiting_queue using queue_expire by (metis subset_empty)

lemma index_ok_expire: "refs_ok co \<Longrightarrow> index_ok co \<Longrightarrow> index_ok (expireWaitersLocked now kind co)"
  using mset_eq_setD [OF expire_waiters, of co now kind]
  by (cases kind) (auto simp: index_ok_def, (auto simp: expire_eq)+)

lemma index_ok_grant:
  assumes "refs_ok co" "waiting co" "index_ok co"
  shows "index_ok (grantNext now co)"
proof (cases rule: grantNext_cases [OF assms(1,2), of now])
  case (1 kind w rest sequence)
  then show ?thesis
    using assms(3) mset_eq_setD [OF grant_waiters [OF assms(1,2), of now]]
    by (auto simp: index_ok_def permitOf_def less_Suc_eq)
qed

lemma lookbacks_ok_grant:
  assumes "refs_ok co" "waiting co" "lookbacks_ok co"
  shows "lookbacks_ok (grantNext now co)"
proof (cases rule: grantNext_cases [OF assms(1,2), of now])
  case (1 kind w rest sequence)
  have "issued (grantNext now co) = Suc (issued co)" using 1(8) by (simp add: issued_def)
  then show ?thesis using assms(3) 1(10) by (auto simp: lookbacks_ok_def u64_def)
qed

lemma sequence_expire [simp]: "co_permitSequence (expireWaitersLocked now kind co) = co_permitSequence co"
proof -
  have "co_permitSequence (fold (\<lambda>w. sendGrant w None) ws c) = co_permitSequence c" for ws c
    by (induction ws arbitrary: c) (auto simp: sendGrant_def)
  then show ?thesis by (cases kind) (simp_all add: expireWaitersLocked_def setQueue_def Let_def)
qed

lemma lookbacks_ok_expire [simp]: "lookbacks_ok (expireWaitersLocked now kind co) = lookbacks_ok co"
  by (simp add: lookbacks_ok_def issued_def)

lemma yields_frame: "frameOf co = frameOf co' \<Longrightarrow> yields co = yields co' \<and> yields_ok co = yields_ok co' \<and> channels_ok limits co = channels_ok limits co'"
  by (simp add: yields_ok_def yields_def channels_ok_def frame_eqD [of co co'])

lemma core_ok_expire: "core_ok limits co \<Longrightarrow> core_ok limits (expireWaitersLocked now kind co)"
  using yields_frame [OF frame_expire, of now kind co limits]
  by (auto simp: core_ok_def refs_ok_expire index_ok_expire counts_ok_def)

lemma core_ok_grant:
  "core_ok limits co \<Longrightarrow> waiting co \<Longrightarrow> co_queryInflight co < rl_ProcessQueryPermits limits \<Longrightarrow> core_ok limits (grantNext now co)"
  using yields_frame [OF frame_grantNext, of now co limits]
  by (auto simp: core_ok_def refs_ok_grant index_ok_grant counts_ok_grant lookbacks_ok_grant)

lemma core_ok_dispatch: "core_ok limits co \<Longrightarrow> core_ok limits (dispatchQueryPermitsLocked limits now k co)"
  by (rule dispatch_keeps [where Q = "core_ok limits"]) (auto intro: core_ok_expire core_ok_grant)

text \<open>After a dispatch the permits are all held or nobody waits; the rest of the invariant is left alone.\<close>

lemma query_dispatch_ok:
  assumes "core_ok limits co" "calm co"
    and "co_recoveryChannelWaiters co \<noteq> [] \<Longrightarrow> rl_RecoveryQueryPermits limits \<le> co_recoveryInflight co"
  shows "coordinator_ok limits (dispatchQueryPermitsLocked limits now k co)"
proof -
  have "refs_ok co" using assms(1) by (simp add: core_ok_def)
  then show ?thesis
    using assms core_ok_dispatch [OF assms(1)] dispatch_full [of limits now k co] waiting_dispatch [of co limits now k]
      yields_frame [OF frame_dispatch, of limits now k co]
    by (auto simp: coordinator_ok_def full_ok_def calm_def)
qed

lemma expire_ok: "coordinator_ok limits co \<Longrightarrow> coordinator_ok limits (expireWaitersLocked now kind co)"
  using core_ok_expire [of limits co now kind] waiting_expire [of co now kind] yields_frame [OF frame_expire, of now kind co]
  by (auto simp: coordinator_ok_def full_ok_def calm_def core_ok_def)

section \<open>Requests\<close>

lemma bump_ok: "core_ok limits co \<Longrightarrow> core_ok limits (co\<lparr>co_nextRef := co_nextRef co + 1\<rparr>)"
  by (auto simp: core_ok_def refs_ok_def counts_ok_def channels_ok_def yields_ok_def yields_def index_ok_def lookbacks_ok_def
      issued_def allWaiters_def less_Suc_eq)

lemma append_ok:
  assumes "core_ok limits co" "\<forall>v \<in> set (allWaiters co). qw_ref v < qw_ref w" "qw_ref w < co_nextRef co"
    and "channelIndex (length (co_channels co)) (qw_channel w)" "kind = (if qw_operation w \<noteq> OperationNormal then RecoveryQueue else NormalQueue)"
  shows "core_ok limits (setQueue kind (queueOf kind co @ [w]) co)"
proof -
  let ?co = "setQueue kind (queueOf kind co @ [w]) co"
  have perm: "mset (allWaiters ?co) = mset (w # allWaiters co)"
    by (cases kind) (simp_all add: allWaiters_def setQueue_def queueOf_def)
  then have waiters: "set (allWaiters ?co) = insert w (set (allWaiters co))" by (metis list.simps(15) mset_eq_setD)
  have "distinct (map qw_ref (allWaiters ?co)) = distinct (map qw_ref (w # allWaiters co))"
    using perm by (intro mset_eq_imp_distinct_iff) simp
  also have "\<dots>" using assms(1,2) by (force simp: core_ok_def refs_ok_def)
  finally have distinct: "distinct (map qw_ref (allWaiters ?co))" .
  have "refs_ok ?co"
    using assms(1,3,5) distinct waiters
    by (cases kind) (auto simp: core_ok_def refs_ok_def setQueue_def queueOf_def split: if_splits)
  moreover have "index_ok ?co" using assms(1,4) waiters by (auto simp: core_ok_def index_ok_def)
  moreover have "counts_ok limits ?co" "lookbacks_ok ?co"
    using assms(1) by (cases kind; simp add: core_ok_def counts_ok_def lookbacks_ok_def issued_def setQueue_def)+
  ultimately show ?thesis using assms(1) yields_frame [OF frame_setQueue, of kind _ co limits] by (simp add: core_ok_def)
qed

lemma yields_yield [simp]: "yields (yieldLookbackLocked co) = []"
  by (simp add: yields_def yieldLookbackLocked_def map_filter_def case_prod_unfold comp_def filter_empty_conv)

lemma core_ok_yield: "core_ok limits co \<Longrightarrow> core_ok limits (yieldLookbackLocked co)"
proof -
  assume ok: "core_ok limits co"
  have held: "set (yields co) = {y. \<exists>i h. (i, h) \<in> set (co_lookbackHeld co) \<and> hp_yield h = Some y}"
    by (force simp: yields_def map_filter_def)
  have same: "refs_ok (yieldLookbackLocked co)" "counts_ok limits (yieldLookbackLocked co)"
    "channels_ok limits (yieldLookbackLocked co)" "index_ok (yieldLookbackLocked co)"
    using ok by (simp_all add: core_ok_def refs_ok_def counts_ok_def channels_ok_def index_ok_def allWaiters_def yieldLookbackLocked_def)
  have closed: "co_closedYields (yieldLookbackLocked co) = co_closedYields co @ yields co"
    "co_lookbacks (yieldLookbackLocked co) = co_lookbacks co" "issued (yieldLookbackLocked co) = issued co"
    "co_permitSequence (yieldLookbackLocked co) = co_permitSequence co"
    by (simp_all add: yieldLookbackLocked_def yields_def issued_def)
  have "yields_ok (yieldLookbackLocked co)" using ok by (auto simp: core_ok_def yields_ok_def closed)
  moreover have "lookbacks_ok (yieldLookbackLocked co)"
    using ok unfolding core_ok_def lookbacks_ok_def closed set_append held by blast
  ultimately show ?thesis using same by (simp add: core_ok_def)
qed

lemma yield_fields [simp]:
  "co_queryInflight (yieldLookbackLocked co) = co_queryInflight co" "waiting (yieldLookbackLocked co) = waiting co"
  "co_recoveryChannelWaiters (yieldLookbackLocked co) = co_recoveryChannelWaiters co"
  "co_recoveryInflight (yieldLookbackLocked co) = co_recoveryInflight co"
  by (simp_all add: yieldLookbackLocked_def waiting_def)

text \<open>The counters of the requests are read by nothing.\<close>

lemma counters_ok [simp]:
  "core_ok limits (co\<lparr>co_permitAcquires := a\<rparr>) = core_ok limits co" "full_ok limits (co\<lparr>co_permitAcquires := a\<rparr>) = full_ok limits co"
  "calm (co\<lparr>co_permitAcquires := a\<rparr>) = calm co" "core_ok limits (co\<lparr>co_permitQueued := q\<rparr>) = core_ok limits co"
  "full_ok limits (co\<lparr>co_permitQueued := q\<rparr>) = full_ok limits co"
  by (simp_all add: core_ok_def full_ok_def calm_def refs_ok_def counts_ok_def channels_ok_def yields_ok_def yields_def
      index_ok_def lookbacks_ok_def issued_def allWaiters_def waiting_def)

lemma full_yield [simp]: "full_ok limits (yieldLookbackLocked co) = full_ok limits co"
  by (simp add: full_ok_def)

lemma enqueue_ok:
  assumes "coordinator_ok limits co0" "channelIndex (length (co_channels co0)) channel"
    and "enqueueQueryPermit limits now cancelled slot operation deadline channel co0 = (answer, co')"
  shows "coordinator_ok limits co'"
proof -
  define kind where "kind = (if operation \<noteq> OperationNormal then RecoveryQueue else NormalQueue)"
  define w where "w = \<lparr>qw_ref = co_nextRef co0, qw_slot = slot, qw_operation = operation, qw_deadline = deadline, qw_channel = channel\<rparr>"
  define bumped where "bumped = co0\<lparr>co_nextRef := co_nextRef co0 + 1\<rparr>"
  define co where "co = expireWaitersLocked (now 1) kind bumped"
  define co1 where "co1 = dispatchQueryPermitsLocked limits now 2 (setQueue kind (queueOf kind co @ [w]) co)"
  have bumped: "coordinator_ok limits bumped"
    using assms(1) bump_ok [of limits co0]
    by (simp add: coordinator_ok_def bumped_def full_ok_def calm_def waiting_def yields_def)
  then have co: "coordinator_ok limits co" unfolding co_def by (rule expire_ok)
  then have refs: "refs_ok co" "core_ok limits co" by (simp_all add: coordinator_ok_def core_ok_def)
  have fresh: "\<forall>v \<in> set (allWaiters co). qw_ref v < qw_ref w"
    using assms(1) mset_eq_setD [OF expire_waiters, of bumped "now 1" kind] bumped
    by (auto simp: coordinator_ok_def core_ok_def refs_ok_def w_def co_def bumped_def allWaiters_def)
  have added: "core_ok limits (setQueue kind (queueOf kind co @ [w]) co)"
    by (rule append_ok [OF refs(2) fresh]) (use assms(2) in \<open>simp_all add: w_def kind_def co_def bumped_def\<close>)
  have core1: "core_ok limits co1" unfolding co1_def by (rule core_ok_dispatch [OF added])
  have full1: "full_ok limits co1"
    using dispatch_full [of limits now 2 "setQueue kind (queueOf kind co @ [w]) co"] co
    by (auto simp: full_ok_def coordinator_ok_def co1_def)
  have calm1: "calm co1" if "qw_ref w \<notin> set (map qw_ref (queueOf kind co1))"
  proof -
    have "waiting co" if "waiting co1"
    proof -
      from that obtain k v where v: "v \<in> set (queueOf k co1)" unfolding waiting_queue by (metis ex_in_conv)
      then have "v \<in> set (queueOf k (setQueue kind (queueOf kind co @ [w]) co))"
        using queue_dispatch added unfolding co1_def core_ok_def by blast
      moreover have "v \<noteq> w \<or> k \<noteq> kind" using v \<open>qw_ref w \<notin> _\<close> by auto
      ultimately have "v \<in> set (queueOf k co)" by (cases k; cases kind) (auto simp: setQueue_def queueOf_def)
      then show ?thesis unfolding waiting_queue by (metis empty_iff)
    qed
    moreover have "yields co1 = yields co"
      using yields_frame [of co1 co] by (simp add: co1_def frame_dispatch)
    ultimately show ?thesis using co by (auto simp: calm_def coordinator_ok_def)
  qed
  have cases: "co' = co0 \<or> co' = co
    \<or> qw_ref w \<notin> set (map qw_ref (queueOf kind co1)) \<and> co' = co1\<lparr>co_permitAcquires := u64 (co_permitAcquires co1 + 1)\<rparr>
    \<or> (\<exists>q. co' = yieldLookbackLocked (co1\<lparr>co_permitAcquires := u64 (co_permitAcquires co1 + 1), co_permitQueued := q\<rparr>))"
    using assms(3)
    unfolding enqueueQueryPermit_def Let_def kind_def [symmetric] w_def [symmetric] bumped_def [symmetric] co_def [symmetric] co1_def [symmetric]
    by (simp split: if_splits) (metis (no_types))+
  have "coordinator_ok limits (co1\<lparr>co_permitAcquires := a\<rparr>)" if "qw_ref w \<notin> set (map qw_ref (queueOf kind co1))" for a
    using core1 full1 calm1 [OF that] by (simp add: coordinator_ok_def)
  moreover have "coordinator_ok limits (yieldLookbackLocked (co1\<lparr>co_permitAcquires := a, co_permitQueued := q\<rparr>))" for a q
    unfolding coordinator_ok_def using core1 full1 by (simp add: core_ok_yield calm_def)
  ultimately show ?thesis using cases co assms(1) by blast
qed

section \<open>Releases\<close>

lemma held_positive:
  assumes "p < length ps" "\<not> pm_once (ps ! p)"
  shows "1 \<le> weigh heldWeight ps" "1 \<le> weigh (opWeight (pm_operation (ps ! p))) ps"
  using weigh_ge [of ps heldWeight p] weigh_ge [of ps "opWeight (pm_operation (ps ! p))" p] assms
  by (simp_all add: heldWeight_def opWeight_def)

lemma look_nonneg: "0 \<le> weigh lookWeight ls"
  by (rule weigh_nonneg) (simp add: lookWeight_def)

text \<open>What is left alone by the invariant when only the permits and their counts change.\<close>

lemma permits_changed:
  assumes "core_ok limits co" "length ps = length (co_permits co)"
    and "\<forall>p \<in> set ps. channelIndex (length (co_channels co)) (pm_releaseChannel p)"
    and "counts_ok limits (co\<lparr>co_permits := ps, co_queryInflight := n, co_inflightByOp := byOp\<rparr>)"
  shows "core_ok limits (co\<lparr>co_permits := ps, co_queryInflight := n, co_inflightByOp := byOp, co_heldPermits := held\<rparr>)"
  using assms
  by (simp add: core_ok_def refs_ok_def counts_ok_def channels_ok_def yields_ok_def yields_def index_ok_def lookbacks_ok_def
      issued_def allWaiters_def)

lemma releaseQueryPermit_ok:
  assumes ok: "coordinator_ok limits co" and p: "p < length (co_permits co)" "\<not> pm_once (co_permits co ! p)"
  shows "coordinator_ok limits (releaseQueryPermit limits now (pm_operation (co_permits co ! p)) i
    (co\<lparr>co_permits := (co_permits co)[p := (co_permits co ! p)\<lparr>pm_once := True\<rparr>]\<rparr>))"
proof -
  let ?ps = "(co_permits co)[p := (co_permits co ! p)\<lparr>pm_once := True\<rparr>]"
  let ?op = "pm_operation (co_permits co ! p)"
  have counts: "counts_ok limits co" using ok by (simp add: coordinator_ok_def core_ok_def)
  then have positive: "0 < co_queryInflight co" "0 < co_inflightByOp co ?op"
    using held_positive [OF p] look_nonneg [of "co_lookbacks co"] by (simp_all add: counts_ok_def)
  have weights: "weigh heldWeight ?ps = weigh heldWeight (co_permits co) - 1"
    "weigh (opWeight op) ?ps = weigh (opWeight op) (co_permits co) - (if op = ?op then 1 else 0)" for op
    using p by (simp_all add: weigh_update heldWeight_def opWeight_def)
  have "pm_releaseChannel q \<in> pm_releaseChannel ` set (co_permits co)" if "q \<in> set ?ps" for q
    using that p(1) set_update_subset_insert [of "co_permits co" p] by force
  then have index: "\<forall>q \<in> set ?ps. channelIndex (length (co_channels co)) (pm_releaseChannel q)"
    using ok by (force simp: coordinator_ok_def core_ok_def index_ok_def)
  let ?mid = "co\<lparr>co_permits := ?ps, co_queryInflight := co_queryInflight co - 1,
    co_inflightByOp := (co_inflightByOp co)(?op := co_inflightByOp co ?op - 1), co_heldPermits := AList.delete i (co_heldPermits co)\<rparr>"
  have "core_ok limits ?mid"
    by (rule permits_changed) (use ok index counts weights in \<open>auto simp: coordinator_ok_def counts_ok_def\<close>)
  moreover have "calm ?mid" using ok by (simp add: coordinator_ok_def calm_def waiting_def yields_def)
  ultimately have "coordinator_ok limits (dispatchQueryPermitsLocked limits now 1 ?mid)"
    by (rule query_dispatch_ok) (use ok in \<open>simp add: coordinator_ok_def full_ok_def\<close>)
  then show ?thesis using positive by (simp add: releaseQueryPermit_def)
qed

lemma index_ok_turn:
  assumes "refs_ok co" "index_ok co" "co_recoveryChannelWaiters co = w # ws"
  shows "index_ok (channelTurn limits t w ws co)"
  using assms
  by (auto simp: channelTurn_eq Let_def index_ok_def allWaiters_def less_Suc_eq intro: channelIndex_mono)
    (metis UnI2 channelIndex_mono fst_conv image_eqI lessI less_imp_le_nat)

lemma core_ok_turn:
  assumes "core_ok limits co" "co_recoveryChannelWaiters co = w # ws" "co_recoveryInflight co < rl_RecoveryQueryPermits limits"
  shows "core_ok limits (channelTurn limits t w ws co)"
  using assms
  by (simp add: core_ok_def refs_ok_turn channels_ok_turn index_ok_turn)
    (simp add: counts_ok_def yields_ok_def yields_def lookbacks_ok_def issued_def)

lemma core_ok_channels: "core_ok limits co \<Longrightarrow> core_ok limits (dispatchRecoveryChannelsLocked limits now k co)"
  by (rule channels_keep [where Q = "core_ok limits"]) (auto intro: core_ok_turn)

lemma channels_dispatched:
  assumes "core_ok limits co" "calm co" "waiting co \<longrightarrow> rl_ProcessQueryPermits limits \<le> co_queryInflight co"
  shows "coordinator_ok limits (dispatchRecoveryChannelsLocked limits now k co)"
  using assms core_ok_channels [OF assms(1)] channels_full [of limits now k co]
  by (auto simp: coordinator_ok_def full_ok_def calm_def waiting_def yields_def)

lemma channels_changed:
  assumes "core_ok limits co" "length cs = length (co_channels co)"
    and "channels_ok limits (co\<lparr>co_channels := cs, co_recoveryInflight := n\<rparr>)"
  shows "core_ok limits (co\<lparr>co_channels := cs, co_recoveryInflight := n\<rparr>)"
  using assms
  by (simp add: core_ok_def refs_ok_def counts_ok_def channels_ok_def yields_ok_def yields_def index_ok_def lookbacks_ok_def
      issued_def allWaiters_def)

lemma releaseChannels_ok:
  assumes ok: "coordinator_ok limits co" and c: "c < length (co_channels co)"
  shows "coordinator_ok limits (releaseChannels limits now c co)"
proof (cases "rc_once (co_channels co ! c)")
  case False
  let ?cs = "(co_channels co)[c := (co_channels co ! c)\<lparr>rc_once := True\<rparr>]"
  let ?mid = "co\<lparr>co_channels := ?cs, co_recoveryInflight := co_recoveryInflight co - rc_count (co_channels co ! c)\<rparr>"
  have chan: "channels_ok limits co" using ok by (simp add: coordinator_ok_def core_ok_def)
  have "0 < rc_count (co_channels co ! c)" using chan c by (simp add: channels_ok_def)
  moreover have "weigh chanWeight ?cs = weigh chanWeight (co_channels co) - rc_count (co_channels co ! c)"
    using c False by (simp add: weigh_update chanWeight_def)
  moreover have "\<forall>x \<in> set ?cs. 0 < rc_count x"
    using chan c set_update_subset_insert [of "co_channels co" c] by (fastforce simp: channels_ok_def)
  ultimately have "core_ok limits ?mid"
    using chan ok by (intro channels_changed) (simp_all add: coordinator_ok_def channels_ok_def)
  then have "coordinator_ok limits (dispatchRecoveryChannelsLocked limits now 0 ?mid)"
    by (rule channels_dispatched) (use ok in \<open>simp_all add: coordinator_ok_def full_ok_def calm_def waiting_def yields_def\<close>)
  then show ?thesis using False by (simp add: releaseChannels_def Let_def)
qed (use ok in \<open>simp add: releaseChannels_def\<close>)

lemma returnPlace_ok:
  assumes ok: "coordinator_ok limits co" and c: "c < length (co_channels co)"
  shows "coordinator_ok limits (returnPlace c co)"
proof -
  let ?cs = "(co_channels co)[c := (co_channels co ! c)\<lparr>rc_available := rc_available (co_channels co ! c) + 1\<rparr>]"
  have chan: "channels_ok limits co" using ok by (simp add: coordinator_ok_def core_ok_def)
  have "weigh chanWeight ?cs = weigh chanWeight (co_channels co)" using c by (simp add: weigh_update chanWeight_def)
  moreover have "\<forall>x \<in> set ?cs. 0 < rc_count x"
    using chan c set_update_subset_insert [of "co_channels co" c] by (fastforce simp: channels_ok_def)
  ultimately have "core_ok limits (co\<lparr>co_channels := ?cs, co_recoveryInflight := co_recoveryInflight co\<rparr>)"
    using chan ok by (intro channels_changed) (simp_all add: coordinator_ok_def channels_ok_def)
  then show ?thesis
    using ok by (simp add: coordinator_ok_def returnPlace_def Let_def full_ok_def calm_def waiting_def yields_def)
qed

lemma returnChannel_ok:
  assumes "coordinator_ok limits co" "channelIndex (length (co_channels co)) channel"
  shows "coordinator_ok limits (returnChannel limits now channel co)"
  using assms
  by (cases channel) (auto simp: returnChannel_def intro!: returnPlace_ok releaseChannels_ok, simp add: returnPlace_def Let_def)

lemma channels_of_release [simp]: "co_channels (releaseQueryPermit limits now op i co) = co_channels co"
  by (simp add: releaseQueryPermit_def)

lemma releasePermit_ok:
  assumes ok: "coordinator_ok limits co" and p: "p < length (co_permits co)"
  shows "coordinator_ok limits (releasePermit limits now now' p co)"
proof (cases "pm_once (co_permits co ! p)")
  case False
  have "channelIndex (length (co_channels co)) (pm_releaseChannel (co_permits co ! p))"
    using ok p by (simp add: coordinator_ok_def core_ok_def index_ok_def)
  then show ?thesis
    using False releaseQueryPermit_ok [OF ok p False] by (auto simp: releasePermit_def Let_def intro!: returnChannel_ok)
qed (use ok in \<open>simp add: releasePermit_def\<close>)

section \<open>The ends of a wait\<close>

lemma remove1_filter: "distinct (map f xs) \<Longrightarrow> remove1 x xs = filter (\<lambda>y. y \<noteq> x) xs"
  by (auto simp: distinct_map distinct_remove1_removeAll removeAll_filter_not_eq intro: filter_cong)

lemma answers_distinct: "refs_ok co \<Longrightarrow> distinct (map (qw_ref \<circ> fst) (co_answers co))"
  "refs_ok co \<Longrightarrow> distinct (map (rw_ref \<circ> fst) (co_channelAnswers co))"
  by (simp_all add: refs_ok_def allWaiters_def)

lemma answers_irrelevant [simp]:
  "counts_ok limits (co\<lparr>co_answers := x\<rparr>) = counts_ok limits co" "counts_ok limits (co\<lparr>co_channelAnswers := y\<rparr>) = counts_ok limits co"
  "channels_ok limits (co\<lparr>co_answers := x\<rparr>) = channels_ok limits co"
  "channels_ok limits (co\<lparr>co_channelAnswers := y\<rparr>) = channels_ok limits co"
  "yields_ok (co\<lparr>co_answers := x\<rparr>) = yields_ok co" "yields_ok (co\<lparr>co_channelAnswers := y\<rparr>) = yields_ok co"
  "lookbacks_ok (co\<lparr>co_answers := x\<rparr>) = lookbacks_ok co" "lookbacks_ok (co\<lparr>co_channelAnswers := y\<rparr>) = lookbacks_ok co"
  "full_ok limits (co\<lparr>co_answers := x\<rparr>) = full_ok limits co" "full_ok limits (co\<lparr>co_channelAnswers := y\<rparr>) = full_ok limits co"
  "calm (co\<lparr>co_answers := x\<rparr>) = calm co" "calm (co\<lparr>co_channelAnswers := y\<rparr>) = calm co"
  by (simp_all add: counts_ok_def channels_ok_def yields_ok_def yields_def lookbacks_ok_def issued_def full_ok_def calm_def waiting_def)

lemma answer_taken:
  assumes "coordinator_ok limits co"
  shows "coordinator_ok limits (co\<lparr>co_answers := remove1 a (co_answers co)\<rparr>)"
proof -
  let ?co = "co\<lparr>co_answers := remove1 a (co_answers co)\<rparr>"
  have core: "core_ok limits co" and refs: "refs_ok co" using assms by (simp_all add: coordinator_ok_def core_ok_def)
  have filter: "remove1 a (co_answers co) = filter (\<lambda>b. b \<noteq> a) (co_answers co)"
    by (rule remove1_filter [OF answers_distinct(1) [OF refs]])
  have subset: "set (allWaiters ?co) \<subseteq> set (allWaiters co)" by (auto simp: allWaiters_def filter)
  have "distinct (map qw_ref (allWaiters ?co))"
    using refs distinct_filter_refs [of "qw_ref \<circ> fst" "co_answers co"]
    by (auto simp: refs_ok_def allWaiters_def filter)
  then have "refs_ok ?co" using refs subset by (auto simp: refs_ok_def)
  moreover have "index_ok ?co" using core subset by (auto simp: core_ok_def index_ok_def filter)
  ultimately show ?thesis
    using assms by (simp add: coordinator_ok_def core_ok_def)
qed

lemma channel_answer_taken:
  assumes "coordinator_ok limits co"
  shows "coordinator_ok limits (co\<lparr>co_channelAnswers := remove1 a (co_channelAnswers co)\<rparr>)"
proof -
  let ?co = "co\<lparr>co_channelAnswers := remove1 a (co_channelAnswers co)\<rparr>"
  have core: "core_ok limits co" and refs: "refs_ok co" using assms by (simp_all add: coordinator_ok_def core_ok_def)
  have filter: "remove1 a (co_channelAnswers co) = filter (\<lambda>b. b \<noteq> a) (co_channelAnswers co)"
    by (rule remove1_filter [OF answers_distinct(2) [OF refs]])
  have "refs_ok ?co"
    using refs distinct_filter_refs [of "rw_ref \<circ> fst" "co_channelAnswers co"]
    by (auto simp: refs_ok_def allWaiters_def filter)
  moreover have "index_ok ?co" using core by (auto simp: core_ok_def index_ok_def filter allWaiters_def)
  ultimately show ?thesis
    using assms by (simp add: coordinator_ok_def core_ok_def)
qed

lemma finishAcquire_ok:
  assumes "coordinator_ok limits co" "channelIndex (length (co_channels co)) channel"
    and "finishAcquire limits now channel (answer, co) = (answer', co')" "\<And>p. answer = Inr p \<Longrightarrow> p < length (co_permits co)"
  shows "coordinator_ok limits co'"
proof (cases answer)
  case (Inl e)
  then show ?thesis using assms(1-3) returnChannel_ok by (auto simp: finishAcquire_def)
next
  case (Inr p)
  then have p: "p < length (co_permits co)" using assms(4) by simp
  let ?ps = "(co_permits co)[p := (co_permits co ! p)\<lparr>pm_releaseChannel := channel\<rparr>]"
  have core: "core_ok limits co" using assms(1) by (simp add: coordinator_ok_def)
  have "weigh heldWeight ?ps = weigh heldWeight (co_permits co)" "weigh (opWeight op) ?ps = weigh (opWeight op) (co_permits co)" for op
    using p by (simp_all add: weigh_update heldWeight_def opWeight_def)
  moreover have "\<forall>q \<in> set ?ps. channelIndex (length (co_channels co)) (pm_releaseChannel q)"
    using core assms(2) set_update_subset_insert [of "co_permits co" p] by (fastforce simp: core_ok_def index_ok_def)
  ultimately have "core_ok limits (co\<lparr>co_permits := ?ps, co_queryInflight := co_queryInflight co,
      co_inflightByOp := co_inflightByOp co, co_heldPermits := co_heldPermits co\<rparr>)"
    using core by (intro permits_changed) (simp_all add: core_ok_def counts_ok_def)
  then show ?thesis
    using assms(1,3) Inr by (auto simp: finishAcquire_def coordinator_ok_def full_ok_def calm_def waiting_def yields_def)
qed

lemma channels_of_releases:
  "length (co_channels co) \<le> length (co_channels (returnChannel limits now channel co))"
  "length (co_channels co) \<le> length (co_channels (releasePermit limits now now' p co))"
proof -
  have turn: "length (co_channels d) \<le> length (co_channels (channelTurn limits t w ws d))" for t w ws d
    by (simp add: channelTurn_def Let_def sendChannels_def grantChannels_def)
  have dispatch: "length (co_channels c) \<le> length (co_channels (dispatchRecoveryChannelsLocked limits t k c))" for t k c
    by (rule channels_keep [where Q = "\<lambda>d. length (co_channels c) \<le> length (co_channels d)"])
      (rule order_refl, erule order_trans [OF _ turn])
  have rel: "length (co_channels c) \<le> length (co_channels (releaseChannels limits t k c))" for t k c
    using dispatch [of "c\<lparr>co_channels := (co_channels c)[k := (co_channels c ! k)\<lparr>rc_once := True\<rparr>],
      co_recoveryInflight := co_recoveryInflight c - rc_count (co_channels c ! k)\<rparr>" t 0]
    by (simp add: releaseChannels_def Let_def)
  have place: "length (co_channels (returnPlace k c)) = length (co_channels c)" for k c by (simp add: returnPlace_def Let_def)
  have return: "length (co_channels c) \<le> length (co_channels (returnChannel limits now channel c))" for now channel c
  proof (cases channel)
    case (ViaOwnChannel k)
    then show ?thesis using rel [of "returnPlace k c" now k] by (simp add: returnChannel_def place)
  qed (simp_all add: returnChannel_def place)
  then show "length (co_channels co) \<le> length (co_channels (returnChannel limits now channel co))" .
  show "length (co_channels co) \<le> length (co_channels (releasePermit limits now now' p co))"
    using return [where c = "releaseQueryPermit limits now (pm_operation (co_permits co ! p)) (pm_id (co_permits co ! p))
      (co\<lparr>co_permits := (co_permits co)[p := (co_permits co ! p)\<lparr>pm_once := True\<rparr>]\<rparr>)"]
    by (simp add: releasePermit_def Let_def)
qed

lemma receiveGrant_ok:
  assumes ok: "coordinator_ok limits co" and a: "(w, grant) \<in> set (co_answers co)"
    and "receiveGrant limits now now' (w, grant) co = (answer, co')"
  shows "coordinator_ok limits co'"
proof -
  let ?taken = "co\<lparr>co_answers := remove1 (w, grant) (co_answers co)\<rparr>"
  have taken: "coordinator_ok limits ?taken" by (rule answer_taken [OF ok])
  have "core_ok limits co" and w: "w \<in> set (allWaiters co)" using ok a by (force simp: coordinator_ok_def allWaiters_def)+
  then have index: "channelIndex (length (co_channels co)) (qw_channel w)" "grant = Some p \<Longrightarrow> p < length (co_permits co)" for p
    using a by (auto simp: core_ok_def index_ok_def)
  let ?late = "\<lambda>p. releasePermit limits (laterReads 1 now) now' p ?taken"
  obtain answer0 co0 where before: "(case grant of None \<Rightarrow> (Inl DeadlineExceeded, ?taken)
      | Some p \<Rightarrow> if \<not> qw_deadline w > now 0 then (Inl DeadlineExceeded, ?late p) else (Inr p, ?taken)) = (answer0, co0)"
    by fastforce
  have late: "coordinator_ok limits (?late p) \<and> channelIndex (length (co_channels (?late p))) (qw_channel w)" if "grant = Some p" for p
    using releasePermit_ok [OF taken] index that channels_of_releases(2) [of ?taken limits "laterReads 1 now" now' p]
    by (simp add: channelIndex_mono)
  have "coordinator_ok limits co0 \<and> channelIndex (length (co_channels co0)) (qw_channel w) \<and> (\<forall>p. answer0 = Inr p \<longrightarrow> p < length (co_permits co0))"
    using before taken index late by (cases grant) (auto split: if_splits)
  moreover have "finishAcquire limits now' (qw_channel w) (answer0, co0) = (answer, co')"
    using assms(3) before by (simp add: receiveGrant_def)
  ultimately show ?thesis by (blast intro: finishAcquire_ok)
qed

lemma answers_grow:
  assumes "refs_ok co"
  shows "set (co_answers co) \<subseteq> set (co_answers (dispatchQueryPermitsLocked limits now k co))"
proof -
  have expire: "set (co_answers c) \<subseteq> set (co_answers (expireWaitersLocked t kind c))" if "refs_ok c" for t kind c
    using that by (auto simp: expire_eq)
  have grant: "set (co_answers c) \<subseteq> set (co_answers (grantNext t c))" if "refs_ok c" "waiting c" for t c
    by (rule grantNext_cases [OF that, of t]) auto
  have "refs_ok (dispatchQueryPermitsLocked limits now k co)
    \<and> set (co_answers co) \<subseteq> set (co_answers (dispatchQueryPermitsLocked limits now k co))"
    by (rule dispatch_keeps [where Q = "\<lambda>c. refs_ok c \<and> set (co_answers co) \<subseteq> set (co_answers c)"])
      (use assms in simp, (meson expire grant refs_ok_expire refs_ok_grant subset_trans)+)
  then show ?thesis ..
qed

lemma waiter_left:
  assumes "coordinator_ok limits co"
  shows "coordinator_ok limits (dispatchQueryPermitsLocked limits now k (setQueue kind (remove1 w (queueOf kind co)) co))"
proof -
  let ?co = "setQueue kind (filter (\<lambda>v. v \<noteq> w) (queueOf kind co)) co"
  have core: "core_ok limits co" and refs: "refs_ok co" using assms by (simp_all add: coordinator_ok_def core_ok_def)
  have "distinct (map qw_ref (queueOf kind co))" using refs by (cases kind) (simp_all add: refs_ok_def allWaiters_def queueOf_def)
  then have filter: "remove1 w (queueOf kind co) = filter (\<lambda>v. v \<noteq> w) (queueOf kind co)" by (rule remove1_filter)
  have subset: "set (allWaiters ?co) \<subseteq> set (allWaiters co)"
    by (cases kind) (auto simp: allWaiters_def setQueue_def queueOf_def)
  have "distinct (map qw_ref (allWaiters ?co))"
    using refs by (cases kind) (auto simp: refs_ok_def allWaiters_def setQueue_def queueOf_def distinct_filter_refs)
  then have "refs_ok ?co"
    using refs subset by (cases kind) (auto simp: refs_ok_def setQueue_def queueOf_def)
  moreover have "index_ok ?co" using core subset by (auto simp: core_ok_def index_ok_def)
  moreover have "counts_ok limits ?co" "lookbacks_ok ?co"
    using core by (cases kind; simp add: core_ok_def counts_ok_def lookbacks_ok_def issued_def setQueue_def)+
  ultimately have left: "core_ok limits ?co"
    using core yields_frame [OF frame_setQueue, of kind _ co limits] by (simp add: core_ok_def)
  have "waiting co" if "waiting ?co" using that by (cases kind) (auto simp: waiting_def setQueue_def queueOf_def)
  then have "calm ?co" using assms yields_frame [OF frame_setQueue, of kind _ co] by (auto simp: calm_def coordinator_ok_def)
  with left show ?thesis unfolding filter by (rule query_dispatch_ok) (use assms in \<open>simp add: coordinator_ok_def full_ok_def\<close>)
qed

lemma abandonWait_ok:
  assumes ok: "coordinator_ok limits co" and w: "w \<in> set (allWaiters co)"
  shows "\<exists>answer co'. abandonWait limits now now' now'' e w co = Some (answer, co') \<and> coordinator_ok limits co'"
proof -
  define kind where "kind = (if qw_operation w \<noteq> OperationNormal then RecoveryQueue else NormalQueue)"
  define left where "left = dispatchQueryPermitsLocked limits now 0 (setQueue kind (remove1 w (queueOf kind co)) co)"
  have left: "coordinator_ok limits left" unfolding left_def by (rule waiter_left [OF ok])
  have core: "core_ok limits co" and refs: "refs_ok co" using ok by (simp_all add: coordinator_ok_def core_ok_def)
  have index: "channelIndex (length (co_channels co)) (qw_channel w)" using core w by (simp add: core_ok_def index_ok_def)
  have same: "co_channels left = co_channels co" by (simp add: left_def)
  have finish: "coordinator_ok limits (snd (finishAcquire limits now'' (qw_channel w) (Inl e, c)))"
    if "coordinator_ok limits c" "length (co_channels co) \<le> length (co_channels c)" for c
    by (rule finishAcquire_ok [OF that(1) channelIndex_mono [OF index that(2)] prod.collapse [symmetric]]) simp
  show ?thesis
  proof (cases "w \<in> set (queueOf kind co)")
    case True
    then have "abandonWait limits now now' now'' e w co = Some (finishAcquire limits now'' (qw_channel w) (Inl e, left))"
      by (simp add: abandonWait_def Let_def kind_def [symmetric] left_def [symmetric])
    then show ?thesis using finish [OF left] same by (metis order_refl prod.collapse)
  next
    case False
    then have "left = dispatchQueryPermitsLocked limits now 0 co"
      by (cases kind) (simp_all add: left_def remove1_idem setQueue_def queueOf_def)
    moreover have "w \<in> set (map fst (co_answers co))"
      using w False refs by (cases kind) (auto simp: kind_def allWaiters_def refs_ok_def queueOf_def split: if_splits)
    ultimately have "\<exists>a \<in> set (co_answers left). qw_ref (fst a) = qw_ref w" using answers_grow [OF refs, of limits now 0] by fastforce
    then obtain a where a: "List.find (\<lambda>a. qw_ref (fst a) = qw_ref w) (co_answers left) = Some a"
      by (cases "List.find (\<lambda>a. qw_ref (fst a) = qw_ref w) (co_answers left)") (auto simp: find_None_iff)
    let ?taken = "left\<lparr>co_answers := remove1 a (co_answers left)\<rparr>"
    have taken: "coordinator_ok limits ?taken" by (rule answer_taken [OF left])
    have found: "a \<in> set (co_answers left)" using a by (auto simp: find_Some_iff)
    define after where "after = (case snd a of None \<Rightarrow> ?taken | Some p \<Rightarrow> releasePermit limits now' now'' p ?taken)"
    have after: "coordinator_ok limits after \<and> length (co_channels co) \<le> length (co_channels after)"
    proof (cases "snd a")
      case None
      then show ?thesis using taken same by (simp add: after_def)
    next
      case (Some p)
      then have "(fst a, Some p) \<in> set (co_answers left)" using found by (metis prod.collapse)
      then have "p < length (co_permits ?taken)" using left by (auto simp: coordinator_ok_def core_ok_def index_ok_def)
      then show ?thesis
        using releasePermit_ok [OF taken] channels_of_releases(2) [of ?taken limits now' now'' p] same Some by (simp add: after_def)
    qed
    have "abandonWait limits now now' now'' e w co = Some (finishAcquire limits now'' (qw_channel w) (Inl e, after))"
      using False a by (simp add: abandonWait_def Let_def kind_def [symmetric] left_def [symmetric] after_def split: option.split)
    then show ?thesis using finish after by (metis prod.collapse)
  qed
qed

section \<open>Channels: requests and ends of a wait\<close>

lemma channel_waiter_refs:
  assumes "refs_ok co" "rw_ref w = co_nextRef co"
  shows "refs_ok (co\<lparr>co_nextRef := co_nextRef co + 1, co_recoveryChannelWaiters := co_recoveryChannelWaiters co @ [w]\<rparr>)"
proof -
  have bounds: "\<forall>v \<in> set (co_recoveryChannelWaiters co @ map fst (co_channelAnswers co)). rw_ref v < co_nextRef co"
    using assms(1) unfolding refs_ok_def by blast
  then have "rw_ref w \<notin> set (map rw_ref (co_recoveryChannelWaiters co @ map fst (co_channelAnswers co)))"
    using assms(2) unfolding set_map by (metis imageE less_irrefl)
  then have "distinct (map rw_ref ((co_recoveryChannelWaiters co @ [w]) @ map fst (co_channelAnswers co)))"
    using assms(1) unfolding refs_ok_def by auto
  moreover have "\<forall>v \<in> set ((co_recoveryChannelWaiters co @ [w]) @ map fst (co_channelAnswers co)). rw_ref v < co_nextRef co + 1"
    using bounds assms(2) by (auto intro: less_SucI)
  moreover have "\<forall>v \<in> set (allWaiters co). qw_ref v < co_nextRef co + 1" using assms(1) by (auto simp: refs_ok_def intro: less_SucI)
  ultimately show ?thesis using assms(1) unfolding refs_ok_def allWaiters_def by simp
qed

lemma channel_waiter_added:
  assumes "core_ok limits co" "rw_ref w = co_nextRef co" "0 < rw_maximum w"
  shows "core_ok limits (co\<lparr>co_nextRef := co_nextRef co + 1, co_recoveryChannelWaiters := co_recoveryChannelWaiters co @ [w]\<rparr>)"
proof -
  let ?co = "co\<lparr>co_nextRef := co_nextRef co + 1, co_recoveryChannelWaiters := co_recoveryChannelWaiters co @ [w]\<rparr>"
  have "channels_ok limits ?co" using assms(1,3) by (auto simp: core_ok_def channels_ok_def)
  moreover have "counts_ok limits ?co = counts_ok limits co" "yields_ok ?co = yields_ok co" "index_ok ?co = index_ok co"
    "lookbacks_ok ?co = lookbacks_ok co"
    by (simp_all add: counts_ok_def yields_ok_def yields_def index_ok_def lookbacks_ok_def issued_def allWaiters_def)
  ultimately show ?thesis using assms(1) channel_waiter_refs [OF _ assms(2)] by (simp add: core_ok_def)
qed

lemma enqueueChannels_ok:
  assumes ok: "coordinator_ok limits co0"
    and "enqueueRecoveryChannels limits now cancelled slot operation deadline maximum co0 = (answer, co')"
  shows "coordinator_ok limits co'"
proof -
  define w where "w = \<lparr>rw_ref = co_nextRef co0, rw_slot = slot, rw_operation = operation, rw_deadline = deadline, rw_maximum = maximum\<rparr>"
  let ?bumped = "co0\<lparr>co_nextRef := co_nextRef co0 + 1\<rparr>"
  let ?added = "co0\<lparr>co_nextRef := co_nextRef co0 + 1, co_recoveryChannelWaiters := co_recoveryChannelWaiters co0 @ [w]\<rparr>"
  have core: "core_ok limits co0" using ok by (simp add: coordinator_ok_def)
  have bumped: "coordinator_ok limits ?bumped"
    using ok bump_ok [OF core] by (simp add: coordinator_ok_def full_ok_def calm_def waiting_def yields_def)
  have "coordinator_ok limits (dispatchRecoveryChannelsLocked limits now 1 ?added)" if "0 < maximum"
    by (rule channels_dispatched [OF channel_waiter_added [OF core]])
      (use ok that in \<open>simp_all add: w_def coordinator_ok_def calm_def full_ok_def waiting_def yields_def\<close>)
  moreover have "co' = co0 \<or> co' = ?bumped \<or> 0 < maximum \<and> co' = dispatchRecoveryChannelsLocked limits now 1 ?added"
    using assms(2) unfolding enqueueRecoveryChannels_def Let_def w_def [symmetric]
    by (simp split: if_splits)
  ultimately show ?thesis using ok bumped by blast
qed

lemma receiveChannels_ok:
  assumes "coordinator_ok limits co" "(w, grant) \<in> set (co_channelAnswers co)"
    and "receiveChannels limits now cancelled (w, grant) co = (answer, co')"
  shows "coordinator_ok limits co'"
proof -
  let ?taken = "co\<lparr>co_channelAnswers := remove1 (w, grant) (co_channelAnswers co)\<rparr>"
  have taken: "coordinator_ok limits ?taken" by (rule channel_answer_taken [OF assms(1)])
  have "c < length (co_channels ?taken)" if "grant = Some c" for c
    using assms(1,2) that by (auto simp: coordinator_ok_def core_ok_def index_ok_def)
  then have released: "coordinator_ok limits (releaseChannels limits t c ?taken)" if "grant = Some c" for c t
    using releaseChannels_ok [OF taken] that by blast
  show ?thesis
    using assms(3) taken released by (cases grant) (auto simp: receiveChannels_def Let_def split: if_splits)
qed

lemma channelAnswers_grow:
  assumes "refs_ok co"
  shows "set (co_channelAnswers co) \<subseteq> set (co_channelAnswers (dispatchRecoveryChannelsLocked limits now k co))"
proof -
  have "refs_ok (dispatchRecoveryChannelsLocked limits now k co)
    \<and> set (co_channelAnswers co) \<subseteq> set (co_channelAnswers (dispatchRecoveryChannelsLocked limits now k co))"
  proof (rule channels_keep [where Q = "\<lambda>c. refs_ok c \<and> set (co_channelAnswers co) \<subseteq> set (co_channelAnswers c)"])
    show "refs_ok co \<and> set (co_channelAnswers co) \<subseteq> set (co_channelAnswers co)" using assms by simp
  next
    fix t w ws c
    assume "refs_ok c \<and> set (co_channelAnswers co) \<subseteq> set (co_channelAnswers c)" "co_recoveryChannelWaiters c = w # ws"
    then show "refs_ok (channelTurn limits t w ws c) \<and> set (co_channelAnswers co) \<subseteq> set (co_channelAnswers (channelTurn limits t w ws c))"
      using refs_ok_turn by (auto simp: channelTurn_eq Let_def)
  qed
  then show ?thesis ..
qed

lemma abandonChannels_ok:
  assumes ok: "coordinator_ok limits co" and w: "w \<in> set (co_recoveryChannelWaiters co @ map fst (co_channelAnswers co))"
  shows "\<exists>co'. abandonChannels limits now now' w co = Some co' \<and> coordinator_ok limits co'"
proof -
  define left where "left = dispatchRecoveryChannelsLocked limits now 0
    (co\<lparr>co_recoveryChannelWaiters := remove1 w (co_recoveryChannelWaiters co)\<rparr>)"
  let ?co = "co\<lparr>co_recoveryChannelWaiters := remove1 w (co_recoveryChannelWaiters co)\<rparr>"
  have core: "core_ok limits co" and refs: "refs_ok co" using ok by (simp_all add: coordinator_ok_def core_ok_def)
  have "distinct (map rw_ref (co_recoveryChannelWaiters co))" using refs by (simp add: refs_ok_def)
  then have filter: "remove1 w (co_recoveryChannelWaiters co) = filter (\<lambda>v. v \<noteq> w) (co_recoveryChannelWaiters co)" by (rule remove1_filter)
  have refs': "refs_ok ?co" using refs by (auto simp: refs_ok_def filter allWaiters_def distinct_filter_refs)
  moreover have "channels_ok limits ?co" using core by (auto simp: core_ok_def channels_ok_def filter)
  ultimately have "core_ok limits ?co"
    using core by (simp add: core_ok_def counts_ok_def yields_ok_def yields_def index_ok_def lookbacks_ok_def issued_def allWaiters_def)
  then have left: "coordinator_ok limits left"
    unfolding left_def
    by (rule channels_dispatched) (use ok in \<open>simp_all add: coordinator_ok_def calm_def full_ok_def waiting_def yields_def\<close>)
  show ?thesis
  proof (cases "w \<in> set (co_recoveryChannelWaiters co)")
    case True
    then show ?thesis using left by (simp add: abandonChannels_def Let_def left_def [symmetric])
  next
    case False
    then have "\<exists>a \<in> set (co_channelAnswers left). rw_ref (fst a) = rw_ref w"
      using w channelAnswers_grow [OF refs', of limits now 0] unfolding left_def by fastforce
    then obtain a where a: "List.find (\<lambda>a. rw_ref (fst a) = rw_ref w) (co_channelAnswers left) = Some a"
      by (cases "List.find (\<lambda>a. rw_ref (fst a) = rw_ref w) (co_channelAnswers left)") (auto simp: find_None_iff)
    let ?taken = "left\<lparr>co_channelAnswers := remove1 a (co_channelAnswers left)\<rparr>"
    have taken: "coordinator_ok limits ?taken" by (rule channel_answer_taken [OF left])
    have found: "a \<in> set (co_channelAnswers left)" using a by (auto simp: find_Some_iff)
    have "c < length (co_channels ?taken)" if "snd a = Some c" for c
      using left found that by (cases a) (auto simp: coordinator_ok_def core_ok_def index_ok_def)
    then have "coordinator_ok limits (releaseChannels limits now' c ?taken)" if "snd a = Some c" for c
      using releaseChannels_ok [OF taken] that by blast
    then show ?thesis
      using False a taken by (cases "snd a") (simp_all add: abandonChannels_def Let_def left_def [symmetric])
  qed
qed

lemma requestThrough_ok:
  assumes ok: "coordinator_ok limits co" and c: "c < length (co_channels co)" "channel \<in> {ViaChannel c, ViaOwnChannel c}"
    and "requestThrough limits now now' cancelled slot operation deadline channel c co = (answer, co')"
  shows "coordinator_ok limits co'"
proof -
  let ?cs = "(co_channels co)[c := (co_channels co ! c)\<lparr>rc_available := rc_available (co_channels co ! c) - 1\<rparr>]"
  let ?taken = "co\<lparr>co_channels := ?cs\<rparr>"
  have chan: "channels_ok limits co" using ok by (simp add: coordinator_ok_def core_ok_def)
  have "weigh chanWeight ?cs = weigh chanWeight (co_channels co)" using c by (simp add: weigh_update chanWeight_def)
  moreover have "\<forall>x \<in> set ?cs. 0 < rc_count x"
    using chan c(1) set_update_subset_insert [of "co_channels co" c] by (fastforce simp: channels_ok_def)
  ultimately have "core_ok limits (co\<lparr>co_channels := ?cs, co_recoveryInflight := co_recoveryInflight co\<rparr>)"
    using chan ok by (intro channels_changed) (simp_all add: coordinator_ok_def channels_ok_def)
  then have taken: "coordinator_ok limits ?taken" using ok by (simp add: coordinator_ok_def full_ok_def calm_def waiting_def yields_def)
  obtain answer0 co0 where call: "enqueueQueryPermit limits now cancelled slot operation deadline channel ?taken = (answer0, co0)" by fastforce
  have index: "channelIndex (length (co_channels ?taken)) channel" using c by auto
  have "co_channels co0 = co_channels ?taken"
    using call by (auto simp: enqueueQueryPermit_def Let_def yieldLookbackLocked_def split: if_splits)
  then have "channelIndex (length (co_channels co0)) channel" using index by simp
  then show ?thesis
    using enqueue_ok [OF taken index call] call assms(4) returnChannel_ok
    by (auto simp: requestThrough_def Let_def split: sum.splits)
qed

section \<open>Lookback permits\<close>

lemma update_kept: "(i, h) \<in> set held \<Longrightarrow> i \<noteq> k \<Longrightarrow> (i, h) \<in> set (AList.update k v held)"
  by (induction held) auto

lemma update_new: "(k, v) \<in> set (AList.update k v held)"
  by (induction held) auto

lemma yields_update:
  assumes "distinct (List.map_filter (hp_yield \<circ> snd) held)" "y \<notin> set (List.map_filter (hp_yield \<circ> snd) held)" "hp_yield h = Some y"
  shows "distinct (List.map_filter (hp_yield \<circ> snd) (AList.update k h held))
    \<and> set (List.map_filter (hp_yield \<circ> snd) (AList.update k h held)) \<subseteq> insert y (set (List.map_filter (hp_yield \<circ> snd) held))"
  using assms by (induction held) (force simp: map_filter_simps split: option.splits)+

lemma yields_delete:
  "set (List.map_filter (hp_yield \<circ> snd) (AList.delete k held)) \<subseteq> set (List.map_filter (hp_yield \<circ> snd) held)"
  "distinct (List.map_filter (hp_yield \<circ> snd) held) \<Longrightarrow> distinct (List.map_filter (hp_yield \<circ> snd) (AList.delete k held))"
proof -
  show subset: "set (List.map_filter (hp_yield \<circ> snd) (AList.delete k held)) \<subseteq> set (List.map_filter (hp_yield \<circ> snd) held)" for held
    by (induction held) (auto simp: map_filter_simps split: option.splits)
  show "distinct (List.map_filter (hp_yield \<circ> snd) held) \<Longrightarrow> distinct (List.map_filter (hp_yield \<circ> snd) (AList.delete k held))"
    using subset by (induction held) (fastforce simp: map_filter_simps split: option.splits)+
qed

lemma lookback_granted:
  assumes ok: "coordinator_ok limits co" and idle: "\<not> waiting co" and free: "co_queryInflight co < rl_ProcessQueryPermits limits"
    and co': "co' = co\<lparr>co_queryInflight := co_queryInflight co + 1, co_lookbackInflight := co_lookbackInflight co + 1,
      co_permitSequence := u64 (co_permitSequence co + 1),
      co_lookbacks := co_lookbacks co @ [\<lparr>lp_id = u64 (co_permitSequence co + 1), lp_once = False\<rparr>],
      co_lookbackHeld := AList.update (u64 (co_permitSequence co + 1))
        \<lparr>hp_operation = None, hp_since = since, hp_yield = Some (length (co_lookbacks co))\<rparr> (co_lookbackHeld co)\<rparr>"
  shows "coordinator_ok limits co'"
proof -
  have core: "core_ok limits co" using ok by (simp add: coordinator_ok_def)
  have old: "distinct (yields co)" "set (yields co) \<inter> set (co_closedYields co) = {}"
    "set (yields co) \<union> set (co_closedYields co) \<subseteq> {..<length (co_lookbacks co)}" "distinct (co_closedYields co)"
    using core by (auto simp: core_ok_def yields_ok_def)
  let ?h = "\<lparr>hp_operation = None, hp_since = since, hp_yield = Some (length (co_lookbacks co))\<rparr>"
  have new: "distinct (yields co') \<and> set (yields co') \<subseteq> insert (length (co_lookbacks co)) (set (yields co))"
    unfolding yields_def co' using yields_update [of "co_lookbackHeld co" "length (co_lookbacks co)" ?h] old(1,3)
    by (auto simp: yields_def)
  have "yields_ok co'"
    unfolding yields_ok_def using new old by (auto simp: co')
  moreover have "lookbacks_ok co'"
  proof (cases "issued co' < 2 ^ 64")
    case True
    have issued: "issued co' = issued co + 1" by (simp add: issued_def co')
    then have seq: "co_permitSequence co = issued co" "u64 (co_permitSequence co + 1) = issued co + 1"
      and ids: "\<forall>l < length (co_lookbacks co). lp_id (co_lookbacks co ! l) \<le> issued co" "distinct (map lp_id (co_lookbacks co))"
      and held: "\<forall>l < length (co_lookbacks co). \<not> lp_once (co_lookbacks co ! l) \<longrightarrow> l \<in> set (co_closedYields co)
        \<or> (\<exists>h. (lp_id (co_lookbacks co ! l), h) \<in> set (co_lookbackHeld co) \<and> hp_yield h = Some l)"
      using core True by (auto simp: core_ok_def lookbacks_ok_def u64_def)
    have "\<exists>h. (lp_id (co_lookbacks co' ! l), h) \<in> set (co_lookbackHeld co') \<and> hp_yield h = Some l"
      if l: "l < length (co_lookbacks co')" "\<not> lp_once (co_lookbacks co' ! l)" "l \<notin> set (co_closedYields co')" for l
    proof (cases "l < length (co_lookbacks co)")
      case True
      then obtain h where "(lp_id (co_lookbacks co ! l), h) \<in> set (co_lookbackHeld co)" "hp_yield h = Some l"
        using held l by (auto simp: co' nth_append)
      moreover have "lp_id (co_lookbacks co ! l) \<noteq> issued co + 1" using ids(1) True by force
      ultimately show ?thesis using True update_kept unfolding co' seq(2) by (fastforce simp: nth_append)
    next
      case False
      then show ?thesis using l(1) update_new unfolding co' by (fastforce simp: nth_append less_Suc_eq)
    qed
    moreover have "lp_id (co_lookbacks co' ! l) \<le> issued co'" if "l < length (co_lookbacks co')" for l
      using that ids(1) seq(2) issued by (auto simp: co' nth_append less_Suc_eq le_SucI)
    moreover have "distinct (map lp_id (co_lookbacks co'))"
      using ids seq(2) by (auto simp: co' in_set_conv_nth) (metis Suc_n_not_le_n)
    ultimately show ?thesis using seq issued by (auto simp: lookbacks_ok_def co')
  qed (simp add: lookbacks_ok_def)
  moreover have "refs_ok co' = refs_ok co" "channels_ok limits co' = channels_ok limits co" "index_ok co' = index_ok co"
    by (simp_all add: co' refs_ok_def channels_ok_def index_ok_def allWaiters_def)
  moreover have "counts_ok limits co'" using core free by (auto simp: core_ok_def counts_ok_def co' lookWeight_def)
  ultimately have "core_ok limits co'" using core by (simp add: core_ok_def)
  then show ?thesis
    using ok idle by (auto simp: coordinator_ok_def full_ok_def calm_def co' waiting_def)
qed

lemma TryAcquireLookback_ok:
  assumes "coordinator_ok limits co" "TryAcquireLookbackPermit limits now co = (answer, co')"
  shows "coordinator_ok limits co'"
proof -
  let ?co = "expireWaitersLocked (now 1) RecoveryQueue (expireWaitersLocked (now 0) NormalQueue co)"
  have ok: "coordinator_ok limits ?co" by (intro expire_ok assms(1))
  consider "co' = ?co" | "\<not> waiting ?co" "co_queryInflight ?co < rl_ProcessQueryPermits limits"
      "co' = snd (TryAcquireLookbackPermit limits now co)" "co_recoveryChannelWaiters ?co = []"
    using assms(2) unfolding TryAcquireLookbackPermit_def Let_def by (simp add: waiting_def split: if_splits)
  then show ?thesis
  proof cases
    case 2
    show ?thesis
      unfolding 2(3) using 2(1,2,4) by (intro lookback_granted [OF ok, where since = "now 2"])
        (simp_all add: TryAcquireLookbackPermit_def Let_def waiting_def)
  qed (use ok in simp)
qed

lemma releaseLookback_ok:
  assumes ok: "coordinator_ok limits co" and l: "l < length (co_lookbacks co)"
  shows "coordinator_ok limits (releaseLookback limits now l co)"
proof (cases "lp_once (co_lookbacks co ! l)")
  case False
  let ?id = "lp_id (co_lookbacks co ! l)"
  let ?ls = "(co_lookbacks co)[l := (co_lookbacks co ! l)\<lparr>lp_once := True\<rparr>]"
  let ?mid = "co\<lparr>co_lookbacks := ?ls, co_queryInflight := co_queryInflight co - 1, co_lookbackInflight := co_lookbackInflight co - 1,
    co_lookbackHeld := AList.delete ?id (co_lookbackHeld co)\<rparr>"
  have core: "core_ok limits co" using ok by (simp add: coordinator_ok_def)
  have "1 \<le> weigh lookWeight (co_lookbacks co)"
    using weigh_ge [of "co_lookbacks co" lookWeight l] l False by (simp add: lookWeight_def)
  moreover have "0 \<le> weigh heldWeight (co_permits co)" by (rule weigh_nonneg) (simp add: heldWeight_def)
  moreover have "counts_ok limits co" using core by (simp add: core_ok_def)
  ultimately have positive: "0 < co_queryInflight co" "0 < co_lookbackInflight co" by (simp_all add: counts_ok_def)
  have "weigh lookWeight ?ls = weigh lookWeight (co_lookbacks co) - 1" using l False by (simp add: weigh_update lookWeight_def)
  then have "counts_ok limits ?mid" using \<open>counts_ok limits co\<close> by (auto simp: counts_ok_def)
  moreover have "yields_ok ?mid"
    using core yields_delete [where k = ?id and held = "co_lookbackHeld co"] by (auto simp: core_ok_def yields_ok_def yields_def)
  moreover have "lookbacks_ok ?mid"
  proof -
    have ids: "map lp_id ?ls = map lp_id (co_lookbacks co)" by (simp add: map_update list_update_same_conv l)
    have "issued ?mid = issued co" by (simp add: issued_def)
    moreover have "lp_id (?ls ! m) = lp_id (co_lookbacks co ! m)" if "m < length (co_lookbacks co)" for m
      using that by (cases "m = l") simp_all
    moreover have "(lp_id (co_lookbacks co ! m), h) \<in> set (AList.delete ?id (co_lookbackHeld co))"
      if "issued co < 2 ^ 64" "m < length (co_lookbacks co)" "m \<noteq> l" "(lp_id (co_lookbacks co ! m), h) \<in> set (co_lookbackHeld co)" for m h
    proof -
      have "lp_id (co_lookbacks co ! m) \<noteq> ?id"
        using core that l nth_eq_iff_index_eq [of "map lp_id (co_lookbacks co)" m l] by (simp add: core_ok_def lookbacks_ok_def)
      then show ?thesis using that(4) by (auto simp: AList.delete_eq)
    qed
    moreover have "lp_once (?ls ! m) = (m = l \<or> lp_once (co_lookbacks co ! m))" if "m < length (co_lookbacks co)" for m
      using that by (cases "m = l") simp_all
    ultimately show ?thesis using core ids unfolding core_ok_def lookbacks_ok_def by auto
  qed
  moreover have "refs_ok ?mid = refs_ok co" "channels_ok limits ?mid = channels_ok limits co" "index_ok ?mid = index_ok co"
    by (simp_all add: refs_ok_def channels_ok_def index_ok_def allWaiters_def)
  ultimately have "core_ok limits ?mid" using core by (simp add: core_ok_def)
  moreover have "calm ?mid" using ok yields_delete(1) [where k = ?id and held = "co_lookbackHeld co"] by (auto simp: coordinator_ok_def calm_def waiting_def yields_def)
  ultimately have "coordinator_ok limits (dispatchQueryPermitsLocked limits now 1 ?mid)"
    by (rule query_dispatch_ok) (use ok in \<open>simp add: coordinator_ok_def full_ok_def\<close>)
  then show ?thesis using False positive by (simp add: releaseLookback_def releaseLookbackPermit_def Let_def)
qed (use ok in \<open>simp add: releaseLookback_def\<close>)

end
