(* ===== verification/Permits_Props.thy ===== *)
theory Permits_Props
  imports Permits_Inv
begin

text \<open>
  The \<open>FlightCoordinator\<close> as a state machine, and what holds in every state it reaches: the query
  budget is never exceeded, a query waits only while the whole budget is held, every waiter gets
  one answer and can always give up, and lookback reads make way for queries that wait.
\<close>

section \<open>The state machine\<close>

text \<open>
  The steps any number of goroutines take on one coordinator, in any order: each is one section
  of code under the mutex, with any readings of the clock.  What a caller can do with a reference
  it must hold first: a permit or channels are released after they were received, and, as
  \<open>RecoveryChannels\<close> documents, channels are released once all their places are back.
\<close>

inductive permitStep :: "RecoveryLimits \<Rightarrow> FlightCoordinator \<Rightarrow> FlightCoordinator \<Rightarrow> bool" for limits where
  request: "enqueueQueryPermit limits now cancelled slot OperationNormal deadline NoChannel co = (answer, co') \<Longrightarrow>
    permitStep limits co co'"
| through: "c < length (co_channels co) \<Longrightarrow> channels = co_channels co ! c \<Longrightarrow> Some c \<notin> snd ` set (co_channelAnswers co) \<Longrightarrow>
    \<not> rc_once channels \<Longrightarrow> 0 < rc_available channels \<Longrightarrow> \<not> deadline > rc_deadline channels \<Longrightarrow>
    channel = ViaChannel c \<or> channel = ViaOwnChannel c \<and> rc_count channels = 1 \<Longrightarrow>
    requestThrough limits now now' cancelled (rc_slot channels) (rc_operation channels) deadline channel c co = (answer, co') \<Longrightarrow>
    permitStep limits co co'"
| receive: "a \<in> set (co_answers co) \<Longrightarrow> receiveGrant limits now now' a co = (answer, co') \<Longrightarrow> permitStep limits co co'"
| give_up: "w \<in> set (allWaiters co) \<Longrightarrow> abandonWait limits now now' now'' e w co = Some (answer, co') \<Longrightarrow> permitStep limits co co'"
| release: "p < length (co_permits co) \<Longrightarrow> Some p \<notin> snd ` set (co_answers co) \<Longrightarrow>
    permitStep limits co (releasePermit limits now now' p co)"
| request_channels: "enqueueRecoveryChannels limits now cancelled slot operation deadline maximum co = (answer, co') \<Longrightarrow>
    permitStep limits co co'"
| receive_channels: "b \<in> set (co_channelAnswers co) \<Longrightarrow> receiveChannels limits now cancelled b co = (answer, co') \<Longrightarrow>
    permitStep limits co co'"
| give_up_channels: "v \<in> set (co_recoveryChannelWaiters co @ map fst (co_channelAnswers co)) \<Longrightarrow>
    abandonChannels limits now now' v co = Some co' \<Longrightarrow> permitStep limits co co'"
| release_channels: "c < length (co_channels co) \<Longrightarrow> Some c \<notin> snd ` set (co_channelAnswers co) \<Longrightarrow>
    rc_available (co_channels co ! c) = rc_count (co_channels co ! c) \<Longrightarrow> permitStep limits co (releaseChannels limits now c co)"
| lookback: "TryAcquireLookbackPermit limits now co = (refusal, co') \<Longrightarrow> permitStep limits co co'"
| release_lookback: "l < length (co_lookbacks co) \<Longrightarrow> permitStep limits co (releaseLookback limits now l co)"
| flight: "tryAcquireAs queryGroup holder co = (taken, co') \<Longrightarrow> permitStep limits co co'"
| flight_end: "permitStep limits co (releaseFlight listening queryGroup co)"

inductive permitReach :: "RecoveryLimits \<Rightarrow> FlightCoordinator \<Rightarrow> bool" for limits where
  start: "NewFlightCoordinatorWithRecovery limits = Some co \<Longrightarrow> permitReach limits co"
| step: "permitReach limits co \<Longrightarrow> permitStep limits co co' \<Longrightarrow> permitReach limits co'"

lemma flight_ok:
  "coordinator_ok limits (co\<lparr>co_active := active\<rparr>) = coordinator_ok limits co"
  "coordinator_ok limits (co\<lparr>co_told := told\<rparr>) = coordinator_ok limits co"
  by (simp_all add: coordinator_ok_def core_ok_def full_ok_def calm_def refs_ok_def counts_ok_def channels_ok_def yields_ok_def
      yields_def index_ok_def lookbacks_ok_def issued_def allWaiters_def waiting_def)

lemma step_ok:
  assumes "permitStep limits co co'" "coordinator_ok limits co"
  shows "coordinator_ok limits co'"
  using assms
proof (induction rule: permitStep.induct)
  case (request now cancelled slot deadline co answer co')
  show ?case by (rule enqueue_ok [OF request.prems _ request.hyps]) simp
next
  case (through c co channels deadline channel now now' cancelled answer co')
  then show ?case by (intro requestThrough_ok [OF through.prems through.hyps(1) _ through.hyps(8)]) auto
next
  case (receive a co now now' answer co')
  show ?case by (rule receiveGrant_ok [OF receive.prems, of "fst a" "snd a"]) (use receive.hyps in simp_all)
next
  case (give_up w co now now' now'' e answer co')
  then show ?case using abandonWait_ok [OF give_up.prems give_up.hyps(1), of now now' now'' e] by auto
next
  case (give_up_channels v co now now' co')
  then show ?case using abandonChannels_ok [OF give_up_channels.prems give_up_channels.hyps(1), of now now'] by auto
next
  case (receive_channels b co now cancelled answer co')
  show ?case by (rule receiveChannels_ok [OF receive_channels.prems, of "fst b" "snd b"]) (use receive_channels.hyps in simp_all)
next
  case (flight queryGroup holder co taken co')
  then show ?case by (auto simp: tryAcquireAs_def flight_ok split: option.splits if_splits)
next
  case (flight_end co listening queryGroup)
  then show ?case by (auto simp: releaseFlight_def Let_def flight_ok split: option.splits)
qed (auto intro: releasePermit_ok enqueueChannels_ok releaseChannels_ok TryAcquireLookback_ok releaseLookback_ok)

lemma permitReach_ok: "permitReach limits co \<Longrightarrow> coordinator_ok limits co"
  by (induction rule: permitReach.induct) (auto intro: new_ok step_ok)

lemma reach_limits: "permitReach limits co \<Longrightarrow> limitsValid limits"
  by (induction rule: permitReach.induct) (auto simp: NewFlightCoordinatorWithRecovery_def split: if_splits)

section \<open>The budget\<close>

definition heldPermits :: "FlightCoordinator \<Rightarrow> QueryPermit list" where
  "heldPermits co = filter (\<lambda>p. \<not> pm_once p) (co_permits co)"

definition heldLookbacks :: "FlightCoordinator \<Rightarrow> LookbackPermit list" where
  "heldLookbacks co = filter (\<lambda>l. \<not> lp_once l) (co_lookbacks co)"

definition heldChannels :: "FlightCoordinator \<Rightarrow> RecoveryChannels list" where
  "heldChannels co = filter (\<lambda>c. \<not> rc_once c) (co_channels co)"

lemma weigh_held:
  "weigh heldWeight ps = int (length (filter (\<lambda>p. \<not> pm_once p) ps))"
  "weigh (opWeight op) ps = int (length (filter (\<lambda>p. pm_operation p = op) (filter (\<lambda>p. \<not> pm_once p) ps)))"
  "weigh lookWeight ls = int (length (filter (\<lambda>l. \<not> lp_once l) ls))"
  "weigh chanWeight cs = sum_list (map rc_count (filter (\<lambda>c. \<not> rc_once c) cs))"
proof -
  show "weigh heldWeight ps = int (length (filter (\<lambda>p. \<not> pm_once p) ps))"
    "weigh (opWeight op) ps = int (length (filter (\<lambda>p. pm_operation p = op) (filter (\<lambda>p. \<not> pm_once p) ps)))"
    by (induction ps) (simp_all add: heldWeight_def opWeight_def)
  show "weigh lookWeight ls = int (length (filter (\<lambda>l. \<not> lp_once l) ls))" by (induction ls) (simp_all add: lookWeight_def)
  show "weigh chanWeight cs = sum_list (map rc_count (filter (\<lambda>c. \<not> rc_once c) cs))" by (induction cs) (simp_all add: chanWeight_def)
qed

text \<open>
  C37: The query budget is never exceeded.  Whatever the goroutines of the process do, the
  coordinator's counts are the permits, lookback permits and recovery channels that are held, in
  total and by operation; together they are at most the process permits, and the places of the
  channels at most the recovery permits.
\<close>

theorem budget_never_exceeded:
  assumes "permitReach limits co"
  shows "co_queryInflight co = int (length (heldPermits co)) + int (length (heldLookbacks co))
       \<and> co_queryInflight co \<le> rl_ProcessQueryPermits limits
       \<and> co_lookbackInflight co = int (length (heldLookbacks co))
       \<and> (\<forall>op. co_inflightByOp co op = int (length (filter (\<lambda>p. pm_operation p = op) (heldPermits co))))
       \<and> co_recoveryInflight co = sum_list (map rc_count (heldChannels co))
       \<and> co_recoveryInflight co \<le> rl_RecoveryQueryPermits limits"
  using permitReach_ok [OF assms]
  by (simp add: coordinator_ok_def core_ok_def counts_ok_def channels_ok_def weigh_held heldPermits_def heldLookbacks_def
      heldChannels_def)

text \<open>
  C38: Nobody waits for a free permit.  While a query is queued, every process permit is held, by a
  query or by a lookback read; while a request for recovery channels is queued, every recovery
  permit is in held channels.
\<close>

theorem waits_only_when_full:
  assumes "permitReach limits co"
  shows "(co_normalWaiters co \<noteq> [] \<or> co_recoveryWaiters co \<noteq> [] \<longrightarrow>
         int (length (heldPermits co)) + int (length (heldLookbacks co)) = rl_ProcessQueryPermits limits)
       \<and> (co_recoveryChannelWaiters co \<noteq> [] \<longrightarrow>
         sum_list (map rc_count (heldChannels co)) = rl_RecoveryQueryPermits limits)"
  using permitReach_ok [OF assms]
  by (auto simp: coordinator_ok_def core_ok_def full_ok_def counts_ok_def channels_ok_def waiting_def weigh_held heldPermits_def
      heldLookbacks_def heldChannels_def)

text \<open>
  C39: Every waiter is answered once and no goroutine is left behind.  No send on a grant channel
  ever finds its place taken, which would block under the mutex; a waiter is in one queue or has
  one answer, never both; and a waiter that gives up always returns, also when its answer was
  sent in the same moment.
\<close>

theorem waiter_answered_once:
  assumes "permitReach limits co"
  shows "\<not> co_wouldBlock co
       \<and> distinct (map qw_ref (co_normalWaiters co @ co_recoveryWaiters co @ map fst (co_answers co)))
       \<and> (\<forall>w \<in> set (co_normalWaiters co @ co_recoveryWaiters co @ map fst (co_answers co)).
            \<forall>now now' now'' e. abandonWait limits now now' now'' e w co \<noteq> None)
       \<and> (\<forall>v \<in> set (co_recoveryChannelWaiters co @ map fst (co_channelAnswers co)).
            \<forall>now now'. abandonChannels limits now now' v co \<noteq> None)"
proof -
  have ok: "coordinator_ok limits co" by (rule permitReach_ok [OF assms])
  then have refs: "refs_ok co" by (simp add: coordinator_ok_def core_ok_def)
  show ?thesis
    using abandonWait_ok [OF ok] abandonChannels_ok [OF ok] refs unfolding refs_ok_def allWaiters_def
    by (metis option.distinct(1))
qed

text \<open>
  C40: A lookback read is never why a query waits for long.  While a query is queued, every lookback
  permit that is held has been asked to yield, and no yield channel was closed twice, which would
  panic (as long as fewer than \<open>2^64\<close> permits were issued).
\<close>

theorem lookback_yields_to_waiters:
  assumes "permitReach limits co"
  shows "distinct (co_closedYields co)
       \<and> (length (co_permits co) + length (co_lookbacks co) < 2 ^ 64 \<and> (co_normalWaiters co \<noteq> [] \<or> co_recoveryWaiters co \<noteq> []) \<longrightarrow>
           (\<forall>l < length (co_lookbacks co). \<not> lp_once (co_lookbacks co ! l) \<longrightarrow> l \<in> set (co_closedYields co)))"
proof -
  have ok: "coordinator_ok limits co" by (rule permitReach_ok [OF assms])
  have held: "l \<in> set (yields co)" if "(i, h) \<in> set (co_lookbackHeld co)" "hp_yield h = Some l" for i h l
    using that by (force simp: yields_def map_filter_def)
  show ?thesis
    using ok held
    by (auto simp: coordinator_ok_def core_ok_def yields_ok_def calm_def waiting_def lookbacks_ok_def issued_def) blast+
qed

section \<open>Fairness\<close>

text \<open>
  The waiter a grant goes to is chosen fairly: it is the one with the earliest deadline of its
  Query Group, the others keep their order, and the Query Group that was served last is not served
  again while another one waits in that queue.
\<close>

theorem fair_pop:
  assumes "queue \<noteq> []" and "popFairWaiterLocked queue latest = (waiter, rest, selected)"
  shows "(\<exists>before after. queue = before @ waiter # after \<and> rest = before @ after)
       \<and> selected = si_QueryGroup (qw_slot waiter)
       \<and> (\<forall>w \<in> set queue. si_QueryGroup (qw_slot w) = selected \<longrightarrow> qw_deadline waiter \<le> qw_deadline w)
       \<and> ((\<exists>w \<in> set queue. si_QueryGroup (qw_slot w) \<noteq> latest) \<longrightarrow> selected \<noteq> latest)"
proof -
  obtain i where i: "i < length queue" "waiter = queue ! i" "rest = take i queue @ drop (i + 1) queue"
    and facts: "selected = si_QueryGroup (qw_slot waiter)"
      "\<forall>w \<in> set queue. si_QueryGroup (qw_slot w) = selected \<longrightarrow> qw_deadline waiter \<le> qw_deadline w"
      "(\<exists>w \<in> set queue. si_QueryGroup (qw_slot w) \<noteq> latest) \<longrightarrow> selected \<noteq> latest"
    using popFair_facts [OF assms] by blast
  have "queue = take i queue @ waiter # drop (i + 1) queue" using i(1,2) id_take_nth_drop by simp
  then show ?thesis using i(3) facts by blast
qed

section \<open>An example\<close>

text \<open>Two process permits: one is held by a query, one by a lookback read, and a second query comes.\<close>

definition pairLimits :: RecoveryLimits where
  "pairLimits = \<lparr>rl_ProcessQueryPermits = 2, rl_RecoveryQueryPermits = 1, rl_ReadyQueueCapacity = 10,
     rl_RecoveryQueueCapacity = 10, rl_MaxQueuedItemsPerQG = 4, rl_MaxReplaySlots = 2,
     rl_MaxReplayAge = 3600000000000, rl_RetryMinDelay = 1000000000, rl_RetryMaxDelay = 60000000000\<rparr>"

definition noon :: "nat \<Rightarrow> int" where "noon = (\<lambda>_. 100)"

definition askPermit :: "string \<Rightarrow> int \<Rightarrow> FlightCoordinator \<Rightarrow> FlightCoordinator" where
  "askPermit queryGroup deadline co =
     snd (enqueueQueryPermit pairLimits noon False \<lparr>si_QueryGroup = queryGroup, si_EvaluationTime = 60\<rparr> OperationNormal deadline NoChannel co)"

definition pairFresh :: FlightCoordinator where
  "pairFresh = the (NewFlightCoordinatorWithRecovery pairLimits)"

definition pairFull :: FlightCoordinator where
  "pairFull = snd (TryAcquireLookbackPermit pairLimits noon (askPermit ''a'' 200 pairFresh))"

definition pairBusy :: FlightCoordinator where
  "pairBusy = askPermit ''b'' 300 pairFull"

lemma pair_reach: "permitReach pairLimits pairBusy"
proof -
  have "NewFlightCoordinatorWithRecovery pairLimits = Some pairFresh"
    by (simp add: pairFresh_def NewFlightCoordinatorWithRecovery_def limitsValid_def pairLimits_def)
  then have fresh: "permitReach pairLimits pairFresh" by (rule permitReach.start)
  have ask: "permitReach pairLimits (askPermit g d co)" if "permitReach pairLimits co" for g d co
    unfolding askPermit_def by (rule permitReach.step [OF that permitStep.request [OF prod.collapse [symmetric]]])
  have "permitReach pairLimits pairFull"
    unfolding pairFull_def by (rule permitReach.step [OF ask [OF fresh] permitStep.lookback [OF prod.collapse [symmetric]]])
  then show ?thesis unfolding pairBusy_def by (rule ask)
qed

lemma pairBusy_code:
  "map qw_ref (co_normalWaiters pairBusy) = [1]" "length (co_permits pairBusy) = 1" "map lp_once (co_lookbacks pairBusy) = [False]"
  by code_simp+

lemma pairBusy_waits: "co_normalWaiters pairBusy \<noteq> []"
  using pairBusy_code(1) by auto

theorem budget_never_exceeded_witness: "co_queryInflight pairBusy \<le> 2 \<and> co_recoveryInflight pairBusy \<le> 1"
  using budget_never_exceeded [OF pair_reach] by (simp add: pairLimits_def)

theorem waits_only_when_full_witness: "int (length (heldPermits pairBusy)) + int (length (heldLookbacks pairBusy)) = 2"
  using waits_only_when_full [OF pair_reach] pairBusy_waits by (simp add: pairLimits_def)

theorem waiter_answered_once_witness:
  "\<not> co_wouldBlock pairBusy \<and> abandonWait pairLimits noon noon noon ContextDone (hd (co_normalWaiters pairBusy)) pairBusy \<noteq> None"
  using waiter_answered_once [OF pair_reach] pairBusy_waits by simp

theorem lookback_yields_to_waiters_witness: "0 \<in> set (co_closedYields pairBusy)"
proof -
  have "length (co_lookbacks pairBusy) = 1" "\<not> lp_once (co_lookbacks pairBusy ! 0)"
    using pairBusy_code(3) by (auto simp: map_eq_Cons_conv)
  then show ?thesis using lookback_yields_to_waiters [OF pair_reach] pairBusy_waits pairBusy_code(2) by simp
qed

text \<open>Two queries of one Query Group and one of another, which was not served last.\<close>

definition fairWaiter :: "nat \<Rightarrow> string \<Rightarrow> int \<Rightarrow> queryPermitWaiter" where
  "fairWaiter ref queryGroup deadline = \<lparr>qw_ref = ref, qw_slot = \<lparr>si_QueryGroup = queryGroup, si_EvaluationTime = 60\<rparr>,
     qw_operation = OperationNormal, qw_deadline = deadline, qw_channel = NoChannel\<rparr>"

theorem fair_pop_witness:
  "fst (popFairWaiterLocked [fairWaiter 0 ''a'' 100, fairWaiter 1 ''b'' 300, fairWaiter 2 ''b'' 200] ''a'') = fairWaiter 2 ''b'' 200
   \<and> snd (snd (popFairWaiterLocked [fairWaiter 0 ''a'' 100, fairWaiter 1 ''b'' 300, fairWaiter 2 ''b'' 200] ''a'')) \<noteq> ''a''"
proof -
  let ?queue = "[fairWaiter 0 ''a'' 100, fairWaiter 1 ''b'' 300, fairWaiter 2 ''b'' 200]"
  have "qw_ref (fst (popFairWaiterLocked ?queue ''a'')) = 2" by code_simp
  moreover have "popFairWaiterLocked ?queue ''a'' = (fst (popFairWaiterLocked ?queue ''a''),
      fst (snd (popFairWaiterLocked ?queue ''a'')), snd (snd (popFairWaiterLocked ?queue ''a'')))" by simp
  note fair_pop [OF _ this]
  ultimately show ?thesis by (auto simp: fairWaiter_def append_eq_Cons_conv Cons_eq_append_conv)
qed

end
