(* ===== verification/Spec2Isabelle.thy ===== *)
theory Spec2Isabelle
  imports GapReason Window_Props Packed_Correct Threshold_Props Detect_Props Trigger_Props KeyGate_Props
    Absence_Props Round_Props Recovery_Props Permits_Props
begin

text \<open>
  Verification of the alert detection core of alarmd (\<open>src/pkg/alarmd\<close>), the Go process that runs
  the detection of a monitoring platform: it queries series, decides per record and Level whether a
  value is an anomaly, keeps a short history of these facts, and turns the history into events.

  \<^bold>\<open>The parts and how they interact.\<close>  A Query Group is owned by one process.  Its \<^emph>\<open>Runner\<close> takes one
  Slot of the frozen \<^emph>\<open>schedule\<close> after another, classifies the Slots that missed their deadline
  (\<^emph>\<open>recovery\<close>), holds a Query Group whose query keeps failing back (\<^emph>\<open>cooldown pool\<close>), and queries
  under the \<^emph>\<open>permits\<close> of the process.  The records of a Slot pass the \<^emph>\<open>key gate\<close>, which orders the
  tasks that touch one runtime key.  \<^emph>\<open>Detection\<close> turns the values of a record into one fact per
  Level, by \<^emph>\<open>thresholds\<close> on normalized decimals or by comparisons; the facts are merged into the
  \<^emph>\<open>window\<close> of the key, which is stored as a \<^emph>\<open>framed record\<close>; the \<^emph>\<open>trigger\<close> reads a view of the
  window and decides the event.  Groups
  that did not report at all are found by the \<^emph>\<open>absence\<close> evaluation.  A gap marker carries the one
  reason the \<^emph>\<open>gap reason fold\<close> gives.

  \<^bold>\<open>Theories and sources\<close> (paths under \<open>src/pkg/alarmd\<close>).

  \<^item> \<open>Prelude\<close>: Go's machine integers as \<open>int\<close> and \<open>nat\<close> with the wrap-around written out, the binary
    search of package \<open>sort\<close>, lists strictly sorted by a key, and the collections \<open>go_arith\<close> and
    \<open>search_simps\<close> the components rest on.
  \<^item> \<open>GapReason\<close> (\<open>contract/gap_reason_fold.go\<close>): the fold and its order; the locale \<open>preference\<close>
    states what a fold needs of an order, and is interpreted on \<open>gapReasonOutranks\<close>.
  \<^item> \<open>Bitmap\<close>, \<open>Window\<close>, \<open>Window_Align\<close>, \<open>Window_Correct\<close>, \<open>Window_View\<close>, \<open>Window_Props\<close>
    (\<open>state/window.go\<close>, with the records of \<open>state/codec.go\<close>): the runtime state window with
    \<open>NewWindow\<close>, \<open>Align\<close>, \<open>ApplyContext\<close>, \<open>MarkPersisted\<close> and the readers of \<open>HistoryView\<close>.
  \<^item> \<open>Codec\<close>, \<open>RecordID\<close>, \<open>Packed\<close>, \<open>Packed_Correct\<close> (\<open>state/codec.go\<close>, \<open>contract/v2_canonical.go\<close>,
    \<open>state/execution_v2_packed.go\<close>): size bounds, variable-length integers, record ids, and the
    framed record written and read.  The locale \<open>size_bound\<close> carries the search for the largest
    number of points that fits; it is interpreted on both formats.
  \<^item> \<open>HistoryMerge\<close> (\<open>execution/state_history_merge.go\<close>): the stored and the fresh points of a round
    merged in one walk.
  \<^item> \<open>Threshold\<close>, \<open>Threshold_Correct\<close>, \<open>Threshold_Props\<close> (\<open>strategy/normalizer.go\<close>, the numbers and
    predicates of \<open>strategy/types.go\<close>, the predicate compiler of \<open>strategy/registry.go\<close>): decimal
    text, units, rounding to millionths, and compiled predicates.
  \<^item> \<open>Detect\<close>, \<open>Detect_Props\<close> (\<open>detect/evaluator.go\<close>, \<open>detect/named_input.go\<close>,
    \<open>detect/record_core.go\<close>, \<open>detect/registry.go\<close>, \<open>detect/threshold.go\<close>): preparing a Plan and
    evaluating a record, over values alone and over named inputs.  The locale \<open>fact_source\<close> is what
    a Level relies on of a detector, interpreted on the Threshold detector.
  \<^item> \<open>Trigger\<close>, \<open>Trigger_Correct\<close>, \<open>Trigger_View\<close>, \<open>Trigger_Props\<close> (\<open>trigger/evaluator_v2.go\<close>,
    \<open>trigger/model_v2.go\<close>, the history adapter of \<open>evaluation/evaluator.go\<close>): the decision of a
    Level and of a record.  The locale \<open>history_view\<close> is the contract between the trigger and a
    history; \<open>Trigger_View\<close> interprets it on the views of the window, which composes the two.
  \<^item> \<open>KeyGate\<close>, \<open>KeyGate_Correct\<close>, \<open>KeyGate_Props\<close> (\<open>worker/ordered_key_gate.go\<close>): reservations and
    their grants; the interleavings of the callers are the runs of \<open>gateStep\<close>.
  \<^item> \<open>NoDataGroup\<close>, \<open>Absence\<close>, \<open>Absence_Correct\<close>, \<open>Absence_Props\<close> (\<open>nodata/group.go\<close>,
    \<open>nodata/absence.go\<close>, the history roster of \<open>nodata/roster.go\<close>): group keys and the evaluation
    of a round against what was expected.
  \<^item> \<open>Runner\<close>, \<open>Cooldown\<close>, \<open>Cooldown_Correct\<close>, \<open>Round\<close>, \<open>Round_Props\<close> (\<open>scheduler/runtime.go\<close>,
    \<open>scheduler/recovery.go\<close>, \<open>scheduler/query_cooldown.go\<close>, \<open>scheduler/held_by.go\<close>): one round of a
    Runner, its retries, and the degraded pool with the record of it kept outside the process.
    The locale \<open>capped_doubling\<close> is shared by the two backoff loops and interpreted on both.
  \<^item> \<open>Schedule\<close> (\<open>execution/schedule_contract.go\<close>, \<open>execution/slot_retention.go\<close>): the Slots of a
    frozen schedule, their deadlines, and how long a segment is kept.
  \<^item> \<open>Recovery\<close>, \<open>Recovery_Props\<close> (\<open>scheduler/takeover_clock.go\<close>, \<open>classifyRecovery\<close> and what it
    calls in \<open>scheduler/slot_source.go\<close>): whether a late Slot is replayed or given up on.
  \<^item> \<open>Permits\<close>, \<open>Permits_Correct\<close>, \<open>Permits_Inv\<close>, \<open>Permits_Props\<close> (\<open>scheduler/recovery.go\<close>,
    \<open>scheduler/recovery_channels.go\<close>, \<open>scheduler/lookback_permit.go\<close>, the coordinator of
    \<open>scheduler/runtime.go\<close>): the query budget of the process, one function per section of code
    under the mutex; the runs of \<open>permitStep\<close> are the interleavings of the goroutines.

  \<^bold>\<open>What is shown.\<close>  For the window: an invariant over its life cycle, that an applied point or a new
  layout changes exactly the facts it says, and that the readers count exactly the facts in their
  range.  For the stored forms: that what is written is read back, that the bounds are tight and
  the merge is the union that prefers the fresh point.  For detection: a value is its decimal
  rounded half to even and order is never inverted, a compiled predicate is the disjunction of
  conjunctions it was written as, the connector is three-valued logic, and a Level's fact is the
  joint answer of its algorithms; two closed theorems show where the evidence and the reason of a
  Level over named inputs are not what the rest of the code expects.  For the trigger: that an event has a cause,
  that a recovery rests on misses somebody observed, that counts are exact.  For the gate: a
  reservation is granted exactly when no earlier live one shares a key, and some reservation is
  always granted.  For absence: an anomaly is reported exactly for an open absence, in any order of
  Go's map iteration, and a stopped or exhausted one stays silent.  For the scheduler: who enters
  and leaves the pool and on which evidence, that a held query wakes, that a restart keeps the
  pool, that backoff is bounded, that the next Slot is the first one due, that a segment outlives
  its Slots, that a Slot is given up on only for a cause it names.  For the permits: the budget is
  never exceeded, nobody waits while a permit is free, every waiter is answered once and no send
  blocks under the mutex, grants are fair, and lookback yields to whoever waits.

  \<^bold>\<open>Conventions.\<close>  A Go error is the left side of a sum or \<open>None\<close>; a panic is a value of its own
  where the code can reach one.  A pointer that the code compares or releases twice is a number,
  with the object in a list or map of the state; \<open>sync.Once\<close> is a flag of the object.  A mutex makes
  each section under it one atomic function.  Readings of the clock are arguments, one per call
  in the order of the text, and may be any instants.  Time is a number of nanoseconds, seconds or
  milliseconds as the code has it.  No definition uses fuel: every loop is structural recursion or
  a \<open>function\<close> with a \<open>termination\<close> proof.

  \<^bold>\<open>Parameters.\<close>  What the code takes from elsewhere is an argument: SHA-256, the JSON form of a
  header, the time zone table, the schedule catalog, the answers of the session, the admission and
  the executor in a round, the store of the pool record, the open alert set.

  \<^bold>\<open>Not modelled.\<close>  The comparison detectors (ring ratio, year round, amplitude) compute on
  \<open>float64\<close> and are arguments.  Redis scripts, Kafka, HTTP, the query
  service and the platform databases are outside the source or pure input and output.  The
  coordinator of a Slot (\<open>worker/coordinator.go\<close>, \<open>worker/stream_session.go\<close>) joins the parts across
  goroutines; its ordering primitive and the evaluations it calls are modelled, its streaming is
  not.  Of the slot source only the classification is modelled, not its reads of the catalog and
  its progress.  Observations, metrics and the floating-point sums of held time change no
  decision and are left out.  The other modules of the repository (\<open>unify-query\<close>, \<open>transfer\<close>,
  \<open>collector\<close> and the rest) are separate programs.
\<close>

end
